(* ===== verification/Prelude.thy ===== *)
theory Prelude
  imports Complex_Main "HOL-Library.List_Lexorder" "HOL-Library.Multiset"
begin

text \<open>
  Shared vocabulary of the development: the type of cell keys, the error values that
  stand for the Python exceptions the matching script can raise, and generic lemmas on
  sums over lists that the mass-conservation proofs of every component use.
  Floating-point numbers of the script (numpy \<open>float64\<close>) are modelled as \<open>real\<close>;
  rounding is not modelled.
\<close>

named_theorems mass_simps "sum rewriting used by the mass-conservation proofs"

type_synonym cell_key = "real list"

text \<open>
  The exceptions of the two scripts that the model keeps as values:
  \<^item> \<open>KeyErrorColumn c\<close>: a column label \<open>c\<close> missing from a data frame
    (\<open>df.loc[:, cols]\<close>, \<open>df['weight']\<close>, \<open>df.groupby(cells)\<close>);
  \<^item> \<open>KeyErrorCell k\<close>: \<open>groups[k]\<close> on a cell key absent from a dataset;
  \<^item> \<open>ValueErrorConcat\<close>: \<open>pd.concat([])\<close> ("No objects to concatenate");
  \<^item> \<open>IndexErrorIat i\<close>: \<open>Series.iat[i]\<close> past the end of a pre-sized table;
  \<^item> \<open>IndexErrorArgv\<close>: \<open>sys.argv[1]\<close> when the script is run without an argument;
  \<^item> \<open>ValueErrorInt s\<close>: \<open>int(s)\<close> on a string that is not a decimal integer literal;
  \<^item> \<open>FileNotFound p\<close>: \<open>pd.read_csv(p)\<close> when no file \<open>p\<close> can be read.
\<close>

datatype error =
    KeyErrorColumn string
  | KeyErrorCell cell_key
  | ValueErrorConcat
  | IndexErrorIat nat
  | IndexErrorArgv
  | ValueErrorInt string
  | FileNotFound string

subsection \<open>Sums over lists\<close>

lemma sum_list_scale [mass_simps]:
  "sum_list (map (\<lambda>x. c * f x) xs) = (c::real) * sum_list (map f xs)"
  by (induction xs) (simp_all add: algebra_simps)

lemma sum_list_concat_map [mass_simps]:
  "sum_list (concat (map f xs)) = sum_list (map (\<lambda>x. sum_list (f x)) xs)"
  by (induction xs) simp_all

lemma sum_list_filter_nonzero [mass_simps]:
  "sum_list (map f (filter (\<lambda>x. f x \<noteq> 0) xs)) = sum_list (map f xs)"
  for f :: "'a \<Rightarrow> real"
  by (induction xs) simp_all

lemma sum_list_map_filter_eq:
  "sum_list (map f (filter P xs)) = sum_list (map (\<lambda>x. if P x then f x else 0) xs)"
  for f :: "'a \<Rightarrow> real"
  by (induction xs) simp_all

lemma sum_list_nonneg_map:
  "(\<And>x. x \<in> set xs \<Longrightarrow> 0 \<le> f x) \<Longrightarrow> 0 \<le> sum_list (map f xs)"
  for f :: "'a \<Rightarrow> real"
  by (induction xs) (simp_all add: add_nonneg_nonneg)

lemma sum_list_upt_nth:
  "sum_list (map (\<lambda>i. xs ! i) [0..<length xs]) = sum_list xs"
  by (metis map_nth)

lemma map_upt_nth_comp:
  "map (\<lambda>i. f (xs ! i)) [0..<length xs] = map f xs"
proof -
  have "map f xs = map f (map (\<lambda>i. xs ! i) [0..<length xs])" by (simp add: map_nth)
  then show ?thesis by simp
qed

lemma sum_list_map_upt [mass_simps]:
  "sum_list (map f [0..<n]) = (\<Sum>i < n. f i)"
  for f :: "nat \<Rightarrow> real"
  by (induction n) simp_all

lemma sum_lessThan_map_nth:
  "(\<Sum>k < length xs. f (xs ! k)) = sum_list (map f xs)"
  for f :: "'a \<Rightarrow> real"
  by (simp add: sum_list_sum_nth atLeast0LessThan)

lemma sum_list_pos:
  "xs \<noteq> [] \<Longrightarrow> \<forall>x \<in> set xs. 0 < x \<Longrightarrow> 0 < sum_list xs"
  for xs :: "real list"
  by (induction xs) (auto simp: add_pos_nonneg sum_list_nonneg less_imp_le)

lemma sum_list_mset_eq:
  "mset xs = mset ys \<Longrightarrow> sum_list (map f xs) = sum_list (map f ys)"
  for f :: "'a \<Rightarrow> real"
  by (metis mset_map sum_mset_sum_list)

lemma sum_list_swap:
  "sum_list (map (\<lambda>x. sum_list (map (f x) ys)) xs) =
   sum_list (map (\<lambda>y. sum_list (map (\<lambda>x. f x y) xs)) ys)"
  for f :: "'a \<Rightarrow> 'b \<Rightarrow> real"
  by (induction xs) (simp_all add: sum_list_addf)

lemma sum_list_zero_map:
  "\<forall>x \<in> set xs. g x = 0 \<Longrightarrow> sum_list (map g xs) = (0 :: real)"
  by (induction xs) simp_all

lemma sum_list_single_key:
  assumes "distinct (map fst m)" "(k, v) \<in> set m" "\<forall>(c, c') \<in> set m. c \<noteq> k \<longrightarrow> g (c, c') = 0"
  shows "sum_list (map g m) = (g (k, v) :: real)"
  using assms
proof (induction m)
  case (Cons p m)
  show ?case
  proof (cases "fst p = k")
    case True
    with Cons.prems have "p = (k, v)" by (auto simp: image_iff)
    moreover from Cons.prems True have "\<forall>x \<in> set m. fst x \<noteq> k" by (auto simp: image_iff)
    with Cons.prems have "\<forall>x \<in> set m. g x = 0" by fastforce
    ultimately show ?thesis by (simp add: sum_list_zero_map)
  next
    case False
    with Cons show ?thesis by (cases p) auto
  qed
qed simp

lemma sorted_wrt_irrefl_distinct:
  "sorted_wrt R xs \<Longrightarrow> (\<And>x. \<not> R x x) \<Longrightarrow> distinct xs"
  by (induction xs) auto

lemma filter_upt_less: "filter (\<lambda>m. m < M) [a..<b] = [a..<min M b]"
  by (induction b) (auto simp: min_def le_Suc_eq)

subsection \<open>First missing label\<close>

text \<open>
  pandas checks a list of labels before it reads any data; the model reports the
  first label of the list that is not a column.
\<close>

definition first_missing :: "string list \<Rightarrow> string list \<Rightarrow> string option" where
  "first_missing have want = find (\<lambda>c. c \<notin> set have) want"

lemma first_missing_None_iff:
  "first_missing have want = None \<longleftrightarrow> set want \<subseteq> set have"
  by (auto simp: first_missing_def find_None_iff)

lemma first_missing_subset [simp]:
  "set want \<subseteq> set have \<Longrightarrow> first_missing have want = None"
  by (simp add: first_missing_None_iff)

lemma first_missing_Some:
  "first_missing have want = Some c \<Longrightarrow> c \<in> set want \<and> c \<notin> set have"
  by (auto simp: first_missing_def find_Some_iff)

end
