(* ===== verification/Frame.thy ===== *)
theory Frame
  imports Prelude
begin

text \<open>
  The data frames of \<open>src/transport/transport.py\<close> (DINA, CPS, SCF, and the
  intermediate DINA/CPS frame) and the pandas operations the script applies to them:
  reading columns (\<open>df['weight']\<close>, \<open>df.loc[:, cols]\<close>), grouping the rows by the
  cell fields (\<open>df.groupby(cells).groups\<close>, the Cell Partitioner), looking a cell up
  (\<open>groups[group]\<close>) and taking the rows of a cell (\<open>df.iloc[idx, :]\<close>).
  A row has its identifier (column \<open>id\<close>, the field \<open>rid\<close>: every frame of the model
  has that column, as the loader contract requires, so a \<open>KeyError\<close> on \<open>'id'\<close> is
  outside the model) and a numeric value for every column label;
  the frame's column list decides which labels exist, so that a missing label raises
  \<open>KeyError\<close> as pandas does.
\<close>

record 'id row =
  rid :: 'id
  vals :: "string \<Rightarrow> real"

record 'id frame =
  columns :: "string list"
  rows :: "'id row list"

subsection \<open>Reading columns\<close>

text \<open>\<open>df[c].to_numpy()\<close>: the values of one column, \<open>KeyError\<close> if it is missing.\<close>

definition column :: "'id frame \<Rightarrow> string \<Rightarrow> error + real list" where
  "column df c =
     (if c \<in> set (columns df) then Inr (map (\<lambda>r. vals r c) (rows df))
      else Inl (KeyErrorColumn c))"

text \<open>\<open>df.loc[:, cs].to_numpy()\<close>: one list of values per row, in the order of \<open>cs\<close>.\<close>

definition loc :: "'id frame \<Rightarrow> string list \<Rightarrow> error + real list list" where
  "loc df cs =
     (case first_missing (columns df) cs of
        Some c \<Rightarrow> Inl (KeyErrorColumn c)
      | None \<Rightarrow> Inr (map (\<lambda>r. map (vals r) cs) (rows df)))"

text \<open>\<open>df.iloc[idx, :]\<close>: the rows at the given positions, same columns.\<close>

definition iloc :: "'id frame \<Rightarrow> nat list \<Rightarrow> 'id frame" where
  "iloc df idx = df\<lparr>rows := map (\<lambda>i. rows df ! i) idx\<rparr>"

lemma column_ok [simp]:
  "c \<in> set (columns df) \<Longrightarrow> column df c = Inr (map (\<lambda>r. vals r c) (rows df))"
  by (simp add: column_def)

lemma loc_ok [simp]:
  assumes "set cs \<subseteq> set (columns df)"
  shows "loc df cs = Inr (map (\<lambda>r. map (vals r) cs) (rows df))"
  using assms by (simp add: loc_def)

lemma loc_Inl:
  "loc df cs = Inl e \<Longrightarrow> \<exists>c. e = KeyErrorColumn c \<and> c \<in> set cs \<and> c \<notin> set (columns df)"
  by (auto simp: loc_def dest: first_missing_Some split: option.splits)

lemma columns_iloc [simp]: "columns (iloc df idx) = columns df"
  by (simp add: iloc_def)

lemma rows_iloc [simp]: "rows (iloc df idx) = map (\<lambda>i. rows df ! i) idx"
  by (simp add: iloc_def)

subsection \<open>The Cell Partitioner: \<open>groupby(cells).groups\<close>\<close>

text \<open>
  The key of a row is the tuple of its values in the cell fields
  (\<open>['married', 'old', 'employed']\<close>). \<open>groupby(...).groups\<close> maps every key that
  occurs to the positions of the rows that have it, keys in ascending order (pandas
  sorts group keys by default). The frames are read by \<open>read_csv\<close> with its default
  \<open>RangeIndex\<close>, so the index labels \<open>.groups\<close> returns are row positions, which is
  what the script hands to \<open>iloc\<close>.
\<close>

definition cell_key :: "string list \<Rightarrow> 'id row \<Rightarrow> cell_key" where
  "cell_key cs r = map (vals r) cs"

definition group_indices :: "cell_key list \<Rightarrow> (cell_key \<times> nat list) list" where
  "group_indices ks =
     map (\<lambda>k. (k, filter (\<lambda>i. ks ! i = k) [0..<length ks])) (sort (remdups ks))"

definition groupby :: "string list \<Rightarrow> 'id frame \<Rightarrow> error + (cell_key \<times> nat list) list" where
  "groupby cs df =
     (case first_missing (columns df) cs of
        Some c \<Rightarrow> Inl (KeyErrorColumn c)
      | None \<Rightarrow> Inr (group_indices (map (cell_key cs) (rows df))))"

text \<open>\<open>groups[k]\<close>: the positions of cell \<open>k\<close>, \<open>KeyError\<close> if no row has key \<open>k\<close>.\<close>

definition lookup_group :: "(cell_key \<times> nat list) list \<Rightarrow> cell_key \<Rightarrow> error + nat list" where
  "lookup_group g k = (case map_of g k of Some idx \<Rightarrow> Inr idx | None \<Rightarrow> Inl (KeyErrorCell k))"

subsection \<open>Properties of the partition\<close>

lemma map_fst_group_indices [simp]: "map fst (group_indices ks) = sort (remdups ks)"
  by (simp add: group_indices_def comp_def)

lemma map_of_group_indices:
  "map_of (group_indices ks) k =
     (if k \<in> set ks then Some (filter (\<lambda>i. ks ! i = k) [0..<length ks]) else None)"
proof -
  have "map_of (map (\<lambda>k. (k, g k)) xs) k = (if k \<in> set xs then Some (g k) else None)"
    for g :: "cell_key \<Rightarrow> nat list" and xs
    by (induction xs) auto
  then show ?thesis by (simp add: group_indices_def)
qed

lemma group_indices_in_range:
  "(k, idx) \<in> set (group_indices ks) \<Longrightarrow> i \<in> set idx \<Longrightarrow> i < length ks \<and> ks ! i = k"
  by (auto simp: group_indices_def)

lemma group_indices_nonempty:
  assumes "(k, idx) \<in> set (group_indices ks)"
  shows "idx \<noteq> []"
proof -
  from assms have k: "k \<in> set ks" and idx: "idx = filter (\<lambda>i. ks ! i = k) [0..<length ks]"
    by (auto simp: group_indices_def)
  from k obtain i where "i < length ks" and "ks ! i = k"
    by (auto simp: in_set_conv_nth)
  with idx have "i \<in> set idx" by simp
  then show ?thesis by auto
qed

lemma mset_filter_upt_eq:
  "mset (concat (map (\<lambda>k. filter (\<lambda>i. f i = k) xs) (sort (remdups ys)))) = mset xs"
  if "\<forall>i \<in> set xs. f i \<in> set ys"
  using that
proof (induction xs)
  case Nil
  then show ?case by (induction ys) auto
next
  case (Cons x xs)
  let ?ks = "sort (remdups ys)"
  have d: "distinct ?ks" by simp
  have x: "f x \<in> set ?ks" using Cons.prems by simp
  have "mset (concat (map (\<lambda>k. filter (\<lambda>i. f i = k) (x # xs)) ks)) =
        (if f x \<in> set ks then {#x#} else {#}) + mset (concat (map (\<lambda>k. filter (\<lambda>i. f i = k) xs) ks))"
    if "distinct ks" for ks
    using that by (induction ks) auto
  with d x Cons show ?case by simp
qed

lemma group_indices_partition:
  "mset (concat (map snd (group_indices ks))) = mset [0..<length ks]"
  using mset_filter_upt_eq [of "[0..<length ks]" "\<lambda>i. ks ! i" ks]
  by (simp add: group_indices_def comp_def)

subsection \<open>Properties of the Cell Partitioner\<close>

text \<open>
  C20. \<open>groupby(cells).groups\<close> partitions the frame: every row position occurs in
  exactly one cell, cell keys are distinct and in ascending order, and each cell is a
  non-empty ascending list of the positions of the rows whose key it is.
\<close>

theorem groupby_partition:
  "groupby cs df = Inr g \<Longrightarrow>
   mset (concat (map snd g)) = mset [0..<length (rows df)] \<and>
   sorted_wrt (<) (map fst g) \<and>
   (\<forall>(k, idx) \<in> set g. idx \<noteq> [] \<and> sorted_wrt (<) idx \<and>
      (\<forall>i \<in> set idx. i < length (rows df) \<and> cell_key cs (rows df ! i) = k))"
proof -
  assume "groupby cs df = Inr g"
  then have g: "g = group_indices (map (cell_key cs) (rows df))"
    by (simp add: groupby_def split: option.splits)
  have "mset (concat (map snd g)) = mset [0..<length (rows df)]"
    using group_indices_partition [of "map (cell_key cs) (rows df)"] g by simp
  moreover have "sorted_wrt (<) (map fst g)"
    by (simp add: g strict_sorted_iff)
  moreover have "\<forall>(k, idx) \<in> set g. idx \<noteq> [] \<and> sorted_wrt (<) idx \<and>
      (\<forall>i \<in> set idx. i < length (rows df) \<and> cell_key cs (rows df ! i) = k)"
  proof (clarify)
    fix k idx assume "(k, idx) \<in> set g"
    then have kidx: "(k, idx) \<in> set (group_indices (map (cell_key cs) (rows df)))" by (simp add: g)
    then have "idx = filter (\<lambda>i. map (cell_key cs) (rows df) ! i = k) [0..<length (rows df)]"
      by (auto simp: group_indices_def)
    then have "sorted_wrt (<) idx" by (simp add: sorted_wrt_filter)
    moreover have "idx \<noteq> []" by (rule group_indices_nonempty [OF kidx])
    moreover have "\<forall>i \<in> set idx. i < length (rows df) \<and> cell_key cs (rows df ! i) = k"
      using group_indices_in_range [OF kidx] by fastforce
    ultimately show "idx \<noteq> [] \<and> sorted_wrt (<) idx \<and>
      (\<forall>i \<in> set idx. i < length (rows df) \<and> cell_key cs (rows df ! i) = k)" by blast
  qed
  ultimately show ?thesis by blast
qed

end
