(* ===== verification/Cost.thy ===== *)
theory Cost
  imports Frame
begin

text \<open>
  The Cost Matrix Builder of \<open>src/transport/transport.py\<close>: the variable
  correspondences \<open>matching_cps\<close> and \<open>matching_scf\<close> (a dict from a DINA column to
  the column of the other dataset it is compared with), the column lists the script
  derives from them (\<open>dina_cols\<close>, \<open>cps_cols\<close>, \<open>scf_cols\<close>), and
  \<open>scipy.spatial.distance.cdist(XA, XB, 'cityblock')\<close> on the selected columns.
\<close>

type_synonym correspondence = "(string \<times> string) list"

text \<open>
  A Python dict literal is an association list with distinct keys, in insertion order.
  \<open>list(m.keys())\<close> is \<open>source_cols\<close>; \<open>[m[col] for col in dina_cols]\<close> is
  \<open>target_cols\<close>, a lookup per key.
\<close>

definition dict_ok :: "correspondence \<Rightarrow> bool" where
  "dict_ok m \<longleftrightarrow> distinct (map fst m)"

definition source_cols :: "correspondence \<Rightarrow> string list" where
  "source_cols m = map fst m"

definition target_cols :: "correspondence \<Rightarrow> string list" where
  "target_cols m = map (\<lambda>c. the (map_of m c)) (source_cols m)"

text \<open>The city-block distance of two observations and \<open>cdist\<close> over two arrays.\<close>

definition cityblock :: "real list \<Rightarrow> real list \<Rightarrow> real" where
  "cityblock u v = sum_list (map2 (\<lambda>x y. \<bar>x - y\<bar>) u v)"

definition cdist :: "real list list \<Rightarrow> real list list \<Rightarrow> real list list" where
  "cdist XA XB = map (\<lambda>u. map (cityblock u) XB) XA"

text \<open>
  Lines 83--90 (and 125--126, 143--147 for the second stage): select the source columns
  of the first frame, the target columns of the second, then \<open>cdist\<close>. \<open>.loc\<close> raises
  \<open>KeyError\<close> on a missing label before any distance is computed; the first frame is
  read first.
\<close>

definition cost_matrix :: "correspondence \<Rightarrow> 'a frame \<Rightarrow> 'b frame \<Rightarrow> error + real list list" where
  "cost_matrix m A B =
     (case loc A (source_cols m) of
        Inl e \<Rightarrow> Inl e
      | Inr XA \<Rightarrow>
          (case loc B (target_cols m) of
             Inl e \<Rightarrow> Inl e
           | Inr XB \<Rightarrow> Inr (cdist XA XB)))"

subsection \<open>The correspondence\<close>

lemma target_cols_map_snd:
  "dict_ok m \<Longrightarrow> target_cols m = map snd m"
  by (induction m) (fastforce simp: dict_ok_def target_cols_def source_cols_def)+

lemma length_target_cols [simp]: "length (target_cols m) = length (source_cols m)"
  by (simp add: target_cols_def)

subsection \<open>City-block distance\<close>

lemma cityblock_self [simp]: "cityblock u u = 0"
  by (induction u) (simp_all add: cityblock_def)

lemma cityblock_Cons [simp]:
  "cityblock (x # u) (y # v) = \<bar>x - y\<bar> + cityblock u v"
  by (simp add: cityblock_def)

text \<open>
  Two observations that agree everywhere except in one coordinate, where they differ
  by \<open>d\<close>, are at distance \<open>|d|\<close>.
\<close>

subsection \<open>The cost matrix\<close>

lemma cost_matrix_ok:
  "set (source_cols m) \<subseteq> set (columns A) \<Longrightarrow> set (target_cols m) \<subseteq> set (columns B) \<Longrightarrow>
   cost_matrix m A B =
     Inr (map (\<lambda>a. map (\<lambda>b. cityblock (map (vals a) (source_cols m)) (map (vals b) (target_cols m)))
                   (rows B)) (rows A))"
  by (simp add: cost_matrix_def cdist_def)

lemma cost_matrix_Inr_iff:
  "(\<exists>C. cost_matrix m A B = Inr C) \<longleftrightarrow>
   set (source_cols m) \<subseteq> set (columns A) \<and> set (target_cols m) \<subseteq> set (columns B)"
  by (auto simp: cost_matrix_def loc_def first_missing_None_iff split: option.splits sum.splits)

lemma cityblock_pairs:
  "cityblock (map (f \<circ> fst) m) (map (g \<circ> snd) m) = (\<Sum>(c, c') \<leftarrow> m. \<bar>f c - g c'\<bar>)"
  by (induction m) auto

lemma cost_matrix_nth:
  assumes "dict_ok m" "cost_matrix m A B = Inr C"
  shows "length C = length (rows A) \<and>
    (\<forall>i < length (rows A). length (C ! i) = length (rows B) \<and>
       (\<forall>j < length (rows B). C ! i ! j = (\<Sum>(c, c') \<leftarrow> m. \<bar>vals (rows A ! i) c - vals (rows B ! j) c'\<bar>)))"
proof -
  from assms(2) have "set (source_cols m) \<subseteq> set (columns A)" "set (target_cols m) \<subseteq> set (columns B)"
    using cost_matrix_Inr_iff by blast+
  with assms have "C = map (\<lambda>a. map (\<lambda>b. \<Sum>(c, c') \<leftarrow> m. \<bar>vals a c - vals b c'\<bar>) (rows B)) (rows A)"
    by (simp add: cost_matrix_ok target_cols_map_snd source_cols_def cityblock_pairs)
  then show ?thesis by simp
qed

lemma cost_matrix_Inl: "cost_matrix m A B = Inl e \<Longrightarrow> \<exists>c. e = KeyErrorColumn c"
  by (auto simp: cost_matrix_def dest: loc_Inl split: sum.splits)

subsection \<open>Properties of the Cost Matrix Builder\<close>

text \<open>
  C17. With a correspondence dict, the cost matrix exists exactly when every declared
  variable is a column of its frame; it then has one row per source record and one
  column per target record, and entry \<open>(i, j)\<close> is the sum over the declared pairs
  \<open>(c, c')\<close> of \<open>|source[i].c - target[j].c'|\<close>, a non-negative number.
\<close>

theorem cost_matrix_entries:
  assumes "dict_ok m"
  shows "((\<exists>C. cost_matrix m A B = Inr C) \<longleftrightarrow>
            set (map fst m) \<subseteq> set (columns A) \<and> set (map snd m) \<subseteq> set (columns B)) \<and>
         (\<forall>C. cost_matrix m A B = Inr C \<longrightarrow> length C = length (rows A) \<and>
            (\<forall>i < length (rows A). length (C ! i) = length (rows B) \<and>
              (\<forall>j < length (rows B). 0 \<le> C ! i ! j \<and>
                 C ! i ! j = (\<Sum>(c, c') \<leftarrow> m. \<bar>vals (rows A ! i) c - vals (rows B ! j) c'\<bar>))))"
proof (intro conjI allI impI)
  show "(\<exists>C. cost_matrix m A B = Inr C) \<longleftrightarrow>
        set (map fst m) \<subseteq> set (columns A) \<and> set (map snd m) \<subseteq> set (columns B)"
    using assms by (simp add: cost_matrix_Inr_iff target_cols_map_snd source_cols_def)
next
  fix C assume C: "cost_matrix m A B = Inr C"
  note nth = cost_matrix_nth [OF assms C]
  show "length C = length (rows A)" using nth by blast
  fix i assume i: "i < length (rows A)"
  show "length (C ! i) = length (rows B)" using nth i by blast
  fix j assume j: "j < length (rows B)"
  show eq: "C ! i ! j = (\<Sum>(c, c') \<leftarrow> m. \<bar>vals (rows A ! i) c - vals (rows B ! j) c'\<bar>)"
    using nth i j by blast
  show "0 \<le> C ! i ! j" unfolding eq by (rule sum_list_nonneg) auto
qed

text \<open>
  C18. The builder fails fast: its only error is \<open>KeyError\<close> on a declared variable that
  is not a column; the source frame is checked first, so the target frame's columns are
  reported only when all source variables are present. No matrix is returned then.
\<close>

theorem cost_matrix_fail_fast:
  "cost_matrix m A B = Inl e \<Longrightarrow>
   \<exists>c. e = KeyErrorColumn c \<and>
     ((c \<in> set (source_cols m) \<and> c \<notin> set (columns A)) \<or>
      (set (source_cols m) \<subseteq> set (columns A) \<and> c \<in> set (target_cols m) \<and> c \<notin> set (columns B)))"
  by (auto simp: cost_matrix_def loc_def first_missing_None_iff dest: first_missing_Some
           split: option.splits sum.splits)

end
