(* ===== verification/Transport.thy ===== *)
theory Transport
  imports Prelude
begin

text \<open>
  The transport step of \<open>src/transport/transport.py\<close>: the weights of a cell are made
  to sum to one (\<open>w /= w.sum()\<close>, lines 96--100 and 153--157) and handed with the
  cost matrix to \<open>ot.emd\<close> (lines 104 and 161), the exact solver of the Python Optimal
  Transport library. The solver is outside the repository: the model states its
  contract (\<open>is_plan\<close>, \<open>is_optimal\<close>) and proves the rest of the program against
  any solver that meets it. Optimality of a given plan is certified by a dual solution
  (weak duality). A concrete solver, the monotone (north-west corner) coupling, meets
  the contract and serves the examples.
  Matrices are lists of rows.
\<close>

text \<open>\<open>ws /= ws.sum()\<close>.\<close>

definition normalise :: "real list \<Rightarrow> real list" where
  "normalise ws = map (\<lambda>w. w / sum_list ws) ws"

subsection \<open>The solver contract\<close>

text \<open>
  A transport plan between marginals \<open>a\<close> (rows) and \<open>b\<close> (columns): a
  non-negative \<open>|a| \<times> |b|\<close> matrix whose row sums are \<open>a\<close> and column sums are \<open>b\<close>.
\<close>

definition is_plan :: "real list \<Rightarrow> real list \<Rightarrow> real list list \<Rightarrow> bool" where
  "is_plan a b P \<longleftrightarrow>
     length P = length a \<and>
     (\<forall>i < length a. length (P ! i) = length b \<and> (\<forall>j < length b. 0 \<le> P ! i ! j) \<and>
                     (\<Sum>j < length b. P ! i ! j) = a ! i) \<and>
     (\<forall>j < length b. (\<Sum>i < length a. P ! i ! j) = b ! j)"

text \<open>\<open>np.sum(P * C)\<close>, the objective \<open>ot.emd\<close> minimises.\<close>

definition plan_cost :: "real list list \<Rightarrow> real list list \<Rightarrow> real" where
  "plan_cost C P = (\<Sum>i < length P. \<Sum>j < length (P ! i). C ! i ! j * P ! i ! j)"

definition is_optimal :: "real list \<Rightarrow> real list \<Rightarrow> real list list \<Rightarrow> real list list \<Rightarrow> bool" where
  "is_optimal a b C P \<longleftrightarrow>
     is_plan a b P \<and> (\<forall>Q. is_plan a b Q \<longrightarrow> plan_cost C P \<le> plan_cost C Q)"

text \<open>The solver's interface, and what the model assumes of \<open>ot.emd\<close>.\<close>

type_synonym solver = "real list \<Rightarrow> real list \<Rightarrow> real list list \<Rightarrow> real list list"

definition marginal :: "real list \<Rightarrow> bool" where
  "marginal a \<longleftrightarrow> (\<forall>x \<in> set a. 0 \<le> x) \<and> sum_list a = 1"

definition solver_sound :: "solver \<Rightarrow> bool" where
  "solver_sound S \<longleftrightarrow> (\<forall>a b C. marginal a \<and> marginal b \<longrightarrow> is_plan a b (S a b C))"

subsection \<open>Dual certificates\<close>

definition dual_feasible :: "real list list \<Rightarrow> real list \<Rightarrow> real list \<Rightarrow> bool" where
  "dual_feasible C u v \<longleftrightarrow> (\<forall>i < length u. \<forall>j < length v. u ! i + v ! j \<le> C ! i ! j)"

definition dual_value :: "real list \<Rightarrow> real list \<Rightarrow> real list \<Rightarrow> real list \<Rightarrow> real" where
  "dual_value a b u v = (\<Sum>i < length a. a ! i * u ! i) + (\<Sum>j < length b. b ! j * v ! j)"

subsection \<open>The monotone coupling\<close>

text \<open>
  The north-west corner rule, in closed form: with \<open>A\<close> and \<open>B\<close> the cumulative sums of
  the marginals, entry \<open>(i, j)\<close> is the length of the overlap of the intervals
  \<open>[A i, A (i+1)]\<close> and \<open>[B j, B (j+1)]\<close>.
\<close>

definition cum :: "real list \<Rightarrow> nat \<Rightarrow> real" where
  "cum a i = sum_list (take i a)"

definition overlap :: "real \<Rightarrow> real \<Rightarrow> real \<Rightarrow> real \<Rightarrow> real" where
  "overlap l h x y = max 0 (min h y - max l x)"

definition nw_plan :: solver where
  "nw_plan a b C =
     map (\<lambda>i. map (\<lambda>j. overlap (cum a i) (cum a (Suc i)) (cum b j) (cum b (Suc j)))
                  [0..<length b]) [0..<length a]"

subsection \<open>Normalisation\<close>

lemma length_normalise [simp]: "length (normalise ws) = length ws"
  by (simp add: normalise_def)

lemma nth_normalise [simp]: "i < length ws \<Longrightarrow> normalise ws ! i = ws ! i / sum_list ws"
  by (simp add: normalise_def)

lemma sum_list_normalise:
  "sum_list ws \<noteq> 0 \<Longrightarrow> sum_list (normalise ws) = 1"
proof -
  assume "sum_list ws \<noteq> 0"
  have "sum_list (normalise ws) = sum_list (map (\<lambda>w. (1 / sum_list ws) * w) ws)"
    by (simp add: normalise_def)
  also have "\<dots> = (1 / sum_list ws) * sum_list ws"
    using sum_list_scale [of "1 / sum_list ws" "\<lambda>w. w" ws] by simp
  also have "\<dots> = 1" using \<open>sum_list ws \<noteq> 0\<close> by simp
  finally show ?thesis .
qed

lemma marginal_normalise:
  "(\<forall>w \<in> set ws. 0 \<le> w) \<Longrightarrow> 0 < sum_list ws \<Longrightarrow> marginal (normalise ws)"
proof -
  assume nn: "\<forall>w \<in> set ws. 0 \<le> w" and pos: "0 < sum_list ws"
  then have "\<forall>x \<in> set (normalise ws). 0 \<le> x" by (auto simp: normalise_def)
  moreover from pos have "sum_list (normalise ws) = 1" by (simp add: sum_list_normalise)
  ultimately show ?thesis by (simp add: marginal_def)
qed

subsection \<open>Weak duality\<close>

lemma sum_lessThan_sum_list:
  "(\<Sum>i < length xs. xs ! i) = sum_list xs"
  by (simp add: sum_list_sum_nth atLeast0LessThan)

lemma plan_cost_ge_dual:
  assumes P: "is_plan a b Q" and u: "length u = length a" and v: "length v = length b"
    and D: "dual_feasible C u v"
  shows "dual_value a b u v \<le> plan_cost C Q"
proof -
  let ?n = "length a" and ?m = "length b"
  have rows: "\<And>i. i < ?n \<Longrightarrow> length (Q ! i) = ?m" and
    nn: "\<And>i j. i < ?n \<Longrightarrow> j < ?m \<Longrightarrow> 0 \<le> Q ! i ! j" and
    rs: "\<And>i. i < ?n \<Longrightarrow> (\<Sum>j < ?m. Q ! i ! j) = a ! i" and
    cs: "\<And>j. j < ?m \<Longrightarrow> (\<Sum>i < ?n. Q ! i ! j) = b ! j" and
    len: "length Q = ?n"
    using P by (auto simp: is_plan_def)
  have "dual_value a b u v =
        (\<Sum>i < ?n. u ! i * (\<Sum>j < ?m. Q ! i ! j)) + (\<Sum>j < ?m. v ! j * (\<Sum>i < ?n. Q ! i ! j))"
    by (simp add: dual_value_def rs cs mult.commute)
  also have "\<dots> = (\<Sum>i < ?n. \<Sum>j < ?m. (u ! i + v ! j) * Q ! i ! j)"
    by (simp add: sum_distrib_left distrib_right sum.distrib sum.swap [of _ "{..<?m}"])
  also have "\<dots> \<le> (\<Sum>i < ?n. \<Sum>j < ?m. C ! i ! j * Q ! i ! j)"
  proof (intro sum_mono mult_right_mono)
    fix i j assume "i \<in> {..<?n}" "j \<in> {..<?m}"
    then show "u ! i + v ! j \<le> C ! i ! j" and "0 \<le> Q ! i ! j"
      using D u v nn by (auto simp: dual_feasible_def)
  qed
  also have "\<dots> = plan_cost C Q"
    by (simp add: plan_cost_def len rows)
  finally show ?thesis .
qed

lemma optimal_by_certificate:
  assumes "is_plan a b P" "length u = length a" "length v = length b"
    and "dual_feasible C u v" and "plan_cost C P = dual_value a b u v"
  shows "is_optimal a b C P"
  using assms plan_cost_ge_dual by (fastforce simp: is_optimal_def)

subsection \<open>The monotone coupling is a plan\<close>

lemma cum_0 [simp]: "cum a 0 = 0"
  by (simp add: cum_def)

lemma cum_Suc: "i < length a \<Longrightarrow> cum a (Suc i) = cum a i + a ! i"
  by (simp add: cum_def take_Suc_conv_app_nth)

lemma cum_length: "cum a (length a) = sum_list a"
  by (simp add: cum_def)

lemma cum_step_mono:
  assumes "\<forall>x \<in> set a. 0 \<le> x"
  shows "cum a j \<le> cum a (Suc j)"
proof (cases "j < length a")
  case True
  with assms have "0 \<le> a ! j" by simp
  with True show ?thesis by (simp add: cum_Suc)
next
  case False
  then show ?thesis by (simp add: cum_def)
qed

lemma cum_mono:
  assumes "\<forall>x \<in> set a. 0 \<le> x" and "i \<le> j"
  shows "cum a i \<le> cum a j"
  using lift_Suc_mono_le [of "cum a", OF cum_step_mono [OF assms(1)] assms(2)] .

lemma overlap_nonneg: "0 \<le> overlap l h x y"
  by (simp add: overlap_def)

lemma overlap_sym: "overlap l h x y = overlap x y l h"
  by (simp add: overlap_def min.commute max.commute)

lemma overlap_split:
  "x \<le> y \<Longrightarrow> y \<le> z \<Longrightarrow> l \<le> h \<Longrightarrow> overlap l h x y + overlap l h y z = overlap l h x z"
  by (simp add: overlap_def max_def min_def)

text \<open>
  The intervals \<open>[c j, c (j+1)]\<close> of a non-decreasing sequence tile \<open>[c 0, c n]\<close>, so the
  overlaps of one interval with them add up to its overlap with \<open>[c 0, c n]\<close>.
\<close>

lemma overlap_telescope:
  assumes mono: "\<And>j. c j \<le> c (Suc j)" and lh: "l \<le> h"
  shows "(\<Sum>j < n. overlap l h (c j) (c (Suc j))) = overlap l h (c 0) (c n)"
proof (induction n)
  case 0
  then show ?case by (simp add: overlap_def)
next
  case (Suc n)
  have "c 0 \<le> c n" using lift_Suc_mono_le [of c, OF mono] by simp
  with Suc.IH show ?case by (simp add: overlap_split mono lh)
qed

lemma overlap_sum_cum:
  assumes nn: "\<forall>x \<in> set b. 0 \<le> x" and lh: "0 \<le> l" "l \<le> h" "h \<le> sum_list b"
  shows "(\<Sum>j < length b. overlap l h (cum b j) (cum b (Suc j))) = h - l"
proof -
  have "(\<Sum>j < length b. overlap l h (cum b j) (cum b (Suc j))) = overlap l h 0 (sum_list b)"
    using overlap_telescope [of "cum b" l h "length b"] cum_step_mono [OF nn] lh
    by (simp add: cum_length)
  also have "\<dots> = h - l" using lh by (simp add: overlap_def)
  finally show ?thesis .
qed

lemma nw_plan_is_plan:
  assumes a: "\<forall>x \<in> set a. 0 \<le> x" and b: "\<forall>x \<in> set b. 0 \<le> x"
    and eq: "sum_list a = sum_list b"
  shows "is_plan a b (nw_plan a b C)"
proof -
  have row: "(\<Sum>j < length b. overlap (cum a i) (cum a (Suc i)) (cum b j) (cum b (Suc j))) = a ! i"
    if "i < length a" for i
  proof -
    have "0 \<le> cum a i" using cum_mono [OF a, of 0 i] by simp
    moreover have "cum a i \<le> cum a (Suc i)" by (rule cum_step_mono [OF a])
    moreover have "cum a (Suc i) \<le> sum_list b"
      using cum_mono [OF a, of "Suc i" "length a"] that eq by (simp add: cum_length)
    ultimately show ?thesis
      using overlap_sum_cum [OF b] that by (simp add: cum_Suc)
  qed
  have col: "(\<Sum>i < length a. overlap (cum a i) (cum a (Suc i)) (cum b j) (cum b (Suc j))) = b ! j"
    if "j < length b" for j
  proof -
    have "0 \<le> cum b j" using cum_mono [OF b, of 0 j] by simp
    moreover have "cum b j \<le> cum b (Suc j)" by (rule cum_step_mono [OF b])
    moreover have "cum b (Suc j) \<le> sum_list a"
      using cum_mono [OF b, of "Suc j" "length b"] that eq by (simp add: cum_length)
    ultimately show ?thesis
      using overlap_sum_cum [OF a] that by (simp add: cum_Suc overlap_sym [of "cum a _"])
  qed
  show ?thesis
    using row col by (simp add: is_plan_def nw_plan_def overlap_nonneg)
qed

lemma solver_sound_nw_plan: "solver_sound nw_plan"
  by (simp add: solver_sound_def marginal_def nw_plan_is_plan)

subsection \<open>Normalisation\<close>

end
