(* ===== verification/Extract.thy ===== *)
theory Extract
  imports Transport Frame
begin

text \<open>
  The Match Extractor of \<open>src/transport/transport.py\<close>: the nonzero entries of a
  transport plan (\<open>np.nonzero\<close>, \<open>np.count_nonzero\<close>) become the rows of a
  correspondence table, each carrying the identifiers of its row and column records and
  the plan entry rescaled by the mass of the first dataset. The script fills a
  pre-sized table by position (\<open>pd.DataFrame(index=range(count_nonzero))\<close>, then
  \<open>.iat[i] = \<dots>; i += 1\<close> in a loop over \<open>np.nditer(nonzero_entries)\<close>); the three
  loops of the script (lines 110--120, 127--139, 166--177) differ only in the row they
  write, so one definition \<open>fill_rows\<close> models them, given the row.
\<close>

text \<open>\<open>np.nonzero(P)\<close> on a C-ordered array: positions in row-major order.\<close>

definition nonzero :: "real list list \<Rightarrow> (nat \<times> nat) list" where
  "nonzero P =
     concat (map (\<lambda>i. map (\<lambda>j. (i, j)) (filter (\<lambda>j. P ! i ! j \<noteq> 0) [0..<length (P ! i)]))
                 [0..<length P])"

text \<open>\<open>np.count_nonzero(P)\<close>, counted row by row.\<close>

definition count_nonzero :: "real list list \<Rightarrow> nat" where
  "count_nonzero P = sum_list (map (\<lambda>r. length (filter (\<lambda>x. x \<noteq> 0) r)) P)"

text \<open>
  The positional fill loop: the table has one slot per expected entry, \<open>None\<close> (NaN)
  until written; \<open>.iat[k]\<close> past the end raises \<open>IndexError\<close>; the row to write may
  itself raise (a missing column in the second stage).
\<close>

fun fill_rows :: "(nat \<times> nat \<Rightarrow> error + 'r) \<Rightarrow> 'r option list \<Rightarrow> nat \<Rightarrow> (nat \<times> nat) list \<Rightarrow>
                  error + 'r option list" where
  "fill_rows f t k [] = Inr t"
| "fill_rows f t k (e # es) =
     (if k < length t then
        (case f e of Inl err \<Rightarrow> Inl err | Inr r \<Rightarrow> fill_rows f (t[k := Some r]) (Suc k) es)
      else Inl (IndexErrorIat k))"

definition match_table :: "(nat \<times> nat \<Rightarrow> error + 'r) \<Rightarrow> real list list \<Rightarrow> error + 'r option list" where
  "match_table f P = fill_rows f (replicate (count_nonzero P) None) 0 (nonzero P)"

text \<open>The reference the loop is compared with: build the rows in order, stop at the
  first row that raises.\<close>

fun all_rows :: "('e \<Rightarrow> error + 'r) \<Rightarrow> 'e list \<Rightarrow> error + 'r list" where
  "all_rows f [] = Inr []"
| "all_rows f (e # es) = (case f e of Inl err \<Rightarrow> Inl err | Inr r \<Rightarrow> map_sum id (Cons r) (all_rows f es))"

subsection \<open>Nonzero positions\<close>

lemma set_nonzero:
  "set (nonzero P) = {(i, j). i < length P \<and> j < length (P ! i) \<and> P ! i ! j \<noteq> 0}"
  by (auto simp: nonzero_def)

lemma length_filter_positions:
  "length (filter (\<lambda>j. Q (r ! j)) [0..<length r]) = length (filter Q r)"
proof -
  have "map (\<lambda>j. r ! j) (filter (\<lambda>j. Q (r ! j)) [0..<length r]) = filter Q r"
    using filter_map [of Q "\<lambda>j. r ! j" "[0..<length r]"] by (simp add: comp_def map_nth)
  then show ?thesis by (metis length_map)
qed

lemma length_nonzero: "length (nonzero P) = count_nonzero P"
proof -
  have "length (nonzero P) = (\<Sum>i \<leftarrow> [0..<length P]. length (filter (\<lambda>x. x \<noteq> 0) (P ! i)))"
    by (simp add: nonzero_def length_concat comp_def length_filter_positions [where Q = "\<lambda>x. x \<noteq> 0"])
  also have "\<dots> = count_nonzero P"
    by (simp add: count_nonzero_def map_upt_nth_comp [of "\<lambda>r. length (filter (\<lambda>x. x \<noteq> 0) r)" P])
  finally show ?thesis .
qed

subsection \<open>The fill loop builds the list\<close>

lemma fill_rows_ok:
  "length t = k + length es \<Longrightarrow> (\<forall>e \<in> set es. f e = Inr (g e)) \<Longrightarrow>
   fill_rows f t k es = Inr (take k t @ map (\<lambda>e. Some (g e)) es)"
proof (induction es arbitrary: t k)
  case Nil
  then show ?case by simp
next
  case (Cons e es)
  then have k: "k < length t" and fe: "f e = Inr (g e)" by auto
  have "fill_rows f (t[k := Some (g e)]) (Suc k) es =
        Inr (take (Suc k) (t[k := Some (g e)]) @ map (\<lambda>e. Some (g e)) es)"
    using Cons by (intro Cons.IH) auto
  moreover have "take (Suc k) (t[k := Some (g e)]) = take k t @ [Some (g e)]"
    using k by (simp add: take_Suc_conv_app_nth)
  ultimately show ?case using k fe by simp
qed

lemma fill_rows_Inl:
  "fill_rows f t k es = Inl err \<Longrightarrow>
   (\<exists>e \<in> set es. f e = Inl err) \<or> (\<exists>k'. err = IndexErrorIat k' \<and> length t \<le> k')"
proof (induction es arbitrary: t k)
  case Nil
  then show ?case by simp
next
  case (Cons e es)
  show ?case
  proof (cases "k < length t")
    case True
    with Cons.prems show ?thesis
      by (auto split: sum.splits dest: Cons.IH)
  next
    case False
    with Cons.prems show ?thesis by auto
  qed
qed

text \<open>
  When every row can be built, the positional loop writes every slot of the pre-sized
  table exactly once, in the order of \<open>np.nonzero\<close>: no \<open>IndexError\<close>, no slot
  left NaN, and the table is the list the rows make.
\<close>

lemma match_table_ok:
  "(\<forall>e \<in> set (nonzero P). f e = Inr (g e)) \<Longrightarrow>
   match_table f P = Inr (map (\<lambda>e. Some (g e)) (nonzero P))"
  using fill_rows_ok [of "replicate (count_nonzero P) None" 0 "nonzero P" f g]
  by (simp add: match_table_def length_nonzero)

subsection \<open>Sums over the nonzero entries\<close>

lemma sum_nonzero_weighted:
  "sum_list (map (\<lambda>(i, j). g i j * P ! i ! j) (nonzero P)) =
   (\<Sum>i < length P. \<Sum>j < length (P ! i). g i j * P ! i ! j)"
proof -
  have inner: "sum_list (map (\<lambda>j. g i j * P ! i ! j) (filter (\<lambda>j. P ! i ! j \<noteq> 0) [0..<n])) =
               (\<Sum>j < n. g i j * P ! i ! j)" for i n
    by (auto simp: sum_list_map_filter_eq sum_list_map_upt intro!: sum.cong)
  have "map (\<lambda>(i, j). g i j * P ! i ! j) (nonzero P) =
        concat (map (\<lambda>i. map (\<lambda>j. g i j * P ! i ! j) (filter (\<lambda>j. P ! i ! j \<noteq> 0) [0..<length (P ! i)]))
                    [0..<length P])"
    by (simp add: nonzero_def map_concat comp_def)
  then show ?thesis
    by (simp add: sum_list_concat_map inner sum_list_map_upt)
qed

lemma plan_total:
  assumes "is_plan a b P"
  shows "(\<Sum>i < length P. \<Sum>j < length (P ! i). P ! i ! j) = sum_list a"
proof -
  from assms have "(\<Sum>i < length P. \<Sum>j < length (P ! i). P ! i ! j) = (\<Sum>i < length a. a ! i)"
    by (auto simp: is_plan_def intro: sum.cong)
  then show ?thesis by (simp add: sum_lessThan_sum_list)
qed

text \<open>
  The rescaled entries of the rows whose key is \<open>k\<close> add up to the rescaled marginal
  mass of those rows: what makes every rescaled table conserve mass.
\<close>

lemma nonzero_keyed_sum:
  assumes "is_plan a b P"
  shows "sum_list (map (\<lambda>(i, j). if key i = k then c * P ! i ! j else 0) (nonzero P)) =
         c * (\<Sum>i < length a. if key i = k then a ! i else 0)"
proof -
  have rows: "\<And>i. i < length a \<Longrightarrow> (\<Sum>j < length (P ! i). P ! i ! j) = a ! i"
    and len: "length P = length a"
    using assms by (auto simp: is_plan_def)
  have "sum_list (map (\<lambda>(i, j). if key i = k then c * P ! i ! j else 0) (nonzero P)) =
        sum_list (map (\<lambda>(i, j). (if key i = k then c else 0) * P ! i ! j) (nonzero P))"
    by (simp add: case_prod_unfold if_distrib [of "\<lambda>x. x * _"] cong: if_cong)
  also have "\<dots> = (\<Sum>i < length P. \<Sum>j < length (P ! i). (if key i = k then c else 0) * P ! i ! j)"
    by (rule sum_nonzero_weighted)
  also have "\<dots> = (\<Sum>i < length a. (if key i = k then c else 0) * a ! i)"
    by (simp add: len rows sum_distrib_left [symmetric])
  also have "\<dots> = c * (\<Sum>i < length a. if key i = k then a ! i else 0)"
    by (simp add: sum_distrib_left) (intro sum.cong; simp)
  finally show ?thesis .
qed

text \<open>The same on the column side: the entries of the columns whose key is \<open>k\<close>.\<close>

lemma nonzero_col_keyed_sum:
  assumes "is_plan a b P"
  shows "sum_list (map (\<lambda>(i, j). if key j = k then c * P ! i ! j else 0) (nonzero P)) =
         c * (\<Sum>j < length b. if key j = k then b ! j else 0)"
proof -
  have len: "length P = length a" and rowlen: "\<And>i. i < length a \<Longrightarrow> length (P ! i) = length b"
    and cols: "\<And>j. j < length b \<Longrightarrow> (\<Sum>i < length a. P ! i ! j) = b ! j"
    using assms by (auto simp: is_plan_def)
  have "sum_list (map (\<lambda>(i, j). if key j = k then c * P ! i ! j else 0) (nonzero P)) =
        sum_list (map (\<lambda>(i, j). (if key j = k then c else 0) * P ! i ! j) (nonzero P))"
    by (simp add: case_prod_unfold if_distrib [of "\<lambda>x. x * _"] cong: if_cong)
  also have "\<dots> = (\<Sum>i < length P. \<Sum>j < length (P ! i). (if key j = k then c else 0) * P ! i ! j)"
    by (rule sum_nonzero_weighted)
  also have "\<dots> = (\<Sum>i < length a. \<Sum>j < length b. (if key j = k then c else 0) * P ! i ! j)"
    by (simp add: len rowlen)
  also have "\<dots> = (\<Sum>j < length b. \<Sum>i < length a. (if key j = k then c else 0) * P ! i ! j)"
    by (rule sum.swap)
  also have "\<dots> = (\<Sum>j < length b. (if key j = k then c else 0) * b ! j)"
    by (simp add: cols sum_distrib_left [symmetric])
  also have "\<dots> = c * (\<Sum>j < length b. if key j = k then b ! j else 0)"
    by (simp add: sum_distrib_left) (intro sum.cong; simp)
  finally show ?thesis .
qed

lemma sum_if_distinct_key:
  fixes w :: "nat \<Rightarrow> real"
  assumes "distinct (map key [0..<n])" and "i0 < n"
  shows "(\<Sum>i < n. if key i = key i0 then w i else 0) = w i0"
proof -
  have "\<And>i. i < n \<Longrightarrow> key i = key i0 \<longleftrightarrow> i = i0"
    using assms by (auto simp: distinct_conv_nth)
  then have "(\<Sum>i < n. if key i = key i0 then w i else 0) = (\<Sum>i < n. if i = i0 then w i else 0)"
    by (intro sum.cong) auto
  also have "\<dots> = w i0" using assms(2) by simp
  finally show ?thesis .
qed

lemma fill_rows_all_rows:
  "length t = k + length es \<Longrightarrow>
   fill_rows f t k es = map_sum id (\<lambda>rs. take k t @ map Some rs) (all_rows f es)"
proof (induction es arbitrary: t k)
  case (Cons e es)
  then have k: "k < length t" by simp
  have tk: "take (Suc k) (t[k := Some r]) = take k t @ [Some r]" for r
    using k by (simp add: take_Suc_conv_app_nth)
  show ?case
  proof (cases "f e")
    case (Inr r)
    have "fill_rows f (t[k := Some r]) (Suc k) es =
          map_sum id (\<lambda>rs. take (Suc k) (t[k := Some r]) @ map Some rs) (all_rows f es)"
      using Cons.prems by (intro Cons.IH) simp
    with k Inr tk show ?thesis by (cases "all_rows f es") simp_all
  qed (simp add: k)
qed simp

lemma all_rows_Inl: "all_rows f es = Inl e \<Longrightarrow> \<exists>x \<in> set es. f x = Inl e"
proof (induction es)
  case (Cons x es)
  then show ?case by (cases "f x"; cases "all_rows f es") auto
qed simp

lemma match_table_Inl: "match_table f P = Inl e \<Longrightarrow> \<exists>x. f x = Inl e"
  using fill_rows_all_rows [of "replicate (count_nonzero P) None" 0 "nonzero P" f] all_rows_Inl [of f "nonzero P" e]
  by (cases "all_rows f (nonzero P)") (auto simp: match_table_def length_nonzero)

subsection \<open>Properties of the Match Extractor\<close>


end
