(* ===== verification/Chain.thy ===== *)
theory Chain
  imports Cost Extract
begin

text \<open>
  The body of the per-cell loop of \<open>src/transport/transport.py\<close> (lines 81--177), the
  Two-Stage Chainer: DINA and CPS are matched by optimal transport within the cell;
  without an SCF file the nonzero entries of the plan are the cell's matches; with one,
  they become the rows of an intermediate DINA/CPS frame that carries the DINA
  matching variables of \<open>matching_scf\<close> and the stage-one weight, and that frame is
  matched against SCF the same way. The solver is a parameter (\<open>ot.emd\<close> in the
  script, see \<open>Transport\<close>).
\<close>

datatype ('a, 'b, 'c) match =
    Match2 'a 'b real
  | Match3 'a 'b 'c real

primrec match_weight :: "('a, 'b, 'c) match \<Rightarrow> real" where
  "match_weight (Match2 _ _ w) = w"
| "match_weight (Match3 _ _ _ w) = w"

primrec match_dina :: "('a, 'b, 'c) match \<Rightarrow> 'a" where
  "match_dina (Match2 d _ _) = d"
| "match_dina (Match3 d _ _ _) = d"

primrec match_cps :: "('a, 'b, 'c) match \<Rightarrow> 'b" where
  "match_cps (Match2 _ c _) = c"
| "match_cps (Match3 _ c _ _) = c"

primrec match_scf :: "('a, 'b, 'c) match \<Rightarrow> 'c option" where
  "match_scf (Match2 _ _ _) = None"
| "match_scf (Match3 _ _ s _) = Some s"

text \<open>A table without NaN slots, as a list of its rows.\<close>

definition materialize :: "'r option list \<Rightarrow> 'r list" where
  "materialize t = map the t"

text \<open>Row of the single-stage table (lines 117--119).\<close>

definition match2_row :: "'a frame \<Rightarrow> 'b frame \<Rightarrow> real \<Rightarrow> real list list \<Rightarrow> nat \<times> nat \<Rightarrow>
                          error + ('a, 'b, 'c) match" where
  "match2_row D Cp mass P e =
     (case e of (i, j) \<Rightarrow> Inr (Match2 (rid (rows D ! i)) (rid (rows Cp ! j)) (mass * P ! i ! j)))"

text \<open>
  Row of the intermediate DINA/CPS frame (lines 134--138): both ids, the stage-one
  weight, and the DINA values of the stage-two matching columns, read by
  \<open>dina_subset[c]\<close>, which raises \<open>KeyError\<close> on a missing column.
\<close>

definition inter_row :: "correspondence \<Rightarrow> 'a frame \<Rightarrow> 'b frame \<Rightarrow> real \<Rightarrow> real list list \<Rightarrow>
                         nat \<times> nat \<Rightarrow> error + ('a \<times> 'b) row" where
  "inter_row m D Cp mass P e =
     (case e of (i, j) \<Rightarrow>
        (case first_missing (columns D) (source_cols m) of
           Some c \<Rightarrow> Inl (KeyErrorColumn c)
         | None \<Rightarrow> Inr \<lparr>rid = (rid (rows D ! i), rid (rows Cp ! j)),
                         vals = (vals (rows D ! i))(''weight'' := mass * P ! i ! j)\<rparr>))"

text \<open>The intermediate frame \<open>dina_cps_subset\<close> (lines 128--131).\<close>

definition inter_frame :: "correspondence \<Rightarrow> ('a \<times> 'b) row option list \<Rightarrow> ('a \<times> 'b) frame" where
  "inter_frame m t = \<lparr>columns = [''dina_id'', ''cps_id'', ''weight''] @ source_cols m,
                      rows = materialize t\<rparr>"

text \<open>Row of the two-stage table (lines 173--176).\<close>

definition match3_row :: "('a \<times> 'b) frame \<Rightarrow> 'c frame \<Rightarrow> real \<Rightarrow> real list list \<Rightarrow> nat \<times> nat \<Rightarrow>
                          error + ('a, 'b, 'c) match" where
  "match3_row DC Sc mass P e =
     (case e of (i, j) \<Rightarrow>
        Inr (Match3 (fst (rid (rows DC ! i))) (snd (rid (rows DC ! i))) (rid (rows Sc ! j))
                    (mass * P ! i ! j)))"

text \<open>
  One transport between two frames (lines 83--105 and 142--162): cost matrix, weights
  of both sides (\<open>df['weight']\<close>), mass of the first side, normalised marginals, the
  solver's plan. Returns the plan and the first side's mass.
\<close>

definition transport_step :: "solver \<Rightarrow> correspondence \<Rightarrow> 'a frame \<Rightarrow> 'b frame \<Rightarrow>
                              error + (real list list \<times> real)" where
  "transport_step S m A B =
     (case cost_matrix m A B of
        Inl e \<Rightarrow> Inl e
      | Inr cost \<Rightarrow>
          (case column A ''weight'' of
             Inl e \<Rightarrow> Inl e
           | Inr wa \<Rightarrow>
               (case column B ''weight'' of
                  Inl e \<Rightarrow> Inl e
                | Inr wb \<Rightarrow> Inr (S (normalise wa) (normalise wb) cost, sum_list wa))))"

text \<open>The tables as lists (spec section 9): the references the fill loops implement.\<close>

definition matches2 :: "'a frame \<Rightarrow> 'b frame \<Rightarrow> real \<Rightarrow> real list list \<Rightarrow> ('a, 'b, 'c) match list" where
  "matches2 D Cp mass P =
     map (\<lambda>(i, j). Match2 (rid (rows D ! i)) (rid (rows Cp ! j)) (mass * P ! i ! j)) (nonzero P)"

definition inter_rows :: "'a frame \<Rightarrow> 'b frame \<Rightarrow> real \<Rightarrow> real list list \<Rightarrow> ('a \<times> 'b) row list" where
  "inter_rows D Cp mass P =
     map (\<lambda>(i, j). \<lparr>rid = (rid (rows D ! i), rid (rows Cp ! j)),
                    vals = (vals (rows D ! i))(''weight'' := mass * P ! i ! j)\<rparr>) (nonzero P)"

definition matches3 :: "('a \<times> 'b) frame \<Rightarrow> 'c frame \<Rightarrow> real \<Rightarrow> real list list \<Rightarrow> ('a, 'b, 'c) match list" where
  "matches3 DC F mass P =
     map (\<lambda>(i, j). Match3 (fst (rid (rows DC ! i))) (snd (rid (rows DC ! i))) (rid (rows F ! j))
                          (mass * P ! i ! j)) (nonzero P)"

text \<open>The cell: stage one, then stage two when an SCF frame is given.\<close>

definition transport_cell :: "solver \<Rightarrow> correspondence \<Rightarrow> correspondence \<Rightarrow>
                              'a frame \<Rightarrow> 'b frame \<Rightarrow> 'c frame option \<Rightarrow>
                              error + ('a, 'b, 'c) match option list" where
  "transport_cell S mcps mscf D Cp Sc =
     (case transport_step S mcps D Cp of
        Inl e \<Rightarrow> Inl e
      | Inr (P, dina_mass) \<Rightarrow>
          (case Sc of
             None \<Rightarrow> match_table (match2_row D Cp dina_mass P) P
           | Some F \<Rightarrow>
               (case match_table (inter_row mscf D Cp dina_mass P) P of
                  Inl e \<Rightarrow> Inl e
                | Inr t \<Rightarrow>
                    (let DC = inter_frame mscf t in
                     case transport_step S mscf DC F of
                       Inl e \<Rightarrow> Inl e
                     | Inr (P2, dina_cps_mass) \<Rightarrow> match_table (match3_row DC F dina_cps_mass P2) P2))))"

subsection \<open>Weights\<close>

definition weights :: "'a frame \<Rightarrow> real list" where
  "weights F = map (\<lambda>r. vals r ''weight'') (rows F)"

text \<open>
  What the loader promises of a cell (spec section 6): a weight column, non-negative
  weights, and a positive total (a cell has at least one record of positive weight).
\<close>

definition weights_ok :: "'a frame \<Rightarrow> bool" where
  "weights_ok F \<longleftrightarrow>
     ''weight'' \<in> set (columns F) \<and> (\<forall>w \<in> set (weights F). 0 \<le> w) \<and> 0 < sum_list (weights F)"

lemma length_weights [simp]: "length (weights F) = length (rows F)"
  by (simp add: weights_def)

lemma column_weight:
  "weights_ok F \<Longrightarrow> column F ''weight'' = Inr (weights F)"
  by (simp add: weights_ok_def weights_def)

lemma transport_step_ok:
  assumes S: "solver_sound S"
    and cols: "set (source_cols m) \<subseteq> set (columns A)" "set (target_cols m) \<subseteq> set (columns B)"
    and A: "weights_ok A" and B: "weights_ok B"
  shows "\<exists>P. transport_step S m A B = Inr (P, sum_list (weights A)) \<and>
             is_plan (normalise (weights A)) (normalise (weights B)) P"
proof -
  have "marginal (normalise (weights A))" "marginal (normalise (weights B))"
    using A B by (simp_all add: weights_ok_def marginal_normalise)
  with S have "is_plan (normalise (weights A)) (normalise (weights B))
                 (S (normalise (weights A)) (normalise (weights B))
                    (cdist (map (\<lambda>r. map (vals r) (source_cols m)) (rows A))
                           (map (\<lambda>r. map (vals r) (target_cols m)) (rows B))))"
    by (simp add: solver_sound_def)
  then show ?thesis
    using cols A B by (simp add: transport_step_def cost_matrix_def column_weight)
qed

subsection \<open>Stage tables\<close>

lemma match_table_match2:
  "match_table (match2_row D Cp mass P) P = Inr (map Some (matches2 D Cp mass P))"
  by (simp add: match_table_ok [where g = "\<lambda>(i, j). Match2 (rid (rows D ! i)) (rid (rows Cp ! j)) (mass * P ! i ! j)"]
                match2_row_def matches2_def case_prod_unfold comp_def)

lemma match_table_match3:
  "match_table (match3_row DC F mass P) P = Inr (map Some (matches3 DC F mass P))"
  by (simp add: match_table_ok [where g = "\<lambda>(i, j). Match3 (fst (rid (rows DC ! i))) (snd (rid (rows DC ! i))) (rid (rows F ! j)) (mass * P ! i ! j)"]
                match3_row_def matches3_def case_prod_unfold comp_def)

lemma match_table_inter:
  "set (source_cols m) \<subseteq> set (columns D) \<Longrightarrow>
   match_table (inter_row m D Cp mass P) P = Inr (map Some (inter_rows D Cp mass P))"
  by (simp add: match_table_ok [where g = "\<lambda>(i, j). \<lparr>rid = (rid (rows D ! i), rid (rows Cp ! j)),
                    vals = (vals (rows D ! i))(''weight'' := mass * P ! i ! j)\<rparr>"]
                inter_row_def inter_rows_def case_prod_unfold comp_def)

subsection \<open>Mass of the stage tables\<close>

lemma nonzero_scaled_sum:
  "is_plan a b P \<Longrightarrow> sum_list (map (\<lambda>(i, j). c * P ! i ! j) (nonzero P)) = c * sum_list a"
  using nonzero_keyed_sum [of a b P "\<lambda>_. True" True c]
  by (simp add: sum_lessThan_sum_list)

lemma matches2_by_dina:
  "is_plan a b P \<Longrightarrow>
   sum_list (map match_weight (filter (\<lambda>r. match_dina r = d) (matches2 D Cp c P))) =
   c * (\<Sum>i < length a. if rid (rows D ! i) = d then a ! i else 0)"
  using nonzero_keyed_sum [of a b P "\<lambda>i. rid (rows D ! i)" d c]
  by (simp add: matches2_def sum_list_map_filter_eq case_prod_unfold comp_def if_distrib cong: if_cong)

lemma matches3_by_dina:
  "is_plan a b P \<Longrightarrow>
   sum_list (map match_weight (filter (\<lambda>r. match_dina r = d) (matches3 DC F c P))) =
   c * (\<Sum>k < length a. if fst (rid (rows DC ! k)) = d then a ! k else 0)"
  using nonzero_keyed_sum [of a b P "\<lambda>k. fst (rid (rows DC ! k))" d c]
  by (simp add: matches3_def sum_list_map_filter_eq case_prod_unfold comp_def if_distrib cong: if_cong)

lemma matches2_total:
  "is_plan a b P \<Longrightarrow> sum_list (map match_weight (matches2 D Cp c P)) = c * sum_list a"
  using nonzero_scaled_sum [of a b P c] by (simp add: matches2_def case_prod_unfold comp_def)

lemma matches3_total:
  "is_plan a b P \<Longrightarrow> sum_list (map match_weight (matches3 DC F c P)) = c * sum_list a"
  using nonzero_scaled_sum [of a b P c] by (simp add: matches3_def case_prod_unfold comp_def)

text \<open>
  Rescaling a normalised marginal by the mass it was normalised with gives back the
  weights: the sum over the rows with key \<open>k\<close> is their original weight.
\<close>

lemma rescale_keyed_sum:
  assumes "sum_list ws \<noteq> 0"
  shows "sum_list ws * (\<Sum>i < length ws. if key i = k then normalise ws ! i else 0) =
         (\<Sum>i < length ws. if key i = k then ws ! i else 0)"
  using assms by (simp add: sum_distrib_left if_distrib [of "\<lambda>x. _ * x"] cong: if_cong)

lemma distinct_rid_key:
  "distinct (map rid (rows D)) \<Longrightarrow> distinct (map (\<lambda>i. rid (rows D ! i)) [0..<length (rows D)])"
  by (simp add: map_upt_nth_comp [of rid "rows D"])

subsection \<open>The intermediate frame\<close>

lemma rows_inter_frame [simp]: "rows (inter_frame m (map Some xs)) = xs"
  by (simp add: inter_frame_def materialize_def comp_def)

lemma length_inter_rows [simp]: "length (inter_rows D Cp c P) = length (nonzero P)"
  by (simp add: inter_rows_def)

lemma columns_inter_frame [simp]:
  "columns (inter_frame m t) = [''dina_id'', ''cps_id'', ''weight''] @ source_cols m"
  by (simp add: inter_frame_def)

lemma weights_inter_frame:
  "weights (inter_frame m (map Some (inter_rows D Cp c P))) = map (\<lambda>(i, j). c * P ! i ! j) (nonzero P)"
  by (simp add: weights_def inter_frame_def materialize_def inter_rows_def comp_def case_prod_unfold)

lemma inter_rows_keyed:
  "sum_list (map (\<lambda>r. if fst (rid r) = d then vals r ''weight'' else 0) (inter_rows D Cp c P)) =
   sum_list (map (\<lambda>(i, j). if rid (rows D ! i) = d then c * P ! i ! j else 0) (nonzero P))"
  by (simp add: inter_rows_def comp_def case_prod_unfold cong: if_cong)

lemma plan_entry_nonneg:
  "is_plan a b P \<Longrightarrow> (i, j) \<in> set (nonzero P) \<Longrightarrow> 0 \<le> P ! i ! j"
  by (auto simp: is_plan_def set_nonzero)

lemma inter_frame_weights_ok:
  assumes P: "is_plan a b P" and a: "sum_list a = 1" and c: "0 < c"
  shows "weights_ok (inter_frame m (map Some (inter_rows D Cp c P)))"
proof -
  have "\<forall>w \<in> set (map (\<lambda>(i, j). c * P ! i ! j) (nonzero P)). 0 \<le> w"
    using P c plan_entry_nonneg by fastforce
  moreover have "sum_list (map (\<lambda>(i, j). c * P ! i ! j) (nonzero P)) = c"
    using nonzero_scaled_sum [OF P] a by simp
  ultimately show ?thesis
    using c by (simp add: weights_ok_def weights_inter_frame)
qed

lemma matches2_dina_sum:
  "sum_list (map match_weight (filter (\<lambda>r. match_dina r = d) (matches2 D Cp c P))) =
   sum_list (map (\<lambda>(i, j). if rid (rows D ! i) = d then c * P ! i ! j else 0) (nonzero P))"
  by (simp add: matches2_def sum_list_map_filter_eq case_prod_unfold comp_def cong: if_cong)

lemma matches3_dina_sum:
  "sum_list (map match_weight (filter (\<lambda>r. match_dina r = d) (matches3 DC F c P))) =
   sum_list (map (\<lambda>(k, j). if fst (rid (rows DC ! k)) = d then c * P ! k ! j else 0) (nonzero P))"
  by (simp add: matches3_def sum_list_map_filter_eq case_prod_unfold comp_def cong: if_cong)

lemma matches2_cps_sum:
  "sum_list (map match_weight (filter (\<lambda>r. match_cps r = c') (matches2 D Cp c P))) =
   sum_list (map (\<lambda>(i, j). if rid (rows Cp ! j) = c' then c * P ! i ! j else 0) (nonzero P))"
  by (simp add: matches2_def sum_list_map_filter_eq case_prod_unfold comp_def cong: if_cong)

lemma matches3_scf_sum:
  "sum_list (map match_weight (filter (\<lambda>r. match_scf r = Some s) (matches3 DC F c P))) =
   sum_list (map (\<lambda>(k, j). if rid (rows F ! j) = s then c * P ! k ! j else 0) (nonzero P))"
  by (simp add: matches3_def sum_list_map_filter_eq case_prod_unfold comp_def cong: if_cong)

lemma inter_frame_mass:
  "is_plan a b P \<Longrightarrow> sum_list a = 1 \<Longrightarrow>
   sum_list (weights (inter_frame m (map Some (inter_rows D Cp c P)))) = c"
  using nonzero_scaled_sum [of a b P c] by (simp add: weights_inter_frame)

lemma keyed_weights_rows:
  "(\<Sum>k < length (weights F). if key (rows F ! k) = d then weights F ! k else 0) =
   sum_list (map (\<lambda>r. if key r = d then vals r ''weight'' else 0) (rows F))"
proof -
  have "(\<Sum>k < length (weights F). if key (rows F ! k) = d then weights F ! k else 0) =
        (\<Sum>k < length (rows F). if key (rows F ! k) = d then vals (rows F ! k) ''weight'' else 0)"
    by (intro sum.cong) (auto simp: weights_def)
  also have "\<dots> = sum_list (map (\<lambda>r. if key r = d then vals r ''weight'' else 0) (rows F))"
    by (rule sum_lessThan_map_nth)
  finally show ?thesis .
qed

text \<open>
  The central identity of the matcher: the rescaled plan entries of one DINA record add
  up to that record's weight, when the DINA ids are distinct.
\<close>

lemma rescaled_keyed_mass:
  assumes P: "is_plan (normalise (weights D)) b P" and D: "weights_ok D"
  shows "sum_list (map (\<lambda>(i', j). if rid (rows D ! i') = d then sum_list (weights D) * P ! i' ! j else 0)
                      (nonzero P)) =
         (\<Sum>i' < length (rows D). if rid (rows D ! i') = d then weights D ! i' else 0)"
proof -
  let ?ws = "weights D" and ?key = "\<lambda>i. rid (rows D ! i)"
  have c: "sum_list ?ws \<noteq> 0" using D by (simp add: weights_ok_def)
  have "sum_list (map (\<lambda>(i', j). if ?key i' = d then sum_list ?ws * P ! i' ! j else 0) (nonzero P)) =
        sum_list ?ws * (\<Sum>i' < length ?ws. if ?key i' = d then normalise ?ws ! i' else 0)"
    using nonzero_keyed_sum [OF P, of ?key d "sum_list ?ws"] by simp
  also have "\<dots> = (\<Sum>i' < length ?ws. if ?key i' = d then ?ws ! i' else 0)"
    using rescale_keyed_sum [OF c, of ?key d] .
  finally show ?thesis by simp
qed

lemma rescaled_record_mass:
  assumes P: "is_plan (normalise (weights D)) b P" and D: "weights_ok D"
    and ids: "distinct (map rid (rows D))" and i: "i < length (rows D)"
  shows "sum_list (map (\<lambda>(i', j). if rid (rows D ! i') = rid (rows D ! i)
                                  then sum_list (weights D) * P ! i' ! j else 0) (nonzero P)) =
         weights D ! i"
  using rescaled_keyed_mass [OF P D, of "rid (rows D ! i)"]
    sum_if_distinct_key [of "\<lambda>i. rid (rows D ! i)" "length (rows D)" i "\<lambda>i. weights D ! i"]
    distinct_rid_key [OF ids] i
  by simp

subsection \<open>The cell\<close>

lemma marginal_normalise_weights:
  "weights_ok F \<Longrightarrow> sum_list (normalise (weights F)) = 1"
  by (simp add: weights_ok_def sum_list_normalise)

lemma cell_stage1:
  assumes S: "solver_sound S"
    and cols: "set (source_cols mcps) \<subseteq> set (columns D)" "set (target_cols mcps) \<subseteq> set (columns Cp)"
    and D: "weights_ok D" and Cp: "weights_ok Cp"
  shows "\<exists>P. transport_cell S mcps mscf D Cp None =
               Inr (map Some (matches2 D Cp (sum_list (weights D)) P)) \<and>
             is_plan (normalise (weights D)) (normalise (weights Cp)) P"
  using transport_step_ok [OF S cols D Cp]
  by (auto simp: transport_cell_def match_table_match2)

lemma cell_stage2:
  assumes S: "solver_sound S"
    and cols: "set (source_cols mcps) \<subseteq> set (columns D)" "set (target_cols mcps) \<subseteq> set (columns Cp)"
      "set (source_cols mscf) \<subseteq> set (columns D)" "set (target_cols mscf) \<subseteq> set (columns F)"
    and D: "weights_ok D" and Cp: "weights_ok Cp" and F: "weights_ok F"
  shows "\<exists>P P2. transport_cell S mcps mscf D Cp (Some F) =
               Inr (map Some (matches3 (inter_frame mscf (map Some (inter_rows D Cp (sum_list (weights D)) P)))
                                        F (sum_list (weights D)) P2)) \<and>
             is_plan (normalise (weights D)) (normalise (weights Cp)) P \<and>
             is_plan (normalise (weights (inter_frame mscf (map Some (inter_rows D Cp (sum_list (weights D)) P)))))
                     (normalise (weights F)) P2"
proof -
  let ?c = "sum_list (weights D)"
  obtain P where s1: "transport_step S mcps D Cp = Inr (P, ?c)"
    and P: "is_plan (normalise (weights D)) (normalise (weights Cp)) P"
    using transport_step_ok [OF S cols(1,2) D Cp] by blast
  let ?DC = "inter_frame mscf (map Some (inter_rows D Cp ?c P))"
  have c: "0 < ?c" using D by (simp add: weights_ok_def)
  have DC: "weights_ok ?DC"
    using inter_frame_weights_ok [OF P marginal_normalise_weights [OF D] c] .
  have mass: "sum_list (weights ?DC) = ?c"
    using nonzero_scaled_sum [OF P, of ?c] marginal_normalise_weights [OF D]
    by (simp add: weights_inter_frame)
  have colsDC: "set (source_cols mscf) \<subseteq> set (columns ?DC)" by auto
  obtain P2 where s2: "transport_step S mscf ?DC F = Inr (P2, ?c)"
    and P2: "is_plan (normalise (weights ?DC)) (normalise (weights F)) P2"
    using transport_step_ok [OF S colsDC cols(4) DC F] mass by auto
  have "transport_cell S mcps mscf D Cp (Some F) = Inr (map Some (matches3 ?DC F ?c P2))"
    using s1 s2 cols(3) by (simp add: transport_cell_def match_table_inter match_table_match3)
  with P P2 show ?thesis by blast
qed

text \<open>The second stage rescales by the intermediate mass, which is the DINA mass, and so
  returns it.\<close>

lemma stage2_total:
  assumes D: "weights_ok D" and P: "is_plan (normalise (weights D)) (normalise (weights Cp)) P"
    and P2: "is_plan (normalise (weights (inter_frame mscf (map Some (inter_rows D Cp (sum_list (weights D)) P)))))
                     (normalise (weights F)) P2"
  shows "sum_list (map match_weight (matches3 (inter_frame mscf (map Some (inter_rows D Cp (sum_list (weights D)) P)))
                              F (sum_list (weights D)) P2)) = sum_list (weights D)"
proof -
  have m: "sum_list (weights (inter_frame mscf (map Some (inter_rows D Cp (sum_list (weights D)) P)))) =
           sum_list (weights D)"
    using inter_frame_mass [OF P marginal_normalise_weights [OF D]] .
  have "sum_list (normalise (weights (inter_frame mscf (map Some (inter_rows D Cp (sum_list (weights D)) P))))) = 1"
    using m D by (simp add: sum_list_normalise weights_ok_def)
  then show ?thesis using matches3_total [OF P2] by simp
qed


text \<open>Per DINA id, without assuming ids distinct: the matches of either stage that carry
  id \<open>d\<close> add up to the weight of the DINA rows with id \<open>d\<close>.\<close>

lemma stage1_keyed:
  assumes P: "is_plan (normalise (weights D)) b P" and D: "weights_ok D"
  shows "sum_list (map match_weight (filter (\<lambda>r. match_dina r = d) (matches2 D Cp (sum_list (weights D)) P))) =
         (\<Sum>i < length (rows D). if rid (rows D ! i) = d then weights D ! i else 0)"
  using rescaled_keyed_mass [OF P D, of d] by (simp add: matches2_dina_sum)

lemma stage2_keyed:
  assumes D: "weights_ok D" and P: "is_plan (normalise (weights D)) (normalise (weights Cp)) P"
    and P2: "is_plan (normalise (weights (inter_frame mscf (map Some (inter_rows D Cp (sum_list (weights D)) P)))))
                     (normalise (weights F)) P2"
  shows "sum_list (map match_weight (filter (\<lambda>r. match_dina r = d)
           (matches3 (inter_frame mscf (map Some (inter_rows D Cp (sum_list (weights D)) P))) F (sum_list (weights D)) P2))) =
         (\<Sum>i < length (rows D). if rid (rows D ! i) = d then weights D ! i else 0)"
proof -
  let ?c = "sum_list (weights D)"
  define DC where "DC = inter_frame mscf (map Some (inter_rows D Cp ?c P))"
  have m: "sum_list (weights DC) = ?c"
    unfolding DC_def using inter_frame_mass [OF P marginal_normalise_weights [OF D]] .
  have c: "sum_list (weights DC) \<noteq> 0" using m D by (simp add: weights_ok_def)
  have "sum_list (map match_weight (filter (\<lambda>r. match_dina r = d) (matches3 DC F ?c P2))) =
        ?c * (\<Sum>k < length (weights DC). if fst (rid (rows DC ! k)) = d then normalise (weights DC) ! k else 0)"
    using nonzero_keyed_sum [OF P2 [folded DC_def], of "\<lambda>k. fst (rid (rows DC ! k))" d ?c]
    by (simp add: matches3_dina_sum)
  also have "\<dots> = (\<Sum>k < length (weights DC). if fst (rid (rows DC ! k)) = d then weights DC ! k else 0)"
    using rescale_keyed_sum [OF c, of "\<lambda>k. fst (rid (rows DC ! k))" d] m by simp
  also have "\<dots> = sum_list (map (\<lambda>r. if fst (rid r) = d then vals r ''weight'' else 0) (rows DC))"
    by (rule keyed_weights_rows)
  also have "\<dots> = sum_list (map (\<lambda>(i', j). if rid (rows D ! i') = d then ?c * P ! i' ! j else 0) (nonzero P))"
    by (simp add: DC_def inter_rows_keyed)
  also have "\<dots> = (\<Sum>i < length (rows D). if rid (rows D ! i) = d then weights D ! i else 0)"
    by (rule rescaled_keyed_mass [OF P D])
  finally show ?thesis by (simp add: DC_def)
qed

subsection \<open>Mass conservation per cell\<close>

text \<open>
  C1. Single-stage run of a cell (no SCF): the transport of a cell returns a table
  without NaN slots; its weights add up to the DINA mass of the cell, and, when DINA
  ids are distinct within the cell, every DINA record keeps its weight: the matches
  that carry its id add up to it.
\<close>

theorem cell_single_stage_mass:
  assumes "solver_sound S"
    and "set (source_cols mcps) \<subseteq> set (columns D)" "set (target_cols mcps) \<subseteq> set (columns Cp)"
    and D: "weights_ok D" and "weights_ok Cp"
  shows "\<exists>t. transport_cell S mcps mscf D Cp (None :: 'c frame option) = Inr (map Some t) \<and>
             sum_list (map match_weight t) = sum_list (weights D) \<and>
             (distinct (map rid (rows D)) \<longrightarrow> (\<forall>i < length (rows D).
                sum_list (map match_weight (filter (\<lambda>r. match_dina r = rid (rows D ! i)) t)) = weights D ! i))"
proof -
  obtain P where cell: "transport_cell S mcps mscf D Cp (None :: 'c frame option) =
                          Inr (map Some (matches2 D Cp (sum_list (weights D)) P))"
    and P: "is_plan (normalise (weights D)) (normalise (weights Cp)) P"
    using cell_stage1 [OF assms] by blast
  have "sum_list (map match_weight (matches2 D Cp (sum_list (weights D)) P)) = sum_list (weights D)"
    using matches2_total [OF P] marginal_normalise_weights [OF D] by simp
  moreover have "sum_list (map match_weight (filter (\<lambda>r. match_dina r = rid (rows D ! i))
                   (matches2 D Cp (sum_list (weights D)) P))) = weights D ! i"
    if ids: "distinct (map rid (rows D))" and i: "i < length (rows D)" for i
    using rescaled_record_mass [OF P D ids i] by (simp add: matches2_dina_sum)
  ultimately show ?thesis using cell by blast
qed

text \<open>
  C3. Two-stage run of a cell (SCF configured): the cell returns a table without NaN
  slots whose weights add up to the DINA mass of the cell (the second stage rescales by
  the intermediate mass, which equals the DINA mass), and, when DINA ids are distinct
  within the cell, every DINA record keeps its weight through both transports.
\<close>

theorem cell_two_stage_mass:
  assumes "solver_sound S"
    and "set (source_cols mcps) \<subseteq> set (columns D)" "set (target_cols mcps) \<subseteq> set (columns Cp)"
      "set (source_cols mscf) \<subseteq> set (columns D)" "set (target_cols mscf) \<subseteq> set (columns F)"
    and D: "weights_ok D" and "weights_ok Cp" and "weights_ok F"
  shows "\<exists>t. transport_cell S mcps mscf D Cp (Some F) = Inr (map Some t) \<and>
             sum_list (map match_weight t) = sum_list (weights D) \<and>
             (distinct (map rid (rows D)) \<longrightarrow> (\<forall>i < length (rows D).
                sum_list (map match_weight (filter (\<lambda>r. match_dina r = rid (rows D ! i)) t)) = weights D ! i))"
proof -
  let ?c = "sum_list (weights D)"
  obtain P P2 where cell: "transport_cell S mcps mscf D Cp (Some F) =
      Inr (map Some (matches3 (inter_frame mscf (map Some (inter_rows D Cp ?c P))) F ?c P2))"
    and P: "is_plan (normalise (weights D)) (normalise (weights Cp)) P"
    and P2: "is_plan (normalise (weights (inter_frame mscf (map Some (inter_rows D Cp ?c P)))))
                     (normalise (weights F)) P2"
    using cell_stage2 [OF assms] by blast
  have "sum_list (map match_weight (matches3 (inter_frame mscf (map Some (inter_rows D Cp ?c P))) F ?c P2)) = ?c"
    using stage2_total [OF D P P2] .
  moreover have "sum_list (map match_weight (filter (\<lambda>r. match_dina r = rid (rows D ! i))
          (matches3 (inter_frame mscf (map Some (inter_rows D Cp ?c P))) F ?c P2))) = weights D ! i"
    if ids: "distinct (map rid (rows D))" and i: "i < length (rows D)" for i
    using stage2_keyed [OF D P P2, of "rid (rows D ! i)"]
      sum_if_distinct_key [of "\<lambda>i. rid (rows D ! i)" "length (rows D)" i "\<lambda>i. weights D ! i"]
      distinct_rid_key [OF ids] i
    by simp
  ultimately show ?thesis using cell by blast
qed

subsection \<open>Records of the stage tables\<close>


text \<open>
  C24. Without SCF, every entry the cell emits links a DINA record of the cell to a CPS
  record of the cell with a positive weight: only the structurally nonzero plan entries
  are extracted, and no identifier is invented.
\<close>

theorem cell_single_stage_entries:
  assumes S: "solver_sound S"
    and cols: "set (source_cols mcps) \<subseteq> set (columns D)" "set (target_cols mcps) \<subseteq> set (columns Cp)"
    and D: "weights_ok D" and Cp: "weights_ok Cp"
  shows "\<exists>t. transport_cell S mcps mscf D Cp (None :: 'c frame option) = Inr (map Some t) \<and>
     (\<forall>x \<in> set t. \<exists>d c w. x = Match2 d c w \<and> d \<in> rid ` set (rows D) \<and> c \<in> rid ` set (rows Cp) \<and> 0 < w)"
proof -
  obtain P where cell: "transport_cell S mcps mscf D Cp (None :: 'c frame option) =
                          Inr (map Some (matches2 D Cp (sum_list (weights D)) P))"
    and P: "is_plan (normalise (weights D)) (normalise (weights Cp)) P"
    using cell_stage1 [OF S cols D Cp] by blast
  have c: "0 < sum_list (weights D)" using D by (simp add: weights_ok_def)
  have "\<exists>d c w. x = Match2 d c w \<and> d \<in> rid ` set (rows D) \<and> c \<in> rid ` set (rows Cp) \<and> 0 < w"
    if x: "x \<in> set (matches2 D Cp (sum_list (weights D)) P)" for x :: "('a, 'b, 'c) match"
  proof -
    from x obtain i j where ij: "(i, j) \<in> set (nonzero P)"
      and xe: "x = Match2 (rid (rows D ! i)) (rid (rows Cp ! j)) (sum_list (weights D) * P ! i ! j)"
      by (auto simp: matches2_def)
    from ij P have i: "i < length (rows D)" and j: "j < length (rows Cp)" and nz: "P ! i ! j \<noteq> 0"
      by (auto simp: set_nonzero is_plan_def)
    have "0 < P ! i ! j" using plan_entry_nonneg [OF P ij] nz by simp
    with c have "0 < sum_list (weights D) * P ! i ! j" by simp
    with xe i j show ?thesis by (auto intro: nth_mem)
  qed
  with cell show ?thesis by blast
qed

text \<open>
  C25. Without SCF, the matches that carry a CPS record's id add up to that record's
  weight scaled by the ratio of the cell's DINA mass to its CPS mass (CPS ids distinct in
  the cell): the target marginal is respected, on the DINA mass scale the extractor
  rescales to.
\<close>

theorem cell_single_stage_cps_marginal:
  assumes S: "solver_sound S"
    and cols: "set (source_cols mcps) \<subseteq> set (columns D)" "set (target_cols mcps) \<subseteq> set (columns Cp)"
    and D: "weights_ok D" and Cp: "weights_ok Cp"
    and ids: "distinct (map rid (rows Cp))" and j: "j < length (rows Cp)"
  shows "\<exists>t. transport_cell S mcps mscf D Cp (None :: 'c frame option) = Inr (map Some t) \<and>
             sum_list (map match_weight (filter (\<lambda>r. match_cps r = rid (rows Cp ! j)) t)) =
             sum_list (weights D) * weights Cp ! j / sum_list (weights Cp)"
proof -
  obtain P where cell: "transport_cell S mcps mscf D Cp (None :: 'c frame option) =
                          Inr (map Some (matches2 D Cp (sum_list (weights D)) P))"
    and P: "is_plan (normalise (weights D)) (normalise (weights Cp)) P"
    using cell_stage1 [OF S cols D Cp] by blast
  let ?key = "\<lambda>j. rid (rows Cp ! j)" and ?b = "normalise (weights Cp)"
  have "sum_list (map match_weight (filter (\<lambda>r. match_cps r = ?key j) (matches2 D Cp (sum_list (weights D)) P))) =
        sum_list (weights D) * (\<Sum>j' < length ?b. if ?key j' = ?key j then ?b ! j' else 0)"
    using nonzero_col_keyed_sum [OF P, of ?key "?key j" "sum_list (weights D)"] by (simp add: matches2_cps_sum)
  also have "\<dots> = sum_list (weights D) * ?b ! j"
    using sum_if_distinct_key [of ?key "length (rows Cp)" j "\<lambda>j. ?b ! j"] distinct_rid_key [OF ids] j
    by simp
  also have "\<dots> = sum_list (weights D) * weights Cp ! j / sum_list (weights Cp)"
    using j by simp
  finally show ?thesis using cell by blast
qed

text \<open>
  C30. With SCF, every entry the cell emits links a DINA, a CPS and an SCF record of the
  cell with a positive weight: the DINA and CPS ids come from a nonzero stage-1 entry and
  the SCF id from a nonzero stage-2 entry.
\<close>

theorem cell_two_stage_entries:
  assumes S: "solver_sound S"
    and cols: "set (source_cols mcps) \<subseteq> set (columns D)" "set (target_cols mcps) \<subseteq> set (columns Cp)"
      "set (source_cols mscf) \<subseteq> set (columns D)" "set (target_cols mscf) \<subseteq> set (columns F)"
    and D: "weights_ok D" and Cp: "weights_ok Cp" and F: "weights_ok F"
  shows "\<exists>t. transport_cell S mcps mscf D Cp (Some F) = Inr (map Some t) \<and>
     (\<forall>x \<in> set t. \<exists>d c s w. x = Match3 d c s w \<and> d \<in> rid ` set (rows D) \<and> c \<in> rid ` set (rows Cp) \<and>
                             s \<in> rid ` set (rows F) \<and> 0 < w)"
proof -
  let ?c = "sum_list (weights D)"
  obtain P P2 where cell: "transport_cell S mcps mscf D Cp (Some F) =
      Inr (map Some (matches3 (inter_frame mscf (map Some (inter_rows D Cp ?c P))) F ?c P2))"
    and P: "is_plan (normalise (weights D)) (normalise (weights Cp)) P"
    and P2: "is_plan (normalise (weights (inter_frame mscf (map Some (inter_rows D Cp ?c P))))) (normalise (weights F)) P2"
    using cell_stage2 [OF S cols D Cp F] by blast
  have c: "0 < ?c" using D by (simp add: weights_ok_def)
  have "\<exists>d c s w. x = Match3 d c s w \<and> d \<in> rid ` set (rows D) \<and> c \<in> rid ` set (rows Cp) \<and>
                  s \<in> rid ` set (rows F) \<and> 0 < w"
    if x: "x \<in> set (matches3 (inter_frame mscf (map Some (inter_rows D Cp ?c P))) F ?c P2)"
    for x :: "('a, 'b, 'c) match"
  proof -
    from x obtain k j where kj: "(k, j) \<in> set (nonzero P2)"
      and xe: "x = Match3 (fst (rid (inter_rows D Cp ?c P ! k))) (snd (rid (inter_rows D Cp ?c P ! k)))
                          (rid (rows F ! j)) (?c * P2 ! k ! j)"
      by (auto simp: matches3_def)
    from kj P2 have k: "k < length (nonzero P)" and j: "j < length (rows F)" and nz: "P2 ! k ! j \<noteq> 0"
      by (auto simp: set_nonzero is_plan_def weights_def)
    obtain i i2 where ii: "nonzero P ! k = (i, i2)" by (cases "nonzero P ! k")
    with k have "(i, i2) \<in> set (nonzero P)" by (metis nth_mem)
    with P have i: "i < length (rows D)" and i2: "i2 < length (rows Cp)"
      by (auto simp: set_nonzero is_plan_def)
    have r: "rid (inter_rows D Cp ?c P ! k) = (rid (rows D ! i), rid (rows Cp ! i2))"
      using k ii by (simp add: inter_rows_def)
    have "0 < P2 ! k ! j" using plan_entry_nonneg [OF P2 kj] nz by simp
    with c have "0 < ?c * P2 ! k ! j" by simp
    with xe r i i2 j show ?thesis by (auto intro: nth_mem)
  qed
  with cell show ?thesis by blast
qed

text \<open>
  C31. With SCF, the final matches that carry an SCF record's id add up to that record's
  weight scaled by the ratio of the cell's DINA mass to its SCF mass (SCF ids distinct in
  the cell): stage 2 respects the SCF marginal on the chained mass scale, which is the
  DINA mass.
\<close>

theorem cell_two_stage_scf_marginal:
  assumes S: "solver_sound S"
    and cols: "set (source_cols mcps) \<subseteq> set (columns D)" "set (target_cols mcps) \<subseteq> set (columns Cp)"
      "set (source_cols mscf) \<subseteq> set (columns D)" "set (target_cols mscf) \<subseteq> set (columns F)"
    and D: "weights_ok D" and Cp: "weights_ok Cp" and F: "weights_ok F"
    and ids: "distinct (map rid (rows F))" and j: "j < length (rows F)"
  shows "\<exists>t. transport_cell S mcps mscf D Cp (Some F) = Inr (map Some t) \<and>
             sum_list (map match_weight (filter (\<lambda>r. match_scf r = Some (rid (rows F ! j))) t)) =
             sum_list (weights D) * weights F ! j / sum_list (weights F)"
proof -
  let ?c = "sum_list (weights D)"
  obtain P P2 where cell: "transport_cell S mcps mscf D Cp (Some F) =
      Inr (map Some (matches3 (inter_frame mscf (map Some (inter_rows D Cp ?c P))) F ?c P2))"
    and P2: "is_plan (normalise (weights (inter_frame mscf (map Some (inter_rows D Cp ?c P))))) (normalise (weights F)) P2"
    using cell_stage2 [OF S cols D Cp F] by blast
  let ?key = "\<lambda>j. rid (rows F ! j)" and ?b = "normalise (weights F)"
  have "sum_list (map match_weight (filter (\<lambda>r. match_scf r = Some (?key j))
          (matches3 (inter_frame mscf (map Some (inter_rows D Cp ?c P))) F ?c P2))) =
        ?c * (\<Sum>j' < length ?b. if ?key j' = ?key j then ?b ! j' else 0)"
    using nonzero_col_keyed_sum [OF P2, of ?key "?key j" ?c] by (simp add: matches3_scf_sum)
  also have "\<dots> = ?c * ?b ! j"
    using sum_if_distinct_key [of ?key "length (rows F)" j "\<lambda>j. ?b ! j"] distinct_rid_key [OF ids] j
    by simp
  also have "\<dots> = ?c * weights F ! j / sum_list (weights F)"
    using j by simp
  finally show ?thesis using cell by blast
qed

subsection \<open>Errors of a cell\<close>


end
