(* ===== verification/Run.thy ===== *)
theory Run
  imports Chain
begin

text \<open>
  The driver of \<open>src/transport/transport.py\<close> (lines 59--79 and 179--183): each dataset is
  grouped by the cell fields; the loop runs over the DINA cells in key order, looks the
  same key up in the CPS groups (and the SCF groups when an SCF file is configured),
  runs the per-cell transport of \<open>Chain\<close> on the three subsets and appends the cell's
  table; at the end the tables are concatenated (\<open>pd.concat\<close>, which raises
  \<open>ValueError\<close> on an empty list). Writing the CSV is I/O and not modelled.
\<close>

text \<open>The SCF subset of a cell: none without SCF, \<open>KeyError\<close> if the cell is absent.\<close>

definition scf_subset :: "('c frame \<times> (cell_key \<times> nat list) list) option \<Rightarrow> cell_key \<Rightarrow>
                          error + 'c frame option" where
  "scf_subset sg k =
     (case sg of
        None \<Rightarrow> Inr None
      | Some (F, gF) \<Rightarrow> (case lookup_group gF k of Inl e \<Rightarrow> Inl e | Inr idx \<Rightarrow> Inr (Some (iloc F idx))))"

text \<open>The loop \<open>for group in dina_groups\<close> (lines 68--79).\<close>

fun run_cells :: "solver \<Rightarrow> correspondence \<Rightarrow> correspondence \<Rightarrow> 'a frame \<Rightarrow> 'b frame \<Rightarrow>
                  (cell_key \<times> nat list) list \<Rightarrow> ('c frame \<times> (cell_key \<times> nat list) list) option \<Rightarrow>
                  (cell_key \<times> nat list) list \<Rightarrow> error + ('a, 'b, 'c) match option list list" where
  "run_cells S mc ms D Cp gC sg [] = Inr []"
| "run_cells S mc ms D Cp gC sg ((k, idx) # gs) =
     (case lookup_group gC k of
        Inl e \<Rightarrow> Inl e
      | Inr cidx \<Rightarrow>
          (case scf_subset sg k of
             Inl e \<Rightarrow> Inl e
           | Inr Sub \<Rightarrow>
               (case transport_cell S mc ms (iloc D idx) (iloc Cp cidx) Sub of
                  Inl e \<Rightarrow> Inl e
                | Inr t \<Rightarrow>
                    (case run_cells S mc ms D Cp gC sg gs of
                       Inl e \<Rightarrow> Inl e
                     | Inr ts \<Rightarrow> Inr (t # ts)))))"

text \<open>\<open>pd.concat(matches)\<close>.\<close>

definition concat_tables :: "'r option list list \<Rightarrow> error + 'r option list" where
  "concat_tables ts = (if ts = [] then Inl ValueErrorConcat else Inr (concat ts))"

text \<open>The whole matching run (lines 59--183): grouping, the cell loop, concatenation.\<close>

definition run_match :: "solver \<Rightarrow> string list \<Rightarrow> correspondence \<Rightarrow> correspondence \<Rightarrow>
                         'a frame \<Rightarrow> 'b frame \<Rightarrow> 'c frame option \<Rightarrow>
                         error + ('a, 'b, 'c) match option list" where
  "run_match S cells mc ms D Cp Sc =
     (case groupby cells D of
        Inl e \<Rightarrow> Inl e
      | Inr gD \<Rightarrow>
          (case groupby cells Cp of
             Inl e \<Rightarrow> Inl e
           | Inr gC \<Rightarrow>
               (case (case Sc of
                        None \<Rightarrow> Inr None
                      | Some F \<Rightarrow> (case groupby cells F of Inl e \<Rightarrow> Inl e | Inr gF \<Rightarrow> Inr (Some (F, gF)))) of
                  Inl e \<Rightarrow> Inl e
                | Inr sg \<Rightarrow>
                    (case run_cells S mc ms D Cp gC sg gD of
                       Inl e \<Rightarrow> Inl e
                     | Inr ts \<Rightarrow> concat_tables ts))))"

text \<open>
  What the script needs of a dataset for every cell to have a positive mass: a weight
  column and positive weights.
\<close>

definition positive_weights :: "'a frame \<Rightarrow> bool" where
  "positive_weights F \<longleftrightarrow> ''weight'' \<in> set (columns F) \<and> (\<forall>r \<in> set (rows F). 0 < vals r ''weight'')"

text \<open>
  Two views of a table, used to state what the run preserves: \<open>match_mass None\<close>
  weighs every match, \<open>match_mass (Some d)\<close> only the matches of DINA id \<open>d\<close>;
  \<open>row_mass D\<close> weighs the DINA rows the same way.
\<close>

definition match_mass :: "'a option \<Rightarrow> ('a, 'b, 'c) match \<Rightarrow> real" where
  "match_mass d m = (case d of None \<Rightarrow> match_weight m | Some x \<Rightarrow> if match_dina m = x then match_weight m else 0)"

definition row_mass :: "'a frame \<Rightarrow> 'a option \<Rightarrow> nat \<Rightarrow> real" where
  "row_mass D d i = (case d of None \<Rightarrow> weights D ! i | Some x \<Rightarrow> if rid (rows D ! i) = x then weights D ! i else 0)"

lemma match_mass_simps [simp]:
  "match_mass None = match_weight"
  "match_mass (Some x) = (\<lambda>m. if match_dina m = x then match_weight m else 0)"
  by (simp_all add: match_mass_def fun_eq_iff)

lemma row_mass_simps [simp]:
  "row_mass D None = (\<lambda>i. weights D ! i)"
  "row_mass D (Some x) = (\<lambda>i. if rid (rows D ! i) = x then weights D ! i else 0)"
  by (simp_all add: row_mass_def fun_eq_iff)

subsection \<open>A cell missing from CPS stops the run\<close>

lemma group_indices_key:
  "k \<in> set ks \<Longrightarrow> \<exists>idx. (k, idx) \<in> set (group_indices ks)"
  by (auto simp: group_indices_def)

lemma groupby_ok:
  "set cs \<subseteq> set (columns df) \<Longrightarrow> groupby cs df = Inr (group_indices (map (cell_key cs) (rows df)))"
  by (simp add: groupby_def)

text \<open>The loop stops with an error at a cell whose CPS or SCF subset cannot be taken.\<close>

lemma run_cells_stops:
  assumes "(k, idx) \<in> set gs"
    and "\<forall>cidx Sub. lookup_group gC k = Inr cidx \<longrightarrow> scf_subset sg k \<noteq> Inr Sub"
  shows "\<exists>e. run_cells S mc ms D Cp gC sg gs = Inl e"
  using assms(1)
proof (induction gs)
  case (Cons g gs)
  obtain k' idx' where g: "g = (k', idx')" by (cases g)
  show ?case
  proof (cases "g = (k, idx)")
    case True
    with assms(2) g show ?thesis by (auto split: sum.splits)
  next
    case False
    with Cons.prems have "(k, idx) \<in> set gs" by simp
    with Cons.IH obtain e where "run_cells S mc ms D Cp gC sg gs = Inl e" by blast
    then show ?thesis by (simp add: g split: sum.splits)
  qed
qed simp

lemma run_cells_missing:
  assumes "(k, idx) \<in> set gs" and "map_of gC k = None"
  shows "\<exists>e. run_cells S mc ms D Cp gC sg gs = Inl e"
  using assms by (intro run_cells_stops) (auto simp: lookup_group_def)

text \<open>
  C6. A DINA cell that has no CPS record makes the whole run fail: \<open>cps_groups[group]\<close>
  raises \<open>KeyError\<close> and no table is produced. The spec (CellAlignmentGap) asks for
  such a cell to be skipped with zero matches; the code does not.
\<close>

theorem run_match_gap:
  assumes "set cells \<subseteq> set (columns D)" "set cells \<subseteq> set (columns Cp)"
    and "r \<in> set (rows D)" and "cell_key cells r \<notin> set (map (cell_key cells) (rows Cp))"
  shows "\<exists>e. run_match S cells mc ms D Cp Sc = Inl e"
proof -
  let ?gD = "group_indices (map (cell_key cells) (rows D))"
  let ?gC = "group_indices (map (cell_key cells) (rows Cp))"
  obtain idx where k: "(cell_key cells r, idx) \<in> set ?gD"
    using group_indices_key assms(3) by fastforce
  have none: "map_of ?gC (cell_key cells r) = None"
    using assms(4) by (simp add: map_of_group_indices)
  have gap: "run_cells S mc ms D Cp ?gC sg ?gD \<noteq> Inr ts" for sg :: "('c frame \<times> _) option" and ts
    using run_cells_missing [OF k none, of S mc ms D Cp sg] by auto
  from gap show ?thesis
    using assms(1,2) by (auto simp: run_match_def groupby_ok split: sum.splits option.splits)
qed

subsection \<open>Mass of the whole run\<close>

lemma weights_iloc:
  "\<forall>i \<in> set idx. i < length (rows D) \<Longrightarrow> weights (iloc D idx) = map (\<lambda>i. weights D ! i) idx"
  by (simp add: weights_def)

lemma weights_ok_iloc:
  assumes "positive_weights D" and "idx \<noteq> []" and "\<forall>i \<in> set idx. i < length (rows D)"
  shows "weights_ok (iloc D idx)"
proof -
  have pos: "\<forall>w \<in> set (weights (iloc D idx)). 0 < w"
    using assms by (auto simp: positive_weights_def weights_def)
  then have "0 < sum_list (weights (iloc D idx))"
    using assms(2) by (intro sum_list_pos) (simp_all add: weights_def)
  with pos assms(1) show ?thesis
    by (auto simp: weights_ok_def positive_weights_def less_imp_le)
qed

text \<open>The loop returns when every cell does, and adds up the cells' masses.\<close>

lemma run_cells_ok:
  fixes \<mu> :: "'d \<Rightarrow> ('a, 'b, 'c) match \<Rightarrow> real" and \<nu> :: "'d \<Rightarrow> nat \<Rightarrow> real"
  assumes "\<forall>(k, idx) \<in> set gs. \<exists>cidx Sub t. lookup_group gC k = Inr cidx \<and> scf_subset sg k = Inr Sub \<and>
             transport_cell S mc ms (iloc D idx) (iloc Cp cidx) Sub = Inr (map Some t) \<and>
             (\<forall>d. sum_list (map (\<mu> d) t) = sum_list (map (\<nu> d) idx))"
  shows "\<exists>ts. run_cells S mc ms D Cp gC sg gs = Inr (map (map Some) ts) \<and> length ts = length gs \<and>
             (\<forall>d. sum_list (map (\<mu> d) (concat ts)) =
                  sum_list (map (\<lambda>(k, idx). sum_list (map (\<nu> d) idx)) gs))"
  using assms
proof (induction gs)
  case Nil
  then show ?case by simp
next
  case (Cons g gs)
  obtain k idx where g: "g = (k, idx)" by (cases g)
  from Cons.prems g obtain cidx Sub t where
    c: "lookup_group gC k = Inr cidx" "scf_subset sg k = Inr Sub"
      "transport_cell S mc ms (iloc D idx) (iloc Cp cidx) Sub = Inr (map Some t)"
      "\<forall>d. sum_list (map (\<mu> d) t) = sum_list (map (\<nu> d) idx)"
    by auto
  from Cons obtain ts where "run_cells S mc ms D Cp gC sg gs = Inr (map (map Some) ts)"
    "length ts = length gs"
    "\<forall>d. sum_list (map (\<mu> d) (concat ts)) = sum_list (map (\<lambda>(k, idx). sum_list (map (\<nu> d) idx)) gs)"
    by auto
  with c g show ?case by (intro exI [of _ "t # ts"]) simp
qed

text \<open>The cells partition the DINA rows, so their masses add up to the DINA mass.\<close>

lemma groups_mass:
  fixes f :: "nat \<Rightarrow> real"
  shows "sum_list (map (\<lambda>(k, idx). sum_list (map f idx)) (group_indices ks)) =
   sum_list (map f [0..<length ks])"
proof -
  have "sum_list (map (\<lambda>(k, idx). sum_list (map f idx)) (group_indices ks)) =
        sum_list (map f (concat (map snd (group_indices ks))))"
    by (simp add: sum_list_concat_map case_prod_unfold comp_def map_concat)
  also have "\<dots> = sum_list (map f [0..<length ks])"
    using sum_list_mset_eq [OF group_indices_partition, of f] by simp
  finally show ?thesis .
qed

lemma lookup_group_present:
  assumes "k \<in> set ks"
  shows "\<exists>cidx. lookup_group (group_indices ks) k = Inr cidx \<and> cidx \<noteq> [] \<and> (\<forall>i \<in> set cidx. i < length ks)"
proof -
  let ?cidx = "filter (\<lambda>i. ks ! i = k) [0..<length ks]"
  have m: "map_of (group_indices ks) k = Some ?cidx"
    using assms by (simp add: map_of_group_indices)
  then have "(k, ?cidx) \<in> set (group_indices ks)" by (rule map_of_SomeD)
  then have "?cidx \<noteq> []" by (rule group_indices_nonempty)
  with m show ?thesis by (auto simp: lookup_group_def)
qed

lemma dina_group_ok:
  assumes "(k, idx) \<in> set (group_indices ks)"
  shows "k \<in> set ks \<and> idx \<noteq> [] \<and> (\<forall>i \<in> set idx. i < length ks)"
  using assms group_indices_nonempty [OF assms] group_indices_in_range [OF assms]
  by (auto simp: group_indices_def)

text \<open>The weight of the rows of a cell that carry DINA id \<open>d\<close>.\<close>

lemma iloc_keyed:
  assumes "\<forall>i \<in> set idx. i < length (rows D)"
  shows "(\<Sum>i' < length (rows (iloc D idx)). if rid (rows (iloc D idx) ! i') = d then weights (iloc D idx) ! i' else 0) =
         sum_list (map (\<lambda>i. if rid (rows D ! i) = d then weights D ! i else 0) idx)"
proof -
  have "(\<Sum>i' < length (rows (iloc D idx)). if rid (rows (iloc D idx) ! i') = d then weights (iloc D idx) ! i' else 0) =
        (\<Sum>i' < length idx. (\<lambda>i. if rid (rows D ! i) = d then weights D ! i else 0) (idx ! i'))"
    using assms by (intro sum.cong) (simp_all add: weights_iloc)
  also have "\<dots> = sum_list (map (\<lambda>i. if rid (rows D ! i) = d then weights D ! i else 0) idx)"
    by (rule sum_lessThan_map_nth)
  finally show ?thesis .
qed

lemma cell_single_stage_total:
  assumes S: "solver_sound S"
    and mc: "set (source_cols mc) \<subseteq> set (columns D)" "set (target_cols mc) \<subseteq> set (columns Cp)"
    and D: "positive_weights D" and Cp: "positive_weights Cp"
    and idx: "idx \<noteq> []" "\<forall>i \<in> set idx. i < length (rows D)"
    and cidx: "cidx \<noteq> []" "\<forall>i \<in> set cidx. i < length (rows Cp)"
  shows "\<exists>t. transport_cell S mc ms (iloc D idx) (iloc Cp cidx) (None :: 'c frame option) = Inr (map Some t) \<and>
             sum_list (map match_weight t) = sum_list (map (\<lambda>i. weights D ! i) idx) \<and>
             (\<forall>d. sum_list (map (\<lambda>m. if match_dina m = d then match_weight m else 0) t) =
                  sum_list (map (\<lambda>i. if rid (rows D ! i) = d then weights D ! i else 0) idx))"
proof -
  have wD: "weights_ok (iloc D idx)" by (rule weights_ok_iloc [OF D idx])
  have wC: "weights_ok (iloc Cp cidx)" by (rule weights_ok_iloc [OF Cp cidx])
  obtain P where cell: "transport_cell S mc ms (iloc D idx) (iloc Cp cidx) (None :: 'c frame option) =
      Inr (map Some (matches2 (iloc D idx) (iloc Cp cidx) (sum_list (weights (iloc D idx))) P))"
    and P: "is_plan (normalise (weights (iloc D idx))) (normalise (weights (iloc Cp cidx))) P"
  proof -
    have "set (source_cols mc) \<subseteq> set (columns (iloc D idx))"
      "set (target_cols mc) \<subseteq> set (columns (iloc Cp cidx))"
      using mc by simp_all
    from cell_stage1 [OF S this wD wC, of ms] show thesis using that by blast
  qed
  have "sum_list (map match_weight (matches2 (iloc D idx) (iloc Cp cidx) (sum_list (weights (iloc D idx))) P)) =
        sum_list (map (\<lambda>i. weights D ! i) idx)"
    using matches2_total [OF P] marginal_normalise_weights [OF wD] weights_iloc [OF idx(2)] by simp
  moreover have "sum_list (map (\<lambda>m. if match_dina m = d then match_weight m else 0)
                   (matches2 (iloc D idx) (iloc Cp cidx) (sum_list (weights (iloc D idx))) P)) =
                 sum_list (map (\<lambda>i. if rid (rows D ! i) = d then weights D ! i else 0) idx)" for d
    using stage1_keyed [OF P wD, of d "iloc Cp cidx", unfolded sum_list_map_filter_eq] iloc_keyed [OF idx(2), of d]
    by simp
  ultimately show ?thesis using cell by blast
qed

text \<open>
  The run returns one table whose weights add up to the DINA mass when every DINA cell
  finds its CPS (and SCF) subset and conserves its own mass.
\<close>

lemma run_match_total:
  fixes Sc :: "'c frame option"
  assumes cells: "set cells \<subseteq> set (columns D)" "set cells \<subseteq> set (columns Cp)"
    and sc: "\<forall>F. Sc = Some F \<longrightarrow> set cells \<subseteq> set (columns F)"
    and ne: "rows D \<noteq> []"
    and cell: "\<forall>(k, idx) \<in> set (group_indices (map (cell_key cells) (rows D))).
       \<exists>cidx Sub t. lookup_group (group_indices (map (cell_key cells) (rows Cp))) k = Inr cidx \<and>
         scf_subset (map_option (\<lambda>F. (F, group_indices (map (cell_key cells) (rows F)))) Sc) k = Inr Sub \<and>
         transport_cell S mc ms (iloc D idx) (iloc Cp cidx) Sub = Inr (map Some t) \<and>
         (\<forall>d. sum_list (map (match_mass d) t) = sum_list (map (row_mass D d) idx))"
  shows "\<exists>t. run_match S cells mc ms D Cp Sc = Inr (map Some t) \<and>
             (\<forall>d. sum_list (map (match_mass d) t) = sum_list (map (row_mass D d) [0..<length (rows D)]))"
proof -
  let ?kD = "map (cell_key cells) (rows D)"
  let ?gD = "group_indices ?kD" and ?gC = "group_indices (map (cell_key cells) (rows Cp))"
  let ?sg = "map_option (\<lambda>F. (F, group_indices (map (cell_key cells) (rows F)))) Sc"
  obtain ts where run: "run_cells S mc ms D Cp ?gC ?sg ?gD = Inr (map (map Some) ts)"
    and len: "length ts = length ?gD"
    and sum: "\<forall>d. sum_list (map (match_mass d) (concat ts)) =
              sum_list (map (\<lambda>(k, idx). sum_list (map (row_mass D d) idx)) ?gD)"
    using run_cells_ok [OF cell] by blast
  have "?gD \<noteq> []"
  proof
    assume "?gD = []"
    then have "sort (remdups ?kD) = []" by (metis list.map(1) map_fst_group_indices)
    then have "set ?kD = {}" by (metis set_empty set_remdups set_sort)
    with ne show False by simp
  qed
  with len have ts: "ts \<noteq> []" by auto
  have total: "sum_list (map (\<lambda>(k, idx). sum_list (map (row_mass D d) idx)) ?gD) =
               sum_list (map (row_mass D d) [0..<length (rows D)])" for d
    using groups_mass [of "row_mass D d" ?kD] by simp
  have sg: "(case Sc of None \<Rightarrow> Inr None
             | Some F \<Rightarrow> (case groupby cells F of Inl e \<Rightarrow> Inl e | Inr gF \<Rightarrow> Inr (Some (F, gF)))) =
            (Inr ?sg :: error + _)"
    using sc by (cases Sc) (simp_all add: groupby_ok)
  have "run_match S cells mc ms D Cp Sc = Inr (map Some (concat ts))"
    unfolding run_match_def groupby_ok [OF cells(1)] groupby_ok [OF cells(2)] sg
    using run ts by (simp add: concat_tables_def map_concat)
  with sum total show ?thesis by (intro exI [of _ "concat ts"]) simp
qed

lemma cell_two_stage_total:
  assumes S: "solver_sound S"
    and mc: "set (source_cols mc) \<subseteq> set (columns D)" "set (target_cols mc) \<subseteq> set (columns Cp)"
    and ms: "set (source_cols ms) \<subseteq> set (columns D)" "set (target_cols ms) \<subseteq> set (columns F)"
    and D: "positive_weights D" and Cp: "positive_weights Cp" and F: "positive_weights F"
    and idx: "idx \<noteq> []" "\<forall>i \<in> set idx. i < length (rows D)"
    and cidx: "cidx \<noteq> []" "\<forall>i \<in> set cidx. i < length (rows Cp)"
    and sidx: "sidx \<noteq> []" "\<forall>i \<in> set sidx. i < length (rows F)"
  shows "\<exists>t. transport_cell S mc ms (iloc D idx) (iloc Cp cidx) (Some (iloc F sidx)) = Inr (map Some t) \<and>
             sum_list (map match_weight t) = sum_list (map (\<lambda>i. weights D ! i) idx) \<and>
             (\<forall>d. sum_list (map (\<lambda>m. if match_dina m = d then match_weight m else 0) t) =
                  sum_list (map (\<lambda>i. if rid (rows D ! i) = d then weights D ! i else 0) idx))"
proof -
  have wD: "weights_ok (iloc D idx)" by (rule weights_ok_iloc [OF D idx])
  have wC: "weights_ok (iloc Cp cidx)" by (rule weights_ok_iloc [OF Cp cidx])
  have wF: "weights_ok (iloc F sidx)" by (rule weights_ok_iloc [OF F sidx])
  have cols: "set (source_cols mc) \<subseteq> set (columns (iloc D idx))"
    "set (target_cols mc) \<subseteq> set (columns (iloc Cp cidx))"
    "set (source_cols ms) \<subseteq> set (columns (iloc D idx))"
    "set (target_cols ms) \<subseteq> set (columns (iloc F sidx))"
    using mc ms by simp_all
  obtain P P2 where cell: "transport_cell S mc ms (iloc D idx) (iloc Cp cidx) (Some (iloc F sidx)) =
      Inr (map Some (matches3 (inter_frame ms (map Some (inter_rows (iloc D idx) (iloc Cp cidx)
              (sum_list (weights (iloc D idx))) P))) (iloc F sidx) (sum_list (weights (iloc D idx))) P2))"
    and P: "is_plan (normalise (weights (iloc D idx))) (normalise (weights (iloc Cp cidx))) P"
    and P2: "is_plan (normalise (weights (inter_frame ms (map Some (inter_rows (iloc D idx) (iloc Cp cidx)
              (sum_list (weights (iloc D idx))) P))))) (normalise (weights (iloc F sidx))) P2"
    using cell_stage2 [OF S cols wD wC wF] by blast
  have "sum_list (map (\<lambda>m. if match_dina m = d then match_weight m else 0)
          (matches3 (inter_frame ms (map Some (inter_rows (iloc D idx) (iloc Cp cidx)
              (sum_list (weights (iloc D idx))) P))) (iloc F sidx) (sum_list (weights (iloc D idx))) P2)) =
        sum_list (map (\<lambda>i. if rid (rows D ! i) = d then weights D ! i else 0) idx)" for d
    using stage2_keyed [OF wD P P2, of d, unfolded sum_list_map_filter_eq] iloc_keyed [OF idx(2), of d]
    by simp
  with cell stage2_total [OF wD P P2] weights_iloc [OF idx(2)] show ?thesis by auto
qed

lemma cell_measures:
  assumes "sum_list (map match_weight t) = sum_list (map (\<lambda>i. weights D ! i) idx)"
    and "\<forall>x. sum_list (map (\<lambda>m. if match_dina m = x then match_weight m else 0) t) =
             sum_list (map (\<lambda>i. if rid (rows D ! i) = x then weights D ! i else 0) idx)"
  shows "\<forall>d. sum_list (map (match_mass d) t) = sum_list (map (row_mass D d) idx)"
proof
  fix d show "sum_list (map (match_mass d) t) = sum_list (map (row_mass D d) idx)"
    using assms by (cases d) (simp_all add: match_mass_def row_mass_def)
qed

text \<open>Every DINA cell finds its CPS (and SCF) subset and conserves its mass, in total
  and per DINA id, when the cell keys of DINA occur in the other frames.\<close>

lemma cells_good:
  fixes Sc :: "'c frame option"
  assumes S: "solver_sound S"
    and mc: "set (source_cols mc) \<subseteq> set (columns D)" "set (target_cols mc) \<subseteq> set (columns Cp)"
    and D: "positive_weights D" and Cp: "positive_weights Cp"
    and cover: "set (map (cell_key cells) (rows D)) \<subseteq> set (map (cell_key cells) (rows Cp))"
    and sc: "\<forall>F. Sc = Some F \<longrightarrow> set (source_cols ms) \<subseteq> set (columns D) \<and>
               set (target_cols ms) \<subseteq> set (columns F) \<and> positive_weights F \<and>
               set (map (cell_key cells) (rows D)) \<subseteq> set (map (cell_key cells) (rows F))"
  shows "\<forall>(k, idx) \<in> set (group_indices (map (cell_key cells) (rows D))).
       \<exists>cidx Sub t. lookup_group (group_indices (map (cell_key cells) (rows Cp))) k = Inr cidx \<and>
         scf_subset (map_option (\<lambda>F. (F, group_indices (map (cell_key cells) (rows F)))) Sc) k = Inr Sub \<and>
         transport_cell S mc ms (iloc D idx) (iloc Cp cidx) Sub = Inr (map Some t) \<and>
         (\<forall>d. sum_list (map (match_mass d) t) = sum_list (map (row_mass D d) idx))"
proof (clarify)
  let ?kD = "map (cell_key cells) (rows D)" and ?kC = "map (cell_key cells) (rows Cp)"
  fix k idx assume g: "(k, idx) \<in> set (group_indices ?kD)"
  then have k: "k \<in> set ?kD" and idx: "idx \<noteq> []" "\<forall>i \<in> set idx. i < length (rows D)"
    using dina_group_ok [OF g] by auto
  obtain cidx where c: "lookup_group (group_indices ?kC) k = Inr cidx" "cidx \<noteq> []"
      "\<forall>i \<in> set cidx. i < length (rows Cp)"
    using lookup_group_present [of k ?kC] k cover by auto
  show "\<exists>cidx Sub t. lookup_group (group_indices ?kC) k = Inr cidx \<and>
         scf_subset (map_option (\<lambda>F. (F, group_indices (map (cell_key cells) (rows F)))) Sc) k = Inr Sub \<and>
         transport_cell S mc ms (iloc D idx) (iloc Cp cidx) Sub = Inr (map Some t) \<and>
         (\<forall>d. sum_list (map (match_mass d) t) = sum_list (map (row_mass D d) idx))"
  proof (cases Sc)
    case None
    from cell_single_stage_total [OF S mc D Cp idx c(2,3), of ms] obtain t where
      "transport_cell S mc ms (iloc D idx) (iloc Cp cidx) (None :: 'c frame option) = Inr (map Some t)"
      "\<forall>d. sum_list (map (match_mass d) t) = sum_list (map (row_mass D d) idx)"
      using cell_measures by blast
    with c None show ?thesis by (auto simp: scf_subset_def)
  next
    case (Some F)
    with sc have ms: "set (source_cols ms) \<subseteq> set (columns D)" "set (target_cols ms) \<subseteq> set (columns F)"
      and Fw: "positive_weights F" and coverF: "set ?kD \<subseteq> set (map (cell_key cells) (rows F))" by auto
    obtain sidx where f: "lookup_group (group_indices (map (cell_key cells) (rows F))) k = Inr sidx"
        "sidx \<noteq> []" "\<forall>i \<in> set sidx. i < length (rows F)"
      using lookup_group_present [of k "map (cell_key cells) (rows F)"] k coverF by auto
    from cell_two_stage_total [OF S mc ms D Cp Fw idx c(2,3) f(2,3)] obtain t where
      "transport_cell S mc ms (iloc D idx) (iloc Cp cidx) (Some (iloc F sidx)) = Inr (map Some t)"
      "\<forall>d. sum_list (map (match_mass d) t) = sum_list (map (row_mass D d) idx)"
      using cell_measures by blast
    with c f Some show ?thesis by (auto simp: scf_subset_def)
  qed
qed

text \<open>
  C5. A single-stage run (no SCF file) in which every DINA cell also occurs in CPS and
  all weights are positive returns one table without NaN slots whose weights add up to
  the total DINA weight: the cells partition the DINA rows and each cell conserves its
  mass.
\<close>

theorem run_single_stage_mass:
  assumes S: "solver_sound S"
    and cells: "set cells \<subseteq> set (columns D)" "set cells \<subseteq> set (columns Cp)"
    and mc: "set (source_cols mc) \<subseteq> set (columns D)" "set (target_cols mc) \<subseteq> set (columns Cp)"
    and D: "positive_weights D" and Cp: "positive_weights Cp"
    and cover: "set (map (cell_key cells) (rows D)) \<subseteq> set (map (cell_key cells) (rows Cp))"
    and ne: "rows D \<noteq> []"
  shows "\<exists>t. run_match S cells mc ms D Cp (None :: 'c frame option) = Inr (map Some t) \<and>
             sum_list (map match_weight t) = sum_list (weights D)"
proof -
  from run_match_total [OF cells _ ne cells_good [OF S mc D Cp cover, of "None :: 'c frame option" ms]]
  obtain t where run: "run_match S cells mc ms D Cp (None :: 'c frame option) = Inr (map Some t)"
    and m: "\<forall>d. sum_list (map (match_mass d) t) = sum_list (map (row_mass D d) [0..<length (rows D)])"
    by blast
  from run m [rule_format, of None] sum_list_upt_nth [of "weights D"] show ?thesis by auto
qed

text \<open>
  C7. A DINA file with no rows makes the run fail with \<open>ValueError\<close>: there is no
  cell, the list of tables is empty, and \<open>pd.concat([])\<close> raises.
\<close>

theorem run_empty_dina:
  assumes "set cells \<subseteq> set (columns D)" "set cells \<subseteq> set (columns Cp)"
    and "\<forall>F. Sc = Some F \<longrightarrow> set cells \<subseteq> set (columns F)"
    and "rows D = []"
  shows "run_match S cells mc ms D Cp Sc = Inl ValueErrorConcat"
  using assms
  by (cases Sc) (simp_all add: run_match_def groupby_ok group_indices_def concat_tables_def)

text \<open>
  C22. A two-stage run (SCF file configured) in which every DINA cell occurs in CPS and
  in SCF, the declared variables are columns and all weights are positive returns one
  table without NaN slots whose weights add up to the total DINA weight: chaining the
  second transport neither creates nor loses mass.
\<close>

theorem run_two_stage_mass:
  assumes S: "solver_sound S"
    and cells: "set cells \<subseteq> set (columns D)" "set cells \<subseteq> set (columns Cp)" "set cells \<subseteq> set (columns F)"
    and mc: "set (source_cols mc) \<subseteq> set (columns D)" "set (target_cols mc) \<subseteq> set (columns Cp)"
    and ms: "set (source_cols ms) \<subseteq> set (columns D)" "set (target_cols ms) \<subseteq> set (columns F)"
    and D: "positive_weights D" and Cp: "positive_weights Cp" and Fw: "positive_weights F"
    and cover: "set (map (cell_key cells) (rows D)) \<subseteq> set (map (cell_key cells) (rows Cp))"
      "set (map (cell_key cells) (rows D)) \<subseteq> set (map (cell_key cells) (rows F))"
    and ne: "rows D \<noteq> []"
  shows "\<exists>t. run_match S cells mc ms D Cp (Some F) = Inr (map Some t) \<and>
             sum_list (map match_weight t) = sum_list (weights D)"
proof -
  have sc: "\<forall>F'. Some F = Some F' \<longrightarrow> set (source_cols ms) \<subseteq> set (columns D) \<and>
      set (target_cols ms) \<subseteq> set (columns F') \<and> positive_weights F' \<and>
      set (map (cell_key cells) (rows D)) \<subseteq> set (map (cell_key cells) (rows F'))"
    using ms Fw cover(2) by blast
  from run_match_total [OF cells(1,2) _ ne cells_good [OF S mc D Cp cover(1) sc]] cells(3)
  obtain t where run: "run_match S cells mc ms D Cp (Some F) = Inr (map Some t)"
    and m: "\<forall>d. sum_list (map (match_mass d) t) = sum_list (map (row_mass D d) [0..<length (rows D)])"
    by blast
  from run m [rule_format, of None] sum_list_upt_nth [of "weights D"] show ?thesis by auto
qed

subsection \<open>Schema errors and the SCF gap\<close>

text \<open>
  C26. A cell field missing from DINA, CPS or the configured SCF frame stops the run
  before any cell is processed, with \<open>KeyError\<close> on one of the cell fields
  (\<open>groupby(cells)\<close>); the frames are grouped in the order DINA, CPS, SCF.
\<close>

theorem run_schema_fail_fast:
  assumes "\<not> (set cells \<subseteq> set (columns D) \<and> set cells \<subseteq> set (columns Cp) \<and>
              (\<forall>F. Sc = Some F \<longrightarrow> set cells \<subseteq> set (columns F)))"
  shows "\<exists>c \<in> set cells. run_match S cells mc ms D Cp Sc = Inl (KeyErrorColumn c)"
proof -
  have miss: "\<exists>c \<in> set cells. first_missing (columns X) cells = Some c"
    if "\<not> set cells \<subseteq> set (columns X)" for X :: "'x frame"
    using that first_missing_None_iff [of "columns X" cells] first_missing_Some [of "columns X" cells]
    by (cases "first_missing (columns X) cells") auto
  consider (D) "\<not> set cells \<subseteq> set (columns D)"
    | (C) "set cells \<subseteq> set (columns D)" "\<not> set cells \<subseteq> set (columns Cp)"
    | (F) F where "set cells \<subseteq> set (columns D)" "set cells \<subseteq> set (columns Cp)" "Sc = Some F"
        "\<not> set cells \<subseteq> set (columns F)"
    using assms by blast
  then show ?thesis
  proof cases
    case D
    with miss [OF D] show ?thesis by (auto simp: run_match_def groupby_def)
  next
    case C
    with miss [OF C(2)] show ?thesis by (auto simp: run_match_def groupby_def)
  next
    case (F F)
    with miss [OF F(4)] show ?thesis by (auto simp: run_match_def groupby_def)
  qed
qed

text \<open>
  C27. With an SCF file, a DINA cell that has no SCF record makes the whole run fail
  (\<open>scf_groups[group]\<close> raises \<open>KeyError\<close>), whether or not the cell occurs in CPS;
  the spec's CellAlignmentGap rule asks for zero matches for that cell instead.
\<close>

theorem run_match_scf_gap:
  assumes "set cells \<subseteq> set (columns D)" "set cells \<subseteq> set (columns Cp)" "set cells \<subseteq> set (columns F)"
    and "r \<in> set (rows D)" and "cell_key cells r \<notin> set (map (cell_key cells) (rows F))"
  shows "\<exists>e. run_match S cells mc ms D Cp (Some F) = Inl e"
proof -
  let ?gD = "group_indices (map (cell_key cells) (rows D))"
  let ?gC = "group_indices (map (cell_key cells) (rows Cp))"
  let ?gF = "group_indices (map (cell_key cells) (rows F))"
  obtain idx where k: "(cell_key cells r, idx) \<in> set ?gD"
    using group_indices_key assms(4) by fastforce
  have "map_of ?gF (cell_key cells r) = None"
    using assms(5) by (simp add: map_of_group_indices)
  then have "\<forall>cidx Sub. lookup_group ?gC (cell_key cells r) = Inr cidx \<longrightarrow>
               scf_subset (Some (F, ?gF)) (cell_key cells r) \<noteq> Inr Sub"
    by (simp add: scf_subset_def lookup_group_def)
  from run_cells_stops [OF k this] obtain e where
    "run_cells S mc ms D Cp ?gC (Some (F, ?gF)) ?gD = Inl e" by blast
  with assms(1-3) show ?thesis by (simp add: run_match_def groupby_ok)
qed

end
