(* ===== verification/Record_Mass.thy ===== *)
theory Record_Mass
  imports Run
begin

text \<open>
  The abstract specification of a matching run (spec sections 3 and 4.4--4.5) and the
  refinement of it by the run of \<open>Run\<close>. Abstractly, a run distributes the weight of
  every DINA record over the matches that carry its identifier: the table, seen through
  the abstraction \<open>table_mass\<close> (identifier \<open>\<mapsto>\<close> total weight of its matches), equals
  \<open>record_mass\<close> of the DINA frame (identifier \<open>\<mapsto>\<close> total weight of its records). The
  refinement holds for one and two stages, for any solver meeting the \<open>ot.emd\<close>
  contract, and needs no assumption that identifiers are distinct.
\<close>

definition table_mass :: "('a, 'b, 'c) match list \<Rightarrow> 'a \<Rightarrow> real" where
  "table_mass t d = sum_list (map (\<lambda>m. if match_dina m = d then match_weight m else 0) t)"

definition record_mass :: "'a frame \<Rightarrow> 'a \<Rightarrow> real" where
  "record_mass D d = sum_list (map (\<lambda>r. if rid r = d then vals r ''weight'' else 0) (rows D))"

lemma record_mass_upt:
  "sum_list (map (\<lambda>i. if rid (rows D ! i) = d then weights D ! i else 0) [0..<length (rows D)]) =
   record_mass D d"
proof -
  have "sum_list (map (\<lambda>i. if rid (rows D ! i) = d then weights D ! i else 0) [0..<length (rows D)]) =
        sum_list (map (\<lambda>i. (\<lambda>r. if rid r = d then vals r ''weight'' else 0) (rows D ! i)) [0..<length (rows D)])"
    by (intro arg_cong [where f = sum_list] map_cong) (simp_all add: weights_def)
  also have "\<dots> = record_mass D d"
    unfolding record_mass_def by (rule arg_cong [where f = sum_list], rule map_upt_nth_comp)
  finally show ?thesis .
qed

text \<open>
  C34. The run refines the abstract specification: when the declared columns exist,
  weights are positive, every DINA cell occurs in CPS (and, with an SCF file, in SCF) and
  DINA is not empty, the run returns a table without NaN slots in which the matches of
  every DINA identifier weigh exactly what the DINA records with that identifier weigh.
\<close>

theorem run_match_refines:
  fixes Sc :: "'c frame option"
  assumes S: "solver_sound S"
    and cells: "set cells \<subseteq> set (columns D)" "set cells \<subseteq> set (columns Cp)"
    and mc: "set (source_cols mc) \<subseteq> set (columns D)" "set (target_cols mc) \<subseteq> set (columns Cp)"
    and D: "positive_weights D" and Cp: "positive_weights Cp"
    and cover: "set (map (cell_key cells) (rows D)) \<subseteq> set (map (cell_key cells) (rows Cp))"
    and sc: "\<forall>F. Sc = Some F \<longrightarrow> set cells \<subseteq> set (columns F) \<and>
               set (source_cols ms) \<subseteq> set (columns D) \<and> set (target_cols ms) \<subseteq> set (columns F) \<and>
               positive_weights F \<and> set (map (cell_key cells) (rows D)) \<subseteq> set (map (cell_key cells) (rows F))"
    and ne: "rows D \<noteq> []"
  shows "\<exists>t. run_match S cells mc ms D Cp Sc = Inr (map Some t) \<and> table_mass t = record_mass D"
proof -
  have sc1: "\<forall>F. Sc = Some F \<longrightarrow> set cells \<subseteq> set (columns F)" using sc by blast
  have sc2: "\<forall>F. Sc = Some F \<longrightarrow> set (source_cols ms) \<subseteq> set (columns D) \<and> set (target_cols ms) \<subseteq> set (columns F) \<and>
               positive_weights F \<and> set (map (cell_key cells) (rows D)) \<subseteq> set (map (cell_key cells) (rows F))"
    using sc by blast
  obtain t where run: "run_match S cells mc ms D Cp Sc = Inr (map Some t)"
    and m: "\<forall>d. sum_list (map (match_mass d) t) = sum_list (map (row_mass D d) [0..<length (rows D)])"
    using run_match_total [OF cells sc1 ne cells_good [OF S mc D Cp cover sc2]] by blast
  have "table_mass t d = record_mass D d" for d
    using m [rule_format, of "Some d"] record_mass_upt [of D d] by (simp add: table_mass_def)
  with run show ?thesis by blast
qed

end
