(* ===== verification/Config.thy ===== *)
theory Config
  imports Cost
begin

text \<open>
  The configuration block of \<open>src/transport/transport.py\<close> (lines 12--46): the files
  read for a year (DINA and SCF files stop at 2019, SCF only from 1989 on), the output
  file, the cell fields and the two variable correspondences. Python's f-strings print
  the year in decimal; \<open>str_int\<close> models \<open>str(int)\<close>, and \<open>parse_int\<close> reads it
  back.
\<close>

definition digit_char :: "nat \<Rightarrow> char" where
  "digit_char d = char_of (48 + d)"

fun str_nat :: "nat \<Rightarrow> string" where
  "str_nat n = (if n < 10 then [digit_char n] else str_nat (n div 10) @ [digit_char (n mod 10)])"

definition str_int :: "int \<Rightarrow> string" where
  "str_int i = (if i < 0 then CHR ''-'' # str_nat (nat (- i)) else str_nat (nat i))"

text \<open>
  \<open>int(s)\<close> on a string (CPython's \<open>PyLong_FromUnicodeObject\<close> in base 10), for
  characters up to U+00FF: surrounding whitespace is stripped (\<open>str.isspace\<close>: tab to
  carriage return, the separators U+001C--U+001F, space, U+0085 and U+00A0), then an
  optional sign, then decimal digits in groups separated by single underscores; leading
  zeros are allowed. Anything else raises \<open>ValueError\<close> (here \<open>None\<close>).
\<close>

definition is_digit :: "char \<Rightarrow> bool" where
  "is_digit c = (48 \<le> (of_char c :: nat) \<and> (of_char c :: nat) < 58)"

definition py_space :: "char \<Rightarrow> bool" where
  "py_space c =
     (let n = (of_char c :: nat) in (9 \<le> n \<and> n \<le> 13) \<or> (28 \<le> n \<and> n \<le> 32) \<or> n = 133 \<or> n = 160)"

definition strip :: "string \<Rightarrow> string" where
  "strip s = rev (dropWhile py_space (rev (dropWhile py_space s)))"

fun digits_ok :: "string \<Rightarrow> bool" where
  "digits_ok [] = False"
| "digits_ok [c] = is_digit c"
| "digits_ok (c # d # cs) =
     (is_digit c \<and>
      (if d = CHR ''_'' then (case cs of [] \<Rightarrow> False | e # _ \<Rightarrow> is_digit e) \<and> digits_ok cs
       else digits_ok (d # cs)))"

fun parse_digits :: "nat \<Rightarrow> string \<Rightarrow> nat option" where
  "parse_digits acc [] = Some acc"
| "parse_digits acc (c # cs) =
     (if is_digit c then parse_digits (10 * acc + (of_char c - 48)) cs else None)"

definition parse_body :: "string \<Rightarrow> nat option" where
  "parse_body s = (if digits_ok s then parse_digits 0 (filter (\<lambda>c. c \<noteq> CHR ''_'') s) else None)"

definition parse_int :: "string \<Rightarrow> int option" where
  "parse_int s =
     (case strip s of
        [] \<Rightarrow> None
      | c # cs \<Rightarrow>
          (if c = CHR ''-'' then map_option (\<lambda>n. - int n) (parse_body cs)
           else if c = CHR ''+'' then map_option int (parse_body cs)
           else map_option int (parse_body (c # cs))))"

text \<open>Lines 16--21 and 184.\<close>

definition dina_file :: "int \<Rightarrow> string" where
  "dina_file year = ''dina/usdina'' @ str_int (min year 2019) @ ''.csv''"

definition cps_file :: "int \<Rightarrow> string" where
  "cps_file year = ''cps/cps'' @ str_int year @ ''.csv''"

definition scf_file :: "int \<Rightarrow> string option" where
  "scf_file year = (if 1989 \<le> year then Some (''scf/scf'' @ str_int (min year 2019) @ ''.csv'') else None)"

definition output_file :: "int \<Rightarrow> string" where
  "output_file year = ''match/match-'' @ str_int year @ ''.csv''"

text \<open>Lines 24--46.\<close>

definition cells :: "string list" where
  "cells = [''married'', ''old'', ''employed'']"

definition matching_cps :: correspondence where
  "matching_cps =
     [(''dina_wage'', ''cps_wage''), (''dina_pens'', ''cps_pens''), (''dina_bus'', ''cps_bus''),
      (''dina_int'', ''cps_int''), (''dina_drt'', ''cps_drt''), (''dina_gov'', ''cps_gov''),
      (''dina_ss'', ''cps_ss''), (''dina_welfr'', ''cps_welfr'')]"

definition matching_scf :: correspondence where
  "matching_scf =
     [(''dina_wage'', ''scf_wage''), (''dina_pens_ss'', ''scf_pens_ss''), (''dina_bus'', ''scf_bus''),
      (''dina_intdivrt'', ''scf_intdivrt''), (''dina_kg'', ''scf_kg''), (''dina_wfinbus'', ''scf_wfinbus''),
      (''dina_whou'', ''scf_whou''), (''dina_wdeb'', ''scf_wdeb'')]"

subsection \<open>Printing and reading years\<close>

lemma of_char_digit [simp]: "d < 10 \<Longrightarrow> of_char (digit_char d) = 48 + d"
  by (simp add: digit_char_def)

declare str_nat.simps [simp del]

lemma str_nat_nonempty [simp]: "str_nat n \<noteq> []"
  by (subst str_nat.simps) simp

lemma str_nat_digits: "c \<in> set (str_nat n) \<Longrightarrow> is_digit c"
proof (induction n rule: str_nat.induct)
  case (1 n)
  then show ?case
    by (cases "n < 10") (auto simp: str_nat.simps [of n] is_digit_def)
qed

lemma digit_not_special [simp]:
  "is_digit c \<Longrightarrow> c \<noteq> CHR ''-'' \<and> c \<noteq> CHR ''+'' \<and> c \<noteq> CHR ''_'' \<and> \<not> py_space c"
  by (auto simp: is_digit_def py_space_def)

lemma digits_ok_digits: "s \<noteq> [] \<Longrightarrow> \<forall>c \<in> set s. is_digit c \<Longrightarrow> digits_ok s"
  by (induction s rule: digits_ok.induct) auto

lemma parse_digits_append:
  "parse_digits acc (xs @ ys) = (case parse_digits acc xs of None \<Rightarrow> None | Some a \<Rightarrow> parse_digits a ys)"
  by (induction acc xs rule: parse_digits.induct) auto

lemma parse_digits_str_nat: "parse_digits 0 (str_nat n) = Some n"
proof (induction n rule: str_nat.induct)
  case (1 n)
  show ?case
  proof (cases "n < 10")
    case True
    then show ?thesis by (simp add: str_nat.simps [of n] is_digit_def)
  next
    case False
    with "1.IH" have "parse_digits 0 (str_nat (n div 10)) = Some (n div 10)" by simp
    with False show ?thesis
      by (simp add: str_nat.simps [of n] parse_digits_append is_digit_def)
  qed
qed

lemma parse_body_str_nat: "parse_body (str_nat n) = Some n"
proof -
  have d: "\<forall>c \<in> set (str_nat n). is_digit c" using str_nat_digits by blast
  then have "filter (\<lambda>c. c \<noteq> CHR ''_'') (str_nat n) = str_nat n" by (auto intro: filter_True)
  with d show ?thesis by (simp add: parse_body_def digits_ok_digits parse_digits_str_nat)
qed

lemma dropWhile_no_space: "s \<noteq> [] \<Longrightarrow> \<forall>c \<in> set s. \<not> py_space c \<Longrightarrow> dropWhile py_space (s @ t) = s @ t"
  by (cases s) simp_all

lemma strip_padded:
  assumes "\<forall>c \<in> set ws. py_space c" "\<forall>c \<in> set ws'. py_space c"
    and "s \<noteq> []" "\<forall>c \<in> set s. \<not> py_space c"
  shows "strip (ws @ s @ ws') = s"
proof -
  have "dropWhile py_space (ws @ s @ ws') = s @ ws'"
    using assms(1) dropWhile_no_space [OF assms(3,4)] by (simp add: dropWhile_append2)
  moreover have "dropWhile py_space (rev ws' @ rev s) = dropWhile py_space (rev s)"
    by (rule dropWhile_append2) (use assms(2) in auto)
  moreover have "dropWhile py_space (rev s) = rev s"
    using dropWhile_no_space [of "rev s" "[]"] assms(3,4) by simp
  ultimately show ?thesis by (simp add: strip_def)
qed

lemma str_int_no_space: "\<forall>c \<in> set (str_int i). \<not> py_space c"
proof -
  have "\<not> py_space CHR ''-''" by (simp add: py_space_def)
  then show ?thesis using str_nat_digits digit_not_special by (auto simp: str_int_def)
qed

text \<open>\<open>int()\<close> reads back the decimal printing of a year, also with surrounding
  whitespace (a trailing newline, for instance).\<close>

lemma parse_int_padded:
  assumes "\<forall>c \<in> set ws. py_space c" "\<forall>c \<in> set ws'. py_space c"
  shows "parse_int (ws @ str_int i @ ws') = Some i"
proof -
  have strip: "strip (ws @ str_int i @ ws') = str_int i"
    using strip_padded [OF assms _ str_int_no_space] by (simp add: str_int_def)
  show ?thesis
  proof (cases "i < 0")
    case True
    then show ?thesis unfolding parse_int_def strip by (simp add: str_int_def parse_body_str_nat)
  next
    case False
    obtain c cs where s: "str_nat (nat i) = c # cs" by (cases "str_nat (nat i)") auto
    have "is_digit c" using str_nat_digits [of c "nat i"] s by simp
    with False s show ?thesis
      using parse_body_str_nat [of "nat i"] unfolding parse_int_def strip by (simp add: str_int_def)
  qed
qed

lemma parse_int_str_int: "parse_int (str_int i) = Some i"
  using parse_int_padded [of "[]" "[]" i] by simp

lemma str_int_inj: "str_int i = str_int j \<Longrightarrow> i = j"
  by (metis option.inject parse_int_str_int)

lemma append_same_affixes: "xs @ u @ ys = xs @ v @ ys \<longleftrightarrow> u = v"
  by simp

subsection \<open>Files per year\<close>

text \<open>
  C9. The inputs of a year: SCF is matched exactly from 1989 on; from 2019 on the DINA
  and SCF files of 2019 are reused; two years read the same DINA file exactly when they
  agree once clamped to 2019, and always read different CPS files and write different
  output files (\<open>match/match-{year}.csv\<close> never overwrites another year's).
\<close>

theorem files_of_year:
  "(scf_file y = None \<longleftrightarrow> y < 1989) \<and>
   (2019 \<le> y \<longrightarrow> dina_file y = dina_file 2019 \<and> scf_file y = scf_file 2019) \<and>
   (dina_file y1 = dina_file y2 \<longleftrightarrow> min y1 2019 = min y2 2019) \<and>
   (cps_file y1 = cps_file y2 \<longleftrightarrow> y1 = y2) \<and>
   (output_file y1 = output_file y2 \<longleftrightarrow> y1 = y2)"
proof (intro conjI impI)
  show "scf_file y = None \<longleftrightarrow> y < 1989" by (auto simp: scf_file_def)
next
  assume "2019 \<le> y"
  then show "dina_file y = dina_file 2019" "scf_file y = scf_file 2019"
    by (simp_all add: dina_file_def scf_file_def min_def)
next
  show "dina_file y1 = dina_file y2 \<longleftrightarrow> min y1 2019 = min y2 2019"
    by (auto simp: dina_file_def dest: str_int_inj)
next
  show "cps_file y1 = cps_file y2 \<longleftrightarrow> y1 = y2"
    by (auto simp: cps_file_def dest: str_int_inj)
next
  show "output_file y1 = output_file y2 \<longleftrightarrow> y1 = y2"
    by (auto simp: output_file_def dest: str_int_inj)
qed

subsection \<open>The configured correspondences\<close>

end
