(* ===== verification/Script.thy ===== *)
theory Script
  imports Record_Mass Config
begin

text \<open>
  The module level of \<open>src/transport/transport.py\<close> as one function of the command
  line: the year is read with \<open>int(sys.argv[1])\<close> (line 13), the configured files of
  that year are read with \<open>pd.read_csv\<close> in the order DINA, CPS, SCF (lines 52--57,
  SCF only when \<open>scf_file\<close> is set), the run of \<open>Run\<close> matches them with the
  configured cell fields and correspondences, and the table is written to
  \<open>output_file year\<close> (line 184), which the model returns with the table. The CSV
  reader is the parameter \<open>read_csv\<close>, which returns a frame or the error it raised.
\<close>

definition load_scf :: "(string \<Rightarrow> error + 'i frame) \<Rightarrow> string option \<Rightarrow> error + 'i frame option" where
  "load_scf read_csv f =
     (case f of
        None \<Rightarrow> Inr None
      | Some p \<Rightarrow> (case read_csv p of Inl e \<Rightarrow> Inl e | Inr F \<Rightarrow> Inr (Some F)))"

definition transport_main :: "solver \<Rightarrow> (string \<Rightarrow> error + 'i frame) \<Rightarrow> string list \<Rightarrow>
                              error + string \<times> ('i, 'i, 'i) match option list" where
  "transport_main S read_csv argv =
     (if length argv < 2 then Inl IndexErrorArgv
      else
        (case parse_int (argv ! 1) of
           None \<Rightarrow> Inl (ValueErrorInt (argv ! 1))
         | Some year \<Rightarrow>
             (case read_csv (dina_file year) of
                Inl e \<Rightarrow> Inl e
              | Inr D \<Rightarrow>
                  (case read_csv (cps_file year) of
                     Inl e \<Rightarrow> Inl e
                   | Inr Cp \<Rightarrow>
                       (case load_scf read_csv (scf_file year) of
                          Inl e \<Rightarrow> Inl e
                        | Inr Sc \<Rightarrow>
                            (case run_match S cells matching_cps matching_scf D Cp Sc of
                               Inl e \<Rightarrow> Inl e
                             | Inr t \<Rightarrow> Inr (output_file year, t)))))))"

text \<open>
  What the run needs of the frames the reader returns (spec section 6): the cell
  fields and the declared matching variables are columns, weights are positive, and
  every DINA cell occurs in CPS and, when an SCF frame is read, in SCF.
\<close>

definition inputs_ok :: "'i frame \<Rightarrow> 'i frame \<Rightarrow> 'i frame option \<Rightarrow> bool" where
  "inputs_ok D Cp Sc \<longleftrightarrow>
     set cells \<subseteq> set (columns D) \<and> set cells \<subseteq> set (columns Cp) \<and>
     set (source_cols matching_cps) \<subseteq> set (columns D) \<and> set (target_cols matching_cps) \<subseteq> set (columns Cp) \<and>
     positive_weights D \<and> positive_weights Cp \<and>
     set (map (cell_key cells) (rows D)) \<subseteq> set (map (cell_key cells) (rows Cp)) \<and>
     (case Sc of
        None \<Rightarrow> True
      | Some F \<Rightarrow> set cells \<subseteq> set (columns F) \<and>
          set (source_cols matching_scf) \<subseteq> set (columns D) \<and> set (target_cols matching_scf) \<subseteq> set (columns F) \<and>
          positive_weights F \<and> set (map (cell_key cells) (rows D)) \<subseteq> set (map (cell_key cells) (rows F)))"

subsection \<open>Two-way and three-way tables\<close>

lemma matches_shape:
  "m \<in> set (matches2 D Cp c P) \<Longrightarrow> match_scf m = None"
  "m \<in> set (matches3 DC F c P) \<Longrightarrow> \<exists>s. match_scf m = Some s"
  by (auto simp: matches2_def matches3_def)

lemma transport_cell_shape:
  assumes "transport_cell S mc ms D Cp Sub = Inr t" "Some m \<in> set t"
  shows "match_scf m = None \<longleftrightarrow> Sub = None"
proof (cases Sub)
  case None
  with assms show ?thesis
    by (auto simp: transport_cell_def match_table_match2 matches_shape split: sum.splits)
next
  case (Some F)
  with assms show ?thesis
    by (auto simp: transport_cell_def match_table_match3 matches_shape Let_def split: sum.splits)
qed

lemma scf_subset_shape: "scf_subset sg k = Inr Sub \<Longrightarrow> Sub = None \<longleftrightarrow> sg = None"
  by (auto simp: scf_subset_def split: option.splits sum.splits)

lemma run_cells_shape:
  "run_cells S mc ms D Cp gC sg gs = Inr ts \<Longrightarrow> t \<in> set ts \<Longrightarrow> Some m \<in> set t \<Longrightarrow>
   match_scf m = None \<longleftrightarrow> sg = None"
proof (induction gs arbitrary: ts)
  case (Cons g gs)
  obtain k idx where g: "g = (k, idx)" by fastforce
  from Cons.prems g show ?case
    using Cons.IH transport_cell_shape scf_subset_shape
    by (auto split: sum.splits) blast+
qed simp

lemma run_match_shape:
  assumes "run_match S cells mc ms D Cp Sc = Inr t" "Some m \<in> set t"
  shows "match_scf m = None \<longleftrightarrow> Sc = None"
proof -
  obtain gD gC sg ts where
    sg: "(case Sc of None \<Rightarrow> Inr None
          | Some F \<Rightarrow> (case groupby cells F of Inl e \<Rightarrow> Inl e | Inr gF \<Rightarrow> Inr (Some (F, gF)))) = Inr sg"
    and ts: "run_cells S mc ms D Cp gC sg gD = Inr ts" and t: "t = concat ts"
    using assms(1) by (auto simp: run_match_def concat_tables_def split: sum.splits if_splits)
  have "sg = None \<longleftrightarrow> Sc = None" using sg by (auto split: option.splits sum.splits)
  with run_cells_shape [OF ts] assms(2) t show ?thesis by auto
qed

lemma load_scf_shape: "load_scf read_csv f = Inr Sc \<Longrightarrow> Sc = None \<longleftrightarrow> f = None"
  by (auto simp: load_scf_def split: option.splits sum.splits)

text \<open>Frames meeting the loader contract make the configured run succeed, and its table
  refines the per-record specification of \<open>Record_Mass\<close>.\<close>

lemma inputs_ok_run:
  assumes S: "solver_sound S" and ok: "inputs_ok D Cp Sc" and ne: "rows D \<noteq> []"
  shows "\<exists>t. run_match S cells matching_cps matching_scf D Cp Sc = Inr (map Some t) \<and>
             table_mass t = record_mass D"
proof -
  have sc1: "\<forall>F. Sc = Some F \<longrightarrow> set cells \<subseteq> set (columns F)"
    and sc2: "\<forall>F. Sc = Some F \<longrightarrow> set (source_cols matching_scf) \<subseteq> set (columns D) \<and>
               set (target_cols matching_scf) \<subseteq> set (columns F) \<and> positive_weights F \<and>
               set (map (cell_key cells) (rows D)) \<subseteq> set (map (cell_key cells) (rows F))"
    using ok unfolding inputs_ok_def by (simp_all split: option.splits)
  from ok have c: "set cells \<subseteq> set (columns D)" "set cells \<subseteq> set (columns Cp)"
    and mc: "set (source_cols matching_cps) \<subseteq> set (columns D)" "set (target_cols matching_cps) \<subseteq> set (columns Cp)"
    and w: "positive_weights D" "positive_weights Cp"
    and cover: "set (map (cell_key cells) (rows D)) \<subseteq> set (map (cell_key cells) (rows Cp))"
    by (simp_all add: inputs_ok_def)
  obtain t where run: "run_match S cells matching_cps matching_scf D Cp Sc = Inr (map Some t)"
    and m: "\<forall>d. sum_list (map (match_mass d) t) = sum_list (map (row_mass D d) [0..<length (rows D)])"
    using run_match_total [OF c sc1 ne cells_good [OF S mc w cover sc2]] by blast
  have "table_mass t = record_mass D"
  proof
    fix d show "table_mass t d = record_mass D d"
      using m [rule_format, of "Some d"] record_mass_upt [of D d] by (simp add: table_mass_def)
  qed
  with run show ?thesis by blast
qed

subsection \<open>Properties of the script\<close>

text \<open>
  C8. The script, end to end: called with a year that \<open>int()\<close> reads, when the
  reader returns DINA, CPS and (from 1989 on) SCF frames meeting the loader contract
  and DINA is not empty, it writes \<open>match/match-{year}.csv\<close> with a table without NaN
  slots in which the matches of every DINA identifier weigh what its DINA records
  weigh; the table is two-way (DINA, CPS) exactly for the years before 1989 and
  three-way (DINA, CPS, SCF) from 1989 on.
\<close>

theorem script_output:
  fixes read_csv :: "string \<Rightarrow> error + 'i frame"
  assumes S: "solver_sound S" and y: "parse_int s = Some y"
    and rd: "read_csv (dina_file y) = Inr D" "read_csv (cps_file y) = Inr Cp"
    and sc: "load_scf read_csv (scf_file y) = Inr Sc"
    and ok: "inputs_ok D Cp Sc" and ne: "rows D \<noteq> []"
  shows "\<exists>t. transport_main S read_csv [p, s] = Inr (output_file y, map Some t) \<and>
             table_mass t = record_mass D \<and> (\<forall>m \<in> set t. match_scf m = None \<longleftrightarrow> y < 1989)"
proof -
  obtain t where run: "run_match S cells matching_cps matching_scf D Cp Sc = Inr (map Some t)"
    and mass: "table_mass t = record_mass D"
    using inputs_ok_run [OF S ok ne] by blast
  have "Sc = None \<longleftrightarrow> y < 1989"
    using load_scf_shape [OF sc] by (auto simp: scf_file_def)
  then have shape: "\<forall>m \<in> set t. match_scf m = None \<longleftrightarrow> y < 1989"
    using run_match_shape [OF run] by auto
  with y rd sc run mass show ?thesis by (simp add: transport_main_def)
qed

text \<open>
  C13. The script's failures before any matching: without an argument it raises
  \<open>IndexError\<close>, and with an argument \<open>int()\<close> rejects it raises \<open>ValueError\<close>, in
  both cases before any file is read; otherwise the files are read in the order DINA,
  CPS, SCF and the first read that fails stops the script with its error.
\<close>

theorem script_errors:
  "(length argv < 2 \<longrightarrow> transport_main S read_csv argv = Inl IndexErrorArgv) \<and>
   (parse_int s = None \<longrightarrow> transport_main S read_csv (p # s # args) = Inl (ValueErrorInt s)) \<and>
   (parse_int s = Some y \<longrightarrow> read_csv (dina_file y) = Inl e \<longrightarrow>
      transport_main S read_csv (p # s # args) = Inl e) \<and>
   (parse_int s = Some y \<longrightarrow> read_csv (dina_file y) = Inr D \<longrightarrow> read_csv (cps_file y) = Inl e \<longrightarrow>
      transport_main S read_csv (p # s # args) = Inl e) \<and>
   (parse_int s = Some y \<longrightarrow> read_csv (dina_file y) = Inr D \<longrightarrow> read_csv (cps_file y) = Inr Cp \<longrightarrow>
      scf_file y = Some f \<longrightarrow> read_csv f = Inl e \<longrightarrow> transport_main S read_csv (p # s # args) = Inl e)"
  by (simp add: transport_main_def load_scf_def)

end
