(* ===== verification/Forbes.thy ===== *)
theory Forbes
  imports Prelude "HOL-Library.Product_Lexorder"
begin

text \<open>
  The Forbes real-time billionaires scraper, \<open>src/programs/01-scrape-forbes.py\<close>:
  the month-end dates from January 2020 up to (excluding) today (lines 24--30), the
  rewrite of a Wayback Machine snapshot URL into its raw-content form (line 45), the
  retry-until-success loop around each download (lines 40--57), and the concatenation
  of the per-date tables (lines 37--60). Network access is the parameter \<open>fetch\<close>:
  \<open>fetch d k\<close> is the outcome of the \<open>k\<close>-th attempt for date \<open>d\<close>, \<open>None\<close> when it raised.
  A date is a triple \<open>(year, month, day)\<close>, ordered lexicographically as
  \<open>datetime.date\<close> orders dates (\<open>Product_Lexorder\<close>). \<open>datetime.date.today()\<close> is the
  parameter \<open>today\<close>, read once.
\<close>

type_synonym date = "int \<times> nat \<times> nat"

subsection \<open>HTTPS context (lines 15--22)\<close>

text \<open>
  The two attributes of the \<open>ssl\<close> module the script touches:
  \<open>_create_unverified_context\<close>, absent (\<open>AttributeError\<close>, here \<open>None\<close>) on a Python
  that predates certificate verification, and \<open>_create_default_https_context\<close>, the
  factory \<open>urllib\<close> uses for every HTTPS connection.
\<close>

record 'f ssl_module =
  create_unverified_context :: "'f option"
  create_default_https_context :: 'f

definition ssl_setup :: "'f ssl_module \<Rightarrow> 'f ssl_module" where
  "ssl_setup m =
     (case create_unverified_context m of
        None \<Rightarrow> m
      | Some f \<Rightarrow> m\<lparr>create_default_https_context := f\<rparr>)"

subsection \<open>Month ends (lines 24--30)\<close>

text \<open>\<open>calendar.isleap\<close>, \<open>calendar.mdays\<close> and the day count of \<open>calendar.monthrange\<close>,
  which raises \<open>IllegalMonthError\<close> (here \<open>None\<close>) outside 1..12.\<close>

definition is_leap :: "int \<Rightarrow> bool" where
  "is_leap y = (y mod 4 = 0 \<and> (y mod 100 \<noteq> 0 \<or> y mod 400 = 0))"

definition mdays :: "nat list" where
  "mdays = [0, 31, 28, 31, 30, 31, 30, 31, 31, 30, 31, 30, 31]"

definition monthrange_days :: "int \<Rightarrow> nat \<Rightarrow> nat option" where
  "monthrange_days y m =
     (if 1 \<le> m \<and> m \<le> 12 then Some (mdays ! m + (if m = 2 \<and> is_leap y then 1 else 0)) else None)"

text \<open>One pass of the inner loop: append the month's last day if it is before today.\<close>

definition month_step :: "date \<Rightarrow> int \<Rightarrow> date list \<Rightarrow> nat \<Rightarrow> date list" where
  "month_step today y dates m =
     (case monthrange_days y m of
        None \<Rightarrow> dates
      | Some last_day \<Rightarrow> (if (y, m, last_day) < today then dates @ [(y, m, last_day)] else dates))"

definition year_step :: "date \<Rightarrow> date list \<Rightarrow> int \<Rightarrow> date list" where
  "year_step today dates y = foldl (month_step today y) dates [1..<13]"

definition month_ends :: "date \<Rightarrow> date list" where
  "month_ends today = foldl (year_step today) [] [2020..fst today]"

text \<open>The reference list: every month end of the years 2020 to this year, kept if before today.\<close>

definition month_end :: "int \<Rightarrow> nat \<Rightarrow> date" where
  "month_end y m = (y, m, the (monthrange_days y m))"

definition month_ends_spec :: "date \<Rightarrow> date list" where
  "month_ends_spec today =
     filter (\<lambda>d. d < today) (concat (map (\<lambda>y. map (month_end y) [1..<13]) [2020..fst today]))"

subsection \<open>Wayback snapshot URL (line 45)\<close>

text \<open>\<open>archive_url[0:42] + "if_" + archive_url[42:len(archive_url)]\<close>; Python slices past
  the end are truncated exactly as \<open>take\<close> and \<open>drop\<close> are.\<close>

definition raw_url :: "string \<Rightarrow> string" where
  "raw_url u = take 42 u @ ''if_'' @ drop 42 u"

definition wayback_prefix :: string where
  "wayback_prefix = ''https://web.archive.org/web/''"

subsection \<open>Retry loop (lines 40--57)\<close>

text \<open>\<open>while True: try ... except: sleep(10) else: break\<close>: attempt \<open>k\<close>, and on an
  exception attempt \<open>k + 1\<close>. The loop need not end; not ending is the value \<open>None\<close>.\<close>

partial_function (option) retry :: "(nat \<Rightarrow> 'a option) \<Rightarrow> nat \<Rightarrow> 'a option" where
  "retry f k = (case f k of Some t \<Rightarrow> Some t | None \<Rightarrow> retry f (Suc k))"

text \<open>
  The availability API object of lines 33--35,
  \<open>waybackpy.WaybackMachineAvailabilityAPI(url, user_agent)\<close>: the archived URL it
  asks about and the user agent it sends.
\<close>

record wayback_api =
  api_url :: string
  api_user_agent :: string

definition user_agent :: string where
  "user_agent = ''Mozilla/5.0 (Windows NT 5.1; rv:40.0) Gecko/20100101 Firefox/40.0''"

definition forbes_url :: string where
  "forbes_url = ''https://www.forbes.com/forbesapi/person/rtb/0/position/true.json''"

definition availability_api :: wayback_api where
  "availability_api = \<lparr>api_url = forbes_url, api_user_agent = user_agent\<rparr>"

text \<open>
  One attempt, the \<open>try\<close> body (lines 41--49): ask the availability API for the
  snapshot nearest to the date (\<open>near\<close>, \<open>archive_url\<close>), rewrite its URL to the raw
  form (line 45), download it (\<open>urlopen\<close>, \<open>read().decode()\<close>), parse and flatten the
  JSON (\<open>parse\<close>: \<open>json.loads\<close>, \<open>["personList"]["personsLists"]\<close>,
  \<open>json_normalize\<close>). \<open>near api k d\<close> is the answer of the API object \<open>api\<close> at
  attempt \<open>k\<close>; the network steps depend on the attempt number; an exception in any
  step is \<open>None\<close>.
\<close>

definition attempt :: "(wayback_api \<Rightarrow> nat \<Rightarrow> date \<Rightarrow> string option) \<Rightarrow> (nat \<Rightarrow> string \<Rightarrow> string option) \<Rightarrow>
                       (string \<Rightarrow> 'r list option) \<Rightarrow> date \<Rightarrow> nat \<Rightarrow> 'r list option" where
  "attempt near urlopen parse d k =
     Option.bind (near availability_api k d) (\<lambda>archive_url. Option.bind (urlopen k (raw_url archive_url)) parse)"

subsection \<open>The scrape (lines 37--60)\<close>

text \<open>\<open>table_wayback["year"] = date[0]; table_wayback["month"] = date[1]\<close>.\<close>

definition tag :: "date \<Rightarrow> 'r list \<Rightarrow> ('r \<times> int \<times> nat) list" where
  "tag d t = map (\<lambda>r. (r, fst d, fst (snd d))) t"

fun scrape_dates :: "(date \<Rightarrow> nat \<Rightarrow> 'r list option) \<Rightarrow> date list \<Rightarrow> ('r \<times> int \<times> nat) list list option" where
  "scrape_dates fetch [] = Some []"
| "scrape_dates fetch (d # ds) =
     Option.bind (retry (fetch d) 0) (\<lambda>t. map_option (Cons (tag d t)) (scrape_dates fetch ds))"

text \<open>\<open>pd.concat(table_all)\<close>: \<open>ValueError\<close> on an empty list of tables.\<close>

definition scrape :: "(date \<Rightarrow> nat \<Rightarrow> 'r list option) \<Rightarrow> date \<Rightarrow> (error + ('r \<times> int \<times> nat) list) option" where
  "scrape fetch today =
     map_option (\<lambda>ts. if ts = [] then Inl ValueErrorConcat else Inr (concat ts))
       (scrape_dates fetch (month_ends today))"

text \<open>\<open>table_all.to_csv(sys.argv[1])\<close> (line 61): the output path is read from the
  command line only after the scrape; the model returns the path with the table.\<close>

definition scrape_main :: "(date \<Rightarrow> nat \<Rightarrow> 'r list option) \<Rightarrow> date \<Rightarrow> string list \<Rightarrow>
                           (error + string \<times> ('r \<times> int \<times> nat) list) option" where
  "scrape_main fetch today argv =
     map_option (\<lambda>r. case r of
                       Inl e \<Rightarrow> Inl e
                     | Inr t \<Rightarrow> (if length argv < 2 then Inl IndexErrorArgv else Inr (argv ! 1, t)))
       (scrape fetch today)"

subsection \<open>Month ends: the loop computes the reference list\<close>

lemma monthrange_days_Some:
  "monthrange_days y m = Some d \<longleftrightarrow> 1 \<le> m \<and> m \<le> 12 \<and> d = mdays ! m + (if m = 2 \<and> is_leap y then 1 else 0)"
  by (auto simp: monthrange_days_def)

lemma month_step_eq:
  "1 \<le> m \<Longrightarrow> m \<le> 12 \<Longrightarrow> month_step today y dates m = dates @ filter (\<lambda>d. d < today) [month_end y m]"
  by (simp add: month_step_def month_end_def monthrange_days_def)

lemma foldl_month_step:
  "\<forall>m \<in> set ms. 1 \<le> m \<and> m \<le> 12 \<Longrightarrow>
   foldl (month_step today y) dates ms = dates @ filter (\<lambda>d. d < today) (map (month_end y) ms)"
  by (induction ms arbitrary: dates) (simp_all add: month_step_eq)

lemma foldl_year_step:
  "foldl (year_step today) dates ys =
   dates @ filter (\<lambda>d. d < today) (concat (map (\<lambda>y. map (month_end y) [1..<13]) ys))"
  by (induction ys arbitrary: dates) (simp_all add: year_step_def foldl_month_step)

lemma month_ends_eq: "month_ends today = month_ends_spec today"
  by (simp add: month_ends_def month_ends_spec_def foldl_year_step)

lemma month_end_Some: "1 \<le> m \<Longrightarrow> m \<le> 12 \<Longrightarrow> monthrange_days y m = Some (snd (snd (month_end y m)))"
  by (simp add: month_end_def monthrange_days_def)

lemma set_month_ends_spec:
  "set (month_ends_spec today) =
     {(y, m, d). 2020 \<le> y \<and> monthrange_days y m = Some d \<and> (y, m, d) < today}"
proof (intro set_eqI iffI)
  fix x assume "x \<in> set (month_ends_spec today)"
  then show "x \<in> {(y, m, d). 2020 \<le> y \<and> monthrange_days y m = Some d \<and> (y, m, d) < today}"
    by (auto simp: month_ends_spec_def month_end_def monthrange_days_def)
next
  fix x assume "x \<in> {(y, m, d). 2020 \<le> y \<and> monthrange_days y m = Some d \<and> (y, m, d) < today}"
  then obtain y m d where x: "x = (y, m, d)" and y: "2020 \<le> y" and md: "monthrange_days y m = Some d"
    and lt: "(y, m, d) < today" by auto
  from lt have "y \<le> fst today" by (auto simp: less_prod_def)
  moreover from md have "m \<in> set [1..<13]" by (simp add: monthrange_days_Some)
  moreover from md have "month_end y m = (y, m, d)" by (simp add: month_end_def)
  ultimately show "x \<in> set (month_ends_spec today)"
    using x y lt by (force simp: month_ends_spec_def)
qed

lemma sorted_wrt_month_end: "sorted_wrt (<) (map (month_end y) [1..<13])"
  by (auto simp: sorted_wrt_map month_end_def less_prod_def intro: sorted_wrt_mono_rel [OF _ sorted_wrt_upt])

lemma sorted_wrt_month_ends_blocks:
  "sorted_wrt (<) ys \<Longrightarrow> sorted_wrt (<) (concat (map (\<lambda>y. map (month_end y) [1..<13]) ys))"
proof (induction ys)
  case (Cons y ys)
  have "a < b" if "a \<in> set (map (month_end y) [1..<13])"
    and "b \<in> set (concat (map (\<lambda>y. map (month_end y) [1..<13]) ys))" for a b
    using that Cons.prems by (auto simp: month_end_def less_prod_def)
  with Cons sorted_wrt_month_end [of y] show ?case by (simp add: sorted_wrt_append)
qed simp

lemma sorted_month_ends_spec: "sorted_wrt (<) (month_ends_spec today)"
  using sorted_wrt_month_ends_blocks [OF sorted_wrt_upto, of 2020 "fst today"]
  by (simp add: month_ends_spec_def sorted_wrt_filter)

lemma month_end_lower:
  "2020 \<le> y \<Longrightarrow> monthrange_days y m = Some d \<Longrightarrow> (2020, 1, 31) \<le> (y, m, d)"
  by (cases "m = 1") (auto simp: monthrange_days_Some less_eq_prod_def mdays_def)

lemma filter_blocks_before:
  "y < fst today \<Longrightarrow> filter (\<lambda>d. d < today) (map (month_end y) ms) = map (month_end y) ms"
  by (auto simp: month_end_def less_prod_def intro: filter_True)

lemma filter_blocks_current:
  assumes "monthrange_days Y M = Some L" "D \<le> L"
  shows "length (filter (\<lambda>d. d < (Y, M, D)) (map (month_end Y) [1..<13])) = M - 1"
proof -
  have M: "1 \<le> M" "M \<le> 12" using assms(1) by (auto simp: monthrange_days_Some)
  have lt: "month_end Y m < (Y, M, D) \<longleftrightarrow> m < M" for m
  proof -
    have "the (monthrange_days Y M) = L" using assms(1) by simp
    then show ?thesis using assms(2)
      by (cases "m = M") (auto simp: month_end_def less_prod_def)
  qed
  have "filter (\<lambda>d. d < (Y, M, D)) (map (month_end Y) [1..<13]) = map (month_end Y) (filter (\<lambda>m. m < M) [1..<13])"
    by (simp add: filter_map comp_def lt)
  then show ?thesis using M by (simp add: filter_upt_less min_def)
qed

subsection \<open>Retry loop: it returns the first success, or never returns\<close>

lemma retry_Some:
  assumes "retry f n = Some y"
  shows "\<exists>j \<ge> n. f j = Some y"
proof (rule retry.raw_induct [where P = "\<lambda>f n y. \<exists>j \<ge> n. f j = Some y", OF _ assms])
  fix r :: "(nat \<Rightarrow> 'a option) \<Rightarrow> nat \<Rightarrow> 'a option" and g k x
  assume IH: "\<And>g' k' x'. r g' k' = Some x' \<Longrightarrow> \<exists>j \<ge> k'. g' j = Some x'"
    and step: "(case g k of None \<Rightarrow> r g (Suc k) | Some t \<Rightarrow> Some t) = Some x"
  show "\<exists>j \<ge> k. g j = Some x"
  proof (cases "g k")
    case None
    with step IH [of g "Suc k" x] obtain j where "Suc k \<le> j" "g j = Some x" by auto
    then show ?thesis by (auto intro: Suc_leD)
  next
    case (Some t)
    with step show ?thesis by auto
  qed
qed

lemma retry_first:
  assumes "n \<le> k" "f k \<noteq> None"
  shows "retry f n = f (LEAST j. n \<le> j \<and> f j \<noteq> None)"
  using assms
proof (induction "k - n" arbitrary: n)
  case 0
  then have "(LEAST j. n \<le> j \<and> f j \<noteq> None) = n" by (auto intro: Least_equality)
  with 0 show ?case by (subst retry.simps) (auto split: option.split)
next
  case (Suc x)
  show ?case
  proof (cases "f n")
    case None
    with Suc.prems have "n < k" by (metis le_neq_implies_less)
    with Suc have IH: "retry f (Suc n) = f (LEAST j. Suc n \<le> j \<and> f j \<noteq> None)" by simp
    from None have "(\<lambda>j. n \<le> j \<and> f j \<noteq> None) = (\<lambda>j. Suc n \<le> j \<and> f j \<noteq> None)"
      by (auto simp: le_eq_less_or_eq)
    with None IH show ?thesis by (subst retry.simps) simp
  next
    case (Some t)
    then have "(LEAST j. n \<le> j \<and> f j \<noteq> None) = n" by (auto intro: Least_equality)
    with Some show ?thesis by (subst retry.simps) simp
  qed
qed

lemma retry_immediate: "f k = Some t \<Longrightarrow> retry f k = Some t"
  by (subst retry.simps) simp

lemma retry_first_0:
  "f k \<noteq> None \<Longrightarrow> retry f 0 = f (LEAST j. f j \<noteq> None)"
  using retry_first [of 0 k f] by simp

subsection \<open>The scrape\<close>

lemma scrape_dates_ok:
  "\<forall>d \<in> set ds. \<exists>k. fetch d k \<noteq> None \<Longrightarrow>
   scrape_dates fetch ds = Some (map (\<lambda>d. tag d (the (fetch d (LEAST k. fetch d k \<noteq> None)))) ds)"
proof (induction ds)
  case (Cons d ds)
  then obtain k where k: "fetch d k \<noteq> None" by auto
  then obtain t where "fetch d (LEAST k. fetch d k \<noteq> None) = Some t"
    by (metis (mono_tags, lifting) LeastI option.exhaust)
  with Cons retry_first_0 [of "fetch d" k, OF k] show ?case by simp
qed simp

lemma scrape_dates_None:
  "d \<in> set ds \<Longrightarrow> \<forall>k. fetch d k = None \<Longrightarrow> scrape_dates fetch ds = None"
proof (induction ds)
  case (Cons d' ds)
  show ?case
  proof (cases "d' = d")
    case True
    from Cons.prems have "retry (fetch d) 0 = None"
      using retry_Some [of "fetch d" 0] by (cases "retry (fetch d) 0") auto
    with True show ?thesis by simp
  next
    case False
    with Cons show ?thesis by (cases "retry (fetch d') 0") simp_all
  qed
qed simp

lemma scrape_dates_Some:
  "scrape_dates fetch ds = Some ts \<Longrightarrow>
   list_all2 (\<lambda>d t. \<exists>x. retry (fetch d) 0 = Some x \<and> t = tag d x) ds ts"
proof (induction ds arbitrary: ts)
  case (Cons d ds)
  then show ?case by (auto split: Option.bind_splits)
qed simp

lemma tagged_rows_dated:
  "list_all2 (\<lambda>d t. \<exists>x. retry (fetch d) 0 = Some x \<and> t = tag d x) ds ts \<Longrightarrow> z \<in> set (concat ts) \<Longrightarrow>
   \<exists>d' x. (fst (snd z), snd (snd z), d') \<in> set ds \<and>
          retry (fetch (fst (snd z), snd (snd z), d')) 0 = Some x \<and> fst z \<in> set x"
proof (induction rule: list_all2_induct)
  case (Cons d t ds ts)
  then show ?case by (cases d) (fastforce simp: tag_def)
qed simp

subsection \<open>HTTPS verification\<close>

text \<open>On every Python that has \<open>_create_unverified_context\<close> the setup makes it the
  default HTTPS factory, so no certificate of the archive is checked; on a legacy
  Python the module is left as it is. Running the setup twice changes nothing more.\<close>

lemma ssl_setup_unverified:
  "create_default_https_context (ssl_setup m) =
     (case create_unverified_context m of None \<Rightarrow> create_default_https_context m | Some f \<Rightarrow> f) \<and>
   create_unverified_context (ssl_setup m) = create_unverified_context m \<and>
   ssl_setup (ssl_setup m) = ssl_setup m"
  by (simp add: ssl_setup_def split: option.split)

subsection \<open>Properties of the scraper\<close>

text \<open>
  C10. The dates loop yields exactly the last days of the months from January 2020 on
  that fall strictly before today, in chronological order and without repetition.
\<close>

theorem month_ends_exact:
  "sorted_wrt (<) (month_ends today) \<and>
   set (month_ends today) = {(y, m, d). 2020 \<le> y \<and> monthrange_days y m = Some d \<and> (y, m, d) < today}"
  by (simp add: month_ends_eq sorted_month_ends_spec set_month_ends_spec)

text \<open>
  C11. On a Wayback snapshot URL (\<open>https://web.archive.org/web/\<close>, a 14-digit
  timestamp, then the archived URL) the rewrite puts \<open>if_\<close> right after the timestamp,
  which asks the archive for the raw JSON; nothing else of the URL changes.
\<close>

theorem raw_url_wayback:
  "length ts = 14 \<Longrightarrow>
   raw_url (wayback_prefix @ ts @ ''/'' @ orig) = wayback_prefix @ ts @ ''if_/'' @ orig"
  by (simp add: raw_url_def wayback_prefix_def)

text \<open>
  C12. The retry loop returns exactly when some attempt at or after the current one
  succeeds, and then with the result of the first successful attempt; when every
  attempt fails it never returns.
\<close>

theorem retry_returns_first:
  "(retry f n \<noteq> None \<longleftrightarrow> (\<exists>k \<ge> n. f k \<noteq> None)) \<and>
   retry f n = (if \<exists>k \<ge> n. f k \<noteq> None then f (LEAST j. n \<le> j \<and> f j \<noteq> None) else None)"
proof (cases "\<exists>k \<ge> n. f k \<noteq> None")
  case True
  then obtain k where k: "n \<le> k" "f k \<noteq> None" by blast
  then have "f (LEAST j. n \<le> j \<and> f j \<noteq> None) \<noteq> None"
    by (metis (mono_tags, lifting) LeastI)
  with True retry_first [of n k f, OF k] show ?thesis by simp
next
  case False
  then have "retry f n = None"
    using retry_Some [of f n] by (cases "retry f n") auto
  then show ?thesis unfolding if_not_P [OF False] using False by simp
qed

text \<open>
  C14. When every date's download eventually succeeds and there is at least one date,
  the scrape returns the concatenation, in date order, of the first successful table
  of each month end, each row tagged with the year and month of its date; with no
  date it raises \<open>ValueError\<close> from \<open>pd.concat\<close>.
\<close>

theorem scrape_ok:
  "\<forall>d \<in> set (month_ends today). \<exists>k. fetch d k \<noteq> None \<Longrightarrow>
   scrape fetch today =
     Some (if month_ends today = [] then Inl ValueErrorConcat
           else Inr (concat (map (\<lambda>d. tag d (the (fetch d (LEAST k. fetch d k \<noteq> None)))) (month_ends today))))"
  by (simp add: scrape_def scrape_dates_ok)

text \<open>
  C15. A month end whose download fails forever stalls the whole scrape: it never
  returns, and no partial table is written.
\<close>

theorem scrape_hangs:
  "d \<in> set (month_ends today) \<Longrightarrow> \<forall>k. fetch d k = None \<Longrightarrow> scrape fetch today = None"
  by (simp add: scrape_def scrape_dates_None)

lemma scrape_too_early:
  "today \<le> (2020, 1, 31) \<Longrightarrow> scrape fetch today = Some (Inl ValueErrorConcat)"
proof -
  assume early: "today \<le> (2020, 1, 31)"
  have "month_ends today = []"
  proof (rule ccontr)
    assume "month_ends today \<noteq> []"
    then obtain y m d where "(y, m, d) \<in> set (month_ends today)"
      by (metis list.set_intros(1) neq_Nil_conv prod_cases3)
    then have "2020 \<le> y" "monthrange_days y m = Some d" "(y, m, d) < today"
      by (simp_all add: month_ends_eq set_month_ends_spec)
    then have l: "(2020, 1, 31) \<le> (y, m, d)" and "(y, m, d) < (2020, 1, 31)"
      using month_end_lower early less_le_trans by blast+
    with leD [OF l] show False by blast
  qed
  then show ?thesis by (simp add: scrape_def)
qed

text \<open>
  C16. The scraper's two failures happen only after its downloads: run on or before
  31 January 2020 it has no month end and raises \<open>ValueError\<close> at \<open>pd.concat\<close>;
  run without an output path it still downloads a snapshot for every month end
  (whenever each download eventually succeeds) and only then raises \<open>IndexError\<close> at
  \<open>sys.argv[1]\<close>, losing the scraped table.
\<close>

theorem scrape_main_errors:
  "(today \<le> (2020, 1, 31) \<longrightarrow> scrape_main fetch today argv = Some (Inl ValueErrorConcat)) \<and>
   (length argv < 2 \<longrightarrow> month_ends today \<noteq> [] \<longrightarrow> (\<forall>d \<in> set (month_ends today). \<exists>k. fetch d k \<noteq> None) \<longrightarrow>
      scrape_dates fetch (month_ends today) \<noteq> None \<and> scrape_main fetch today argv = Some (Inl IndexErrorArgv))"
proof (intro conjI impI)
  assume "today \<le> (2020, 1, 31)"
  then show "scrape_main fetch today argv = Some (Inl ValueErrorConcat)"
    by (simp add: scrape_main_def scrape_too_early)
next
  assume "length argv < 2" "month_ends today \<noteq> []" "\<forall>d \<in> set (month_ends today). \<exists>k. fetch d k \<noteq> None"
  then show "scrape_dates fetch (month_ends today) \<noteq> None"
    and "scrape_main fetch today argv = Some (Inl IndexErrorArgv)"
    by (simp_all add: scrape_main_def scrape_def scrape_dates_ok)
qed

text \<open>
  C28. Run on a valid date \<open>(Y, M, D)\<close> from 2020 on, the scraper requests exactly
  one snapshot per completed month since January 2020: twelve per past year and
  \<open>M - 1\<close> in the current year (the current month's end is never before today).
\<close>

theorem month_ends_count:
  assumes "2020 \<le> Y" "monthrange_days Y M = Some L" "D \<le> L"
  shows "length (month_ends (Y, M, D)) = 12 * nat (Y - 2020) + (M - 1)"
proof -
  let ?P = "\<lambda>d. d < (Y, M, D)" and ?b = "\<lambda>y. map (month_end y) [1..<13]"
  have split: "[2020..Y] = [2020..Y - 1] @ [Y]" using assms(1) by (simp add: upto_rec2)
  have before: "length (filter ?P (concat (map ?b ys))) = 12 * length ys" if "\<forall>y \<in> set ys. y < Y" for ys
    using that by (induction ys) (simp_all add: filter_blocks_before)
  have "length (month_ends (Y, M, D)) =
        length (filter ?P (concat (map ?b [2020..Y - 1]))) + length (filter ?P (?b Y))"
    by (simp add: month_ends_eq month_ends_spec_def split)
  also have "\<dots> = 12 * nat (Y - 2020) + (M - 1)"
    using before [of "[2020..Y - 1]"] filter_blocks_current [OF assms(2,3)] by simp
  finally show ?thesis .
qed

text \<open>
  C32. Every row of a completed scrape is tagged with the year and month of a month end
  from January 2020 on that lies before today: no row carries a date the loop did not
  request, whatever the downloads returned.
\<close>

theorem scrape_rows_dated:
  "scrape fetch today = Some (Inr tbl) \<Longrightarrow>
   \<forall>(r, y, m) \<in> set tbl. \<exists>d. 2020 \<le> y \<and> monthrange_days y m = Some d \<and> (y, m, d) < today"
proof -
  assume "scrape fetch today = Some (Inr tbl)"
  then obtain ts where ts: "scrape_dates fetch (month_ends today) = Some ts" and tbl: "tbl = concat ts"
    by (auto simp: scrape_def split: if_splits)
  have "\<forall>(r, y, m) \<in> set (concat ts). \<exists>d. (y, m, d) \<in> set (month_ends today)"
    by (fastforce dest: tagged_rows_dated [OF scrape_dates_Some [OF ts]])
  then show ?thesis by (auto simp: tbl month_ends_eq set_month_ends_spec)
qed

text \<open>
  C29. Provenance of the scraped rows: every row of a completed scrape comes from a
  table parsed from the raw form (\<open>if_\<close> inserted by \<open>raw_url\<close>) of the snapshot URL
  that the availability API for the Forbes list URL returned, in some attempt, for a
  requested month end of that row's year and month.
\<close>

theorem scrape_downloads_raw:
  "scrape (attempt near urlopen parse) today = Some (Inr tbl) \<Longrightarrow>
   \<forall>(r, y, m) \<in> set tbl. \<exists>d k u body t. (y, m, d) \<in> set (month_ends today) \<and>
      near availability_api k (y, m, d) = Some u \<and> urlopen k (raw_url u) = Some body \<and> parse body = Some t \<and> r \<in> set t"
proof (clarify)
  fix r y m assume sc: "scrape (attempt near urlopen parse) today = Some (Inr tbl)" and z: "(r, y, m) \<in> set tbl"
  from sc obtain ts where ts: "scrape_dates (attempt near urlopen parse) (month_ends today) = Some ts"
    and tbl: "tbl = concat ts"
    by (auto simp: scrape_def split: if_splits)
  from tagged_rows_dated [OF scrape_dates_Some [OF ts], of "(r, y, m)"] z tbl
  obtain d x where d: "(y, m, d) \<in> set (month_ends today)"
    and x: "retry (attempt near urlopen parse (y, m, d)) 0 = Some x" and r: "r \<in> set x"
    by auto
  from retry_Some [OF x] obtain k where "attempt near urlopen parse (y, m, d) k = Some x" by blast
  then obtain u body where "near availability_api k (y, m, d) = Some u" "urlopen k (raw_url u) = Some body" "parse body = Some x"
    by (auto simp: attempt_def split: Option.bind_splits)
  with d r show "\<exists>d k u body t. (y, m, d) \<in> set (month_ends today) \<and>
      near availability_api k (y, m, d) = Some u \<and> urlopen k (raw_url u) = Some body \<and> parse body = Some t \<and> r \<in> set t"
    by blast
qed

end
