(* ===== verification/Cells.thy ===== *)
theory Cells
  imports Run
begin

text \<open>
  The run seen cell by cell (spec sections 3 and 5). \<open>run_by_cells\<close> is a reference
  for the loop of \<open>Run\<close> stated without row positions: the schema is checked, then, for
  every DINA cell key in ascending order, the cell's DINA, CPS and SCF records (taken by
  filtering on the key, \<open>cell_frame\<close>) are transported, the first error stopping the
  run, and the tables are concatenated. The loop with \<open>groups\<close>, \<open>groups[group]\<close> and
  \<open>iloc\<close> computes exactly this. A consequence is the independence of cells that the
  spec's concurrency model relies on: splitting the DINA cells between two runs and
  merging their outputs gives the same matches.
\<close>

definition cell_frame :: "string list \<Rightarrow> 'id frame \<Rightarrow> cell_key \<Rightarrow> 'id frame" where
  "cell_frame cs F k = F\<lparr>rows := filter (\<lambda>r. cell_key cs r = k) (rows F)\<rparr>"

definition cell_keys :: "string list \<Rightarrow> 'id frame \<Rightarrow> cell_key list" where
  "cell_keys cs F = sort (remdups (map (cell_key cs) (rows F)))"

definition schema_error :: "string list \<Rightarrow> 'a frame \<Rightarrow> 'b frame \<Rightarrow> 'c frame option \<Rightarrow> error option" where
  "schema_error cs D Cp Sc =
     (case first_missing (columns D) cs of
        Some c \<Rightarrow> Some (KeyErrorColumn c)
      | None \<Rightarrow>
          (case first_missing (columns Cp) cs of
             Some c \<Rightarrow> Some (KeyErrorColumn c)
           | None \<Rightarrow>
               (case Sc of
                  None \<Rightarrow> None
                | Some F \<Rightarrow> map_option KeyErrorColumn (first_missing (columns F) cs))))"

definition cell_result :: "solver \<Rightarrow> string list \<Rightarrow> correspondence \<Rightarrow> correspondence \<Rightarrow>
                           'a frame \<Rightarrow> 'b frame \<Rightarrow> 'c frame option \<Rightarrow> cell_key \<Rightarrow>
                           error + ('a, 'b, 'c) match option list" where
  "cell_result S cs mc ms D Cp Sc k =
     (if k \<notin> set (map (cell_key cs) (rows Cp)) then Inl (KeyErrorCell k)
      else
        (case Sc of
           None \<Rightarrow> transport_cell S mc ms (cell_frame cs D k) (cell_frame cs Cp k) None
         | Some F \<Rightarrow>
             (if k \<notin> set (map (cell_key cs) (rows F)) then Inl (KeyErrorCell k)
              else transport_cell S mc ms (cell_frame cs D k) (cell_frame cs Cp k) (Some (cell_frame cs F k)))))"

definition run_by_cells :: "solver \<Rightarrow> string list \<Rightarrow> correspondence \<Rightarrow> correspondence \<Rightarrow>
                            'a frame \<Rightarrow> 'b frame \<Rightarrow> 'c frame option \<Rightarrow>
                            error + ('a, 'b, 'c) match option list" where
  "run_by_cells S cs mc ms D Cp Sc =
     (case schema_error cs D Cp Sc of
        Some e \<Rightarrow> Inl e
      | None \<Rightarrow>
          (case all_rows (cell_result S cs mc ms D Cp Sc) (cell_keys cs D) of
             Inl e \<Rightarrow> Inl e
           | Inr ts \<Rightarrow> concat_tables ts))"

text \<open>The DINA frame restricted to the cells whose key satisfies \<open>P\<close>.\<close>

definition restrict_cells :: "string list \<Rightarrow> (cell_key \<Rightarrow> bool) \<Rightarrow> 'id frame \<Rightarrow> 'id frame" where
  "restrict_cells cs P F = F\<lparr>rows := filter (\<lambda>r. P (cell_key cs r)) (rows F)\<rparr>"

subsection \<open>The rows of a group are the rows of its key\<close>

lemma map_nth_filter_upt:
  "map (\<lambda>i. xs ! i) (filter (\<lambda>i. P (xs ! i)) [0..<length xs]) = filter P xs"
proof -
  have "map (\<lambda>i. xs ! i) (filter (\<lambda>i. P (xs ! i)) [0..<length xs]) =
        filter P (map (\<lambda>i. xs ! i) [0..<length xs])"
    by (simp add: filter_map comp_def)
  also have "map (\<lambda>i. xs ! i) [0..<length xs] = xs" by (rule map_nth)
  finally show ?thesis .
qed

lemma iloc_cell:
  "iloc F (filter (\<lambda>i. map (cell_key cs) (rows F) ! i = k) [0..<length (rows F)]) = cell_frame cs F k"
proof -
  have "filter (\<lambda>i. map (cell_key cs) (rows F) ! i = k) [0..<length (rows F)] =
        filter (\<lambda>i. cell_key cs (rows F ! i) = k) [0..<length (rows F)]"
    by (rule filter_cong) simp_all
  then show ?thesis
    using map_nth_filter_upt [where xs = "rows F" and P = "\<lambda>r. cell_key cs r = k"]
    by (simp add: iloc_def cell_frame_def)
qed

lemma lookup_group_cell:
  "lookup_group (group_indices (map (cell_key cs) (rows F))) k =
     (if k \<in> set (map (cell_key cs) (rows F))
      then Inr (filter (\<lambda>i. map (cell_key cs) (rows F) ! i = k) [0..<length (rows F)])
      else Inl (KeyErrorCell k))"
  by (simp add: lookup_group_def map_of_group_indices del: set_map)

lemma run_cells_by_keys:
  "run_cells S mc ms D Cp (group_indices (map (cell_key cs) (rows Cp)))
     (map_option (\<lambda>F. (F, group_indices (map (cell_key cs) (rows F)))) Sc)
     (map (\<lambda>k. (k, filter (\<lambda>i. map (cell_key cs) (rows D) ! i = k) [0..<length (rows D)])) ks) =
   all_rows (cell_result S cs mc ms D Cp Sc) ks"
proof (cases Sc)
  case None
  then show ?thesis
    by (induction ks)
       (simp_all add: lookup_group_cell iloc_cell cell_result_def scf_subset_def del: set_map split: sum.split)
next
  case (Some F)
  then show ?thesis
    by (induction ks)
       (simp_all add: lookup_group_cell iloc_cell cell_result_def scf_subset_def del: set_map split: sum.split)
qed

text \<open>
  C2. The loop of the script over \<open>dina_groups\<close>, with its \<open>groups[group]\<close> lookups and
  \<open>iloc\<close> subsets, computes the reference run stated on cell keys: schema errors first,
  then, for every DINA cell key in ascending order, \<open>KeyError\<close> if CPS (or SCF) has no
  record with that key, else the transport of the records with that key; the first
  error stops the run, otherwise the tables are concatenated.
\<close>

theorem run_match_by_cells:
  "run_match S cs mc ms D Cp Sc = run_by_cells S cs mc ms D Cp Sc"
proof (cases Sc)
  case None
  then show ?thesis
    using run_cells_by_keys [of S mc ms D Cp cs Sc "cell_keys cs D"]
    by (simp add: run_match_def run_by_cells_def schema_error_def groupby_def cell_keys_def
                  group_indices_def [of "map (cell_key cs) (rows D)"]
             split: option.split)
next
  case (Some F)
  then show ?thesis
    using run_cells_by_keys [of S mc ms D Cp cs Sc "cell_keys cs D"]
    by (simp add: run_match_def run_by_cells_def schema_error_def groupby_def cell_keys_def
                  group_indices_def [of "map (cell_key cs) (rows D)"]
             split: option.split)
qed

subsection \<open>Splitting the cells of a run\<close>

lemma all_rows_cong: "\<forall>k \<in> set ks. f k = g k \<Longrightarrow> all_rows f ks = all_rows g ks"
proof (induction ks)
  case (Cons k ks)
  then have "all_rows f ks = all_rows g ks" "f k = g k" by simp_all
  then show ?case by (metis all_rows.simps(2))
qed simp

lemma all_rows_Inr_length: "all_rows f ks = Inr ts \<Longrightarrow> length ts = length ks"
proof (induction ks arbitrary: ts)
  case (Cons k ks)
  then show ?case by (cases "f k"; cases "all_rows f ks") auto
qed simp

lemma all_rows_split:
  assumes "all_rows f ks = Inr ts"
  shows "\<exists>ts1 ts2. all_rows f (filter P ks) = Inr ts1 \<and> all_rows f (filter (\<lambda>k. \<not> P k) ks) = Inr ts2 \<and>
           mset (concat ts) = mset (concat ts1) + mset (concat ts2)"
  using assms
proof (induction ks arbitrary: ts)
  case (Cons k ks)
  then obtain r rs where fk: "f k = Inr r" and rs: "all_rows f ks = Inr rs" and ts: "ts = r # rs"
    by (cases "f k"; cases "all_rows f ks") auto
  from Cons.IH [OF rs] obtain ts1 ts2 where
    "all_rows f (filter P ks) = Inr ts1" "all_rows f (filter (\<lambda>k. \<not> P k) ks) = Inr ts2"
    "mset (concat rs) = mset (concat ts1) + mset (concat ts2)" by blast
  with fk ts show ?case by (cases "P k") (auto simp: ac_simps)
qed simp

lemma cell_keys_restrict: "cell_keys cs (restrict_cells cs P F) = filter P (cell_keys cs F)"
proof -
  have "map (cell_key cs) (filter (\<lambda>r. P (cell_key cs r)) (rows F)) = filter P (map (cell_key cs) (rows F))"
    by (simp add: filter_map comp_def)
  then show ?thesis
    by (simp add: cell_keys_def restrict_cells_def remdups_filter filter_sort)
qed

lemma cell_frame_restrict:
  assumes "P k"
  shows "cell_frame cs (restrict_cells cs P F) k = cell_frame cs F k"
proof -
  have "filter (\<lambda>r. cell_key cs r = k) (filter (\<lambda>r. P (cell_key cs r)) xs) = filter (\<lambda>r. cell_key cs r = k) xs"
    for xs :: "'a row list"
    using assms by (induction xs) auto
  then show ?thesis by (simp add: cell_frame_def restrict_cells_def)
qed

lemma cell_result_restrict:
  assumes "P k"
  shows "cell_result S cs mc ms (restrict_cells cs P D) Cp Sc k = cell_result S cs mc ms D Cp Sc k"
  unfolding cell_result_def cell_frame_restrict [of P, OF assms] ..

lemma schema_error_restrict:
  "schema_error cs (restrict_cells cs P D) Cp Sc = schema_error cs D Cp Sc"
  by (simp add: schema_error_def restrict_cells_def)

lemma set_cell_keys [simp]: "set (cell_keys cs F) = cell_key cs ` set (rows F)"
  by (simp add: cell_keys_def)

lemma cell_keys_nonempty: "rows F \<noteq> [] \<Longrightarrow> cell_keys cs F \<noteq> []"
  by (metis image_is_empty set_cell_keys set_empty)

lemma concat_tables_ne: "ts \<noteq> [] \<Longrightarrow> concat_tables ts = Inr (concat ts)"
  by (simp add: concat_tables_def)

lemma run_restrict:
  assumes se: "schema_error cs D Cp Sc = None"
    and ar: "all_rows (cell_result S cs mc ms D Cp Sc) (filter Q (cell_keys cs D)) = Inr ts"
    and ne: "rows (restrict_cells cs Q D) \<noteq> []"
  shows "run_match S cs mc ms (restrict_cells cs Q D) Cp Sc = Inr (concat ts)"
proof -
  have "all_rows (cell_result S cs mc ms (restrict_cells cs Q D) Cp Sc) (cell_keys cs (restrict_cells cs Q D)) =
        all_rows (cell_result S cs mc ms D Cp Sc) (filter Q (cell_keys cs D))"
    unfolding cell_keys_restrict by (rule all_rows_cong) (simp add: cell_result_restrict)
  with ar have r: "all_rows (cell_result S cs mc ms (restrict_cells cs Q D) Cp Sc)
                     (cell_keys cs (restrict_cells cs Q D)) = Inr ts" by simp
  have "ts \<noteq> []"
    using all_rows_Inr_length [OF r] cell_keys_nonempty [OF ne] by auto
  with r se show ?thesis
    by (simp add: run_match_by_cells run_by_cells_def schema_error_restrict concat_tables_ne)
qed

text \<open>
  C4. Cells are independent (spec section 5): when a run succeeds, splitting the DINA
  cells between two runs by any predicate on cell keys (neither part empty) gives two
  runs that also succeed, and merging their tables yields exactly the matches of the
  whole run, each as often; so the cells may be processed separately and the results
  concatenated.
\<close>

theorem run_split_cells:
  assumes run: "run_match S cs mc ms D Cp Sc = Inr t"
    and ne: "rows (restrict_cells cs P D) \<noteq> []" "rows (restrict_cells cs (\<lambda>k. \<not> P k) D) \<noteq> []"
  shows "\<exists>t1 t2. run_match S cs mc ms (restrict_cells cs P D) Cp Sc = Inr t1 \<and>
                 run_match S cs mc ms (restrict_cells cs (\<lambda>k. \<not> P k) D) Cp Sc = Inr t2 \<and>
                 mset t = mset t1 + mset t2"
proof -
  obtain ts where se: "schema_error cs D Cp Sc = None"
    and ar: "all_rows (cell_result S cs mc ms D Cp Sc) (cell_keys cs D) = Inr ts" and t: "t = concat ts"
    using run unfolding run_match_by_cells run_by_cells_def
    by (auto simp: concat_tables_def split: option.splits sum.splits if_splits)
  from all_rows_split [OF ar, of P] obtain ts1 ts2 where
    a1: "all_rows (cell_result S cs mc ms D Cp Sc) (filter P (cell_keys cs D)) = Inr ts1"
    and a2: "all_rows (cell_result S cs mc ms D Cp Sc) (filter (\<lambda>k. \<not> P k) (cell_keys cs D)) = Inr ts2"
    and m: "mset (concat ts) = mset (concat ts1) + mset (concat ts2)" by blast
  show ?thesis
    using run_restrict [OF se a1 ne(1)] run_restrict [OF se a2 ne(2)] m t by blast
qed

end
