(* ===== verification/Spec2Isabelle.thy ===== *)
theory Spec2Isabelle
  imports Script Forbes Cells
begin

text \<open>
  \<^bold>\<open>A verification library for the matching engine of real-time-inequality.\<close>

  The repository has two programs. \<open>src/transport/transport.py\<close> matches, for one
  year, the DINA micro-file against the CPS (and, from 1989 on, the SCF) by optimal
  transport within cells of records sharing the fields \<open>married\<close>, \<open>old\<close>,
  \<open>employed\<close>, and writes the weighted correspondences to \<open>match/match-{year}.csv\<close>.
  \<open>src/programs/01-scrape-forbes.py\<close> downloads, for every month end since January
  2020, the Forbes real-time billionaires list from the Wayback Machine. This library
  is a shallow embedding of both: data frames are records, exceptions are values of
  the datatype \<open>error\<close> (\<open>Inl\<close> of a sum), loops are recursion or folds, floats are
  \<open>real\<close>.

  \<^bold>\<open>Theories and the code they model.\<close>
  \<^item> \<open>Prelude\<close>: the cell-key type, the \<open>error\<close> datatype (\<open>KeyError\<close> on a column or a
    cell, \<open>ValueError\<close> of \<open>pd.concat([])\<close> and of \<open>int()\<close>, \<open>IndexError\<close> of \<open>.iat\<close> and of
    \<open>sys.argv[1]\<close>, the reader's \<open>FileNotFound\<close>), sums over lists
    (collection \<open>mass_simps\<close>), \<open>first_missing\<close> (how pandas reports a missing label).
  \<^item> \<open>Frame\<close>: frames (\<open>columns\<close>, \<open>rows\<close> with \<open>rid\<close> and \<open>vals\<close>), \<open>column\<close>
    (\<open>df[c]\<close>), \<open>loc\<close> (\<open>df.loc[:, cols]\<close>), \<open>iloc\<close>, and the Cell Partitioner
    \<open>groupby\<close>/\<open>group_indices\<close>/\<open>lookup_group\<close> (\<open>groupby(cells).groups\<close>, \<open>groups[k]\<close>;
    transport.py lines 59--73).
  \<^item> \<open>Cost\<close>: correspondences as association lists (\<open>source_cols\<close>, \<open>target_cols\<close> are
    \<open>dina_cols\<close>, \<open>cps_cols\<close>/\<open>scf_cols\<close>), \<open>cityblock\<close>, \<open>cdist\<close>, \<open>cost_matrix\<close>
    (lines 83--92, 125--126, 143--148).
  \<^item> \<open>Config\<close>: the year argument (\<open>parse_int\<close>, Python's \<open>int()\<close> on a string:
    surrounding whitespace, an optional sign, digit groups joined by single
    underscores; line 13), the file names of a year
    (\<open>dina_file\<close>, \<open>cps_file\<close>, \<open>scf_file\<close>, \<open>output_file\<close> with the decimal printing
    \<open>str_int\<close>; lines 16--21, 184), \<open>cells\<close>, \<open>matching_cps\<close>, \<open>matching_scf\<close> (24--46).
  \<^item> \<open>Transport\<close>: \<open>normalise\<close> (lines 96--100), the contract of \<open>ot.emd\<close> (\<open>is_plan\<close>,
    \<open>is_optimal\<close>, \<open>solver_sound\<close>), weak duality, and \<open>nw_plan\<close>, a solver that meets
    the contract (the monotone north-west-corner coupling).
  \<^item> \<open>Extract\<close>: \<open>nonzero\<close>, \<open>count_nonzero\<close> and the positional fill loop
    \<open>fill_rows\<close>/\<open>match_table\<close> of the three \<open>.iat\<close> loops (lines 107--120, 124--139,
    164--177).
  \<^item> \<open>Chain\<close>: the per-cell body, the Two-Stage Chainer: \<open>transport_step\<close> (cost
    matrix, weights, masses, solver), the rows \<open>match2_row\<close>, \<open>inter_row\<close>,
    \<open>match3_row\<close>, the intermediate frame \<open>inter_frame\<close>, and \<open>transport_cell\<close>
    with both branches of \<open>if scf_file is None\<close> (lines 81--177).
  \<^item> \<open>Run\<close>: the whole run \<open>run_match\<close>: grouping of the three frames, the cell loop
    \<open>run_cells\<close> with its \<open>cps_groups[group]\<close>/\<open>scf_groups[group]\<close> lookups, and
    \<open>concat_tables\<close> (lines 59--79, 179--183).
  \<^item> \<open>Record_Mass\<close>: the abstract specification of a run (\<open>table_mass\<close> of the
    output equals \<open>record_mass\<close> of DINA: every record's weight is spread over its
    matches) and the refinement theorem for the run of \<open>Run\<close> (C34). \<open>Run\<close> proves
    it through \<open>cells_good\<close> (every cell conserves its mass, in total and per DINA id)
    and \<open>run_match_total\<close> (the cells partition DINA, so cell masses add up).
  \<^item> \<open>Cells\<close>: the reference run \<open>run_by_cells\<close> on cell keys (\<open>cell_frame\<close>,
    \<open>cell_keys\<close>, \<open>cell_result\<close>), the proof that \<open>run_match\<close> computes it (C2),
    and the split of a run's cells (\<open>restrict_cells\<close>, C4).
  \<^item> \<open>Script\<close>: the module level of transport.py, \<open>transport_main\<close>: the year from
    \<open>sys.argv[1]\<close>, \<open>pd.read_csv\<close> of the DINA, CPS and (\<open>load_scf\<close>) SCF files in
    that order (lines 13, 52--57), the run with the configured cells and dicts, and the
    output path of \<open>to_csv\<close> (line 184); the CSV reader is a parameter. \<open>inputs_ok\<close>
    is what the run needs of the frames read.
  \<^item> \<open>Forbes\<close>: the scraper: the SSL set-up \<open>ssl_setup\<close> on a record of the two
    \<open>ssl\<close> attributes it touches (lines 15--22), \<open>month_ends\<close> (the nested dates loop over
    \<open>calendar.monthrange\<close>, lines 24--30), the availability API object
    \<open>availability_api\<close> for \<open>forbes_url\<close> and \<open>user_agent\<close> (lines 33--35), \<open>raw_url\<close>
    (line 45), one attempt \<open>attempt\<close> (lines 41--49), the retry loop
    \<open>retry\<close> as a \<open>partial_function (option)\<close> (lines 40--57), \<open>scrape\<close> (lines 37--60)
    and \<open>scrape_main\<close>, which reads the output path \<open>sys.argv[1]\<close> after it (line 61).
  \<^item> This theory: example frames and downloads, the spec's stage-1 example (C21) and a
    witness for every claim with hypotheses, evaluated by \<open>simp\<close> or \<open>code_simp\<close>.

  \<^bold>\<open>What is proved.\<close> Mass conservation of a cell in one and two stages, in total
  and per DINA record (C1, C3); the equivalence of the script's index-based cell loop
  with a reference run stated on cell keys (C2) and, from it, the independence of cells:
  splitting the DINA cells between two runs and merging their tables gives the same
  multiset of matches (C4, spec section 5); mass conservation of a whole run with one
  stage (C5) and two stages (C22); the run's errors: a DINA cell missing from CPS or
  from SCF aborts the run (C6, C27, a divergence from the spec's CellAlignmentGap rule),
  an empty DINA frame makes \<open>pd.concat\<close> fail (C7), a missing cell field fails before
  any cell (C26); the whole script (C8): for a year \<open>int()\<close> reads and frames meeting
  the loader contract it writes the year's output file with a table that refines the
  per-record specification, two-way exactly before 1989; its failures before matching,
  in the order argument, DINA, CPS, SCF (C13); the file names of a year (C9, with the
  round trip \<open>parse_int (str_int i) = Some i\<close>, also with surrounding whitespace); the
  scraper's dates, URL rewrite and scrape (C10, C11, C14, C15), the exact
  characterisation of when the retry loop returns (C12: iff some attempt succeeds, with
  the first success), its failures (C16: no month end, or no output path, found only
  after every download), the number of snapshots requested (C28), the provenance of
  every scraped row (the raw snapshot of its own month end, C29) and its date tag (C32);
  the cost matrix's entries and fail-fast errors (C17, C18); the fill loop's equivalence
  with the list of rows (C19); the partition by \<open>groupby\<close> (C20); the spec's example
  cell, whose output is fixed for every solver returning a minimum-cost plan, because
  that plan is unique (C21); the intermediate records of the chain (C23); positive
  weights and known ids of every emitted entry (C24, C30); the CPS and SCF marginals on
  the DINA mass scale (C25, C31); the only error of a cell is a missing column (C33);
  and the refinement of the abstract per-record specification by the whole run (C34).

  \<^bold>\<open>Modelling choices.\<close> \<open>ot.emd\<close> is external: every engine theorem holds for any
  solver that returns a plan with the requested marginals (\<open>solver_sound\<close>), and
  \<open>nw_plan\<close> shows the contract is satisfiable. Its iteration cap is not modelled (a
  finding records that the script ignores non-convergence). Weights are exact reals,
  so "within floating-point tolerance" is exact equality here; theorems assume what
  the loader promises (weight column present, weights non-negative with positive total
  per cell, \<open>weights_ok\<close>). A row's identifier is the record field \<open>rid\<close>: the
  frames of the model are frames with an \<open>id\<close> column, as the spec's loader contract
  requires, so the \<open>KeyError\<close> that \<open>df['id']\<close> (lines 117--118, 134--135, 175) would
  raise on a file without that column is outside the model. The chained \<open>.iat\<close> writes are modelled with their
  pre-Copy-on-Write meaning (they land in the frame). The scraper's network is the
  parameter \<open>fetch\<close> (attempt \<open>k\<close> for a date; \<open>None\<close> for an exception), which
  \<open>attempt\<close> builds from the availability API, the download and the parser, each
  an attempt-indexed parameter; the retry
  loop needs no fuel: not returning is the value \<open>None\<close> of the partial function, and
  C12 proves that it returns exactly when some attempt succeeds. \<open>datetime.date.today()\<close>
  is one parameter \<open>today\<close>: the scraper calls it once per month (line 29), and the
  model assumes the date does not change while the dates list is built. \<open>pd.read_csv\<close> is the parameter \<open>read_csv\<close> of
  \<open>transport_main\<close>: a frame or the exception it raised; the end-to-end theorem C8
  assumes of the frames only the contract \<open>inputs_ok\<close>. The \<open>ssl\<close> module is a record
  of the two attributes the set-up reads and writes (\<open>None\<close> for a missing attribute).
  \<open>int()\<close> is modelled on characters up to U+00FF.

  \<^bold>\<open>Not modelled.\<close> File and network I/O itself: the parsing done by \<open>read_csv\<close>,
  the bytes written by \<open>to_csv\<close>, \<open>urlopen\<close>, \<open>json.loads\<close>, \<open>json_normalize\<close> and the
  TLS handshake (only which factory the set-up installs is modelled), the progress
  prints, \<open>time.sleep\<close> and timings, the NaN handling of \<open>groupby\<close> (\<open>dropna\<close>, a
  finding), zero-mass cells (NaN from a division by zero, a finding), and the internals
  of \<open>ot.emd\<close> (its iteration cap included: the script never reads the convergence
  status, so only the returned plan matters, and every theorem holds for any plan
  meeting the contract) and of the Wayback availability API. These are library code
  or effects outside the program's own logic; the two components that rest on them,
  the Dataset Loader and the Transport Solver, are therefore only partly modelled.
\<close>

subsection \<open>Example cells\<close>

text \<open>
  The toy cell of the spec's testable properties: DINA records with weights 1, 1, 2 and
  matching variable \<open>v\<close> = 0, 1, 2; CPS records with weights 2, 1 and \<open>v\<close> = 0, 2; an
  SCF frame with weights 1, 3 and variable \<open>w\<close> = 0, 2.
\<close>

definition toy_dina :: "nat frame" where
  "toy_dina = \<lparr>columns = [''id'', ''weight'', ''v'', ''married''],
     rows = [\<lparr>rid = 1, vals = (\<lambda>_. 0)(''weight'' := 1, ''v'' := 0)\<rparr>,
             \<lparr>rid = 2, vals = (\<lambda>_. 0)(''weight'' := 1, ''v'' := 1)\<rparr>,
             \<lparr>rid = 3, vals = (\<lambda>_. 0)(''weight'' := 2, ''v'' := 2)\<rparr>]\<rparr>"

definition toy_cps :: "nat frame" where
  "toy_cps = \<lparr>columns = [''id'', ''weight'', ''v'', ''married''],
     rows = [\<lparr>rid = 1, vals = (\<lambda>_. 0)(''weight'' := 2, ''v'' := 0)\<rparr>,
             \<lparr>rid = 2, vals = (\<lambda>_. 0)(''weight'' := 1, ''v'' := 2)\<rparr>]\<rparr>"

definition toy_scf :: "nat frame" where
  "toy_scf = \<lparr>columns = [''id'', ''weight'', ''w'', ''married''],
     rows = [\<lparr>rid = 1, vals = (\<lambda>_. 0)(''weight'' := 1, ''w'' := 0)\<rparr>,
             \<lparr>rid = 2, vals = (\<lambda>_. 0)(''weight'' := 3, ''w'' := 2)\<rparr>]\<rparr>"

text \<open>The CPS frame of a year where every CPS record is married: no unmarried cell.\<close>

definition toy_cps_married :: "nat frame" where
  "toy_cps_married = \<lparr>columns = [''id'', ''weight'', ''v'', ''married''],
     rows = [\<lparr>rid = 1, vals = (\<lambda>_. 0)(''weight'' := 2, ''v'' := 0, ''married'' := 1)\<rparr>,
             \<lparr>rid = 2, vals = (\<lambda>_. 0)(''weight'' := 1, ''v'' := 2, ''married'' := 1)\<rparr>]\<rparr>"

definition toy_scf_married :: "nat frame" where
  "toy_scf_married = \<lparr>columns = [''id'', ''weight'', ''w'', ''married''],
     rows = [\<lparr>rid = 1, vals = (\<lambda>_. 0)(''weight'' := 1, ''w'' := 0, ''married'' := 1)\<rparr>]\<rparr>"

definition toy_corr_cps :: correspondence where
  "toy_corr_cps = [(''v'', ''v'')]"

definition toy_corr_scf :: correspondence where
  "toy_corr_scf = [(''v'', ''w'')]"

text \<open>Example downloads for the scraper: the first two attempts fail, then the table
  holds one row, the date's month; and a download that fails forever on 31 January 2020.\<close>

definition toy_attempts :: "nat \<Rightarrow> nat option" where
  "toy_attempts k = (if k < 2 then None else Some k)"

definition toy_fetch :: "date \<Rightarrow> nat \<Rightarrow> nat list option" where
  "toy_fetch d k = (if k < 2 then None else Some [fst (snd d)])"

definition dead_fetch :: "date \<Rightarrow> nat \<Rightarrow> nat list option" where
  "dead_fetch d k = (if d = (2020, 1, 31) then None else Some [])"

definition toy_fetch_now :: "date \<Rightarrow> nat \<Rightarrow> nat list option" where
  "toy_fetch_now d k = Some [fst (snd d)]"

text \<open>An example network for one attempt: the availability API always returns the same
  snapshot, the download returns the URL it was given, and the parser keeps the body.\<close>

definition toy_near :: "wayback_api \<Rightarrow> nat \<Rightarrow> date \<Rightarrow> string option" where
  "toy_near api k d = Some ''https://web.archive.org/web/20200131235959/x''"

definition toy_urlopen :: "nat \<Rightarrow> string \<Rightarrow> string option" where
  "toy_urlopen k u = Some u"

definition toy_parse :: "string \<Rightarrow> string list option" where
  "toy_parse body = Some [body]"

text \<open>Frames of the configured schema for the end-to-end script: two DINA records in two
  cells (married or not), CPS and SCF records in both cells. The reader serves them for
  2000 (and DINA alone for 1995, DINA and CPS for 1996) and raises for any other file.\<close>

definition toy_year_dina :: "nat frame" where
  "toy_year_dina = \<lparr>columns = ''id'' # ''weight'' # cells @ source_cols matching_cps @ source_cols matching_scf,
     rows = [\<lparr>rid = 1, vals = (\<lambda>_. 0)(''weight'' := 2)\<rparr>,
             \<lparr>rid = 2, vals = (\<lambda>_. 0)(''weight'' := 1, ''married'' := 1)\<rparr>]\<rparr>"

definition toy_year_cps :: "nat frame" where
  "toy_year_cps = \<lparr>columns = ''id'' # ''weight'' # cells @ target_cols matching_cps,
     rows = [\<lparr>rid = 10, vals = (\<lambda>_. 0)(''weight'' := 1)\<rparr>,
             \<lparr>rid = 11, vals = (\<lambda>_. 0)(''weight'' := 3, ''married'' := 1)\<rparr>]\<rparr>"

definition toy_year_scf :: "nat frame" where
  "toy_year_scf = \<lparr>columns = ''id'' # ''weight'' # cells @ target_cols matching_scf,
     rows = [\<lparr>rid = 20, vals = (\<lambda>_. 0)(''weight'' := 5, ''married'' := 1)\<rparr>,
             \<lparr>rid = 21, vals = (\<lambda>_. 0)(''weight'' := 1)\<rparr>]\<rparr>"

definition toy_read_csv :: "string \<Rightarrow> error + nat frame" where
  "toy_read_csv p =
     (if p \<in> {''dina/usdina2000.csv'', ''dina/usdina1995.csv'', ''dina/usdina1996.csv''} then Inr toy_year_dina
      else if p \<in> {''cps/cps2000.csv'', ''cps/cps1996.csv''} then Inr toy_year_cps
      else if p = ''scf/scf2000.csv'' then Inr toy_year_scf
      else Inl (FileNotFound p))"

lemmas toy_defs = toy_dina_def toy_cps_def toy_scf_def toy_cps_married_def toy_scf_married_def toy_corr_cps_def toy_corr_scf_def
  source_cols_def target_cols_def weights_ok_def weights_def positive_weights_def cell_key_def

subsection \<open>Witnesses\<close>

theorem cell_single_stage_mass_witness:
  "solver_sound nw_plan \<and>
   set (source_cols toy_corr_cps) \<subseteq> set (columns toy_dina) \<and>
   set (target_cols toy_corr_cps) \<subseteq> set (columns toy_cps) \<and>
   weights_ok toy_dina \<and> weights_ok toy_cps \<and>
   distinct (map rid (rows toy_dina)) \<and> 2 < length (rows toy_dina) \<and>
   (\<exists>t. transport_cell nw_plan toy_corr_cps toy_corr_scf toy_dina toy_cps (None :: nat frame option) =
          Inr (map Some t) \<and> sum_list (map match_weight t) = sum_list (weights toy_dina) \<and>
        sum_list (map match_weight (filter (\<lambda>r. match_dina r = rid (rows toy_dina ! 2)) t)) =
        weights toy_dina ! 2)"
proof -
  have h: "set (source_cols toy_corr_cps) \<subseteq> set (columns toy_dina)"
    "set (target_cols toy_corr_cps) \<subseteq> set (columns toy_cps)"
    "weights_ok toy_dina" "weights_ok toy_cps"
    by (simp_all add: toy_defs)
  have d: "distinct (map rid (rows toy_dina))" "2 < length (rows toy_dina)"
    by (simp_all add: toy_defs)
  show ?thesis
    using h d solver_sound_nw_plan
      Chain.cell_single_stage_mass [OF solver_sound_nw_plan h, of toy_corr_scf]
    by blast
qed

theorem cell_two_stage_mass_witness:
  "solver_sound nw_plan \<and>
   set (source_cols toy_corr_cps) \<subseteq> set (columns toy_dina) \<and>
   set (target_cols toy_corr_cps) \<subseteq> set (columns toy_cps) \<and>
   set (source_cols toy_corr_scf) \<subseteq> set (columns toy_dina) \<and>
   set (target_cols toy_corr_scf) \<subseteq> set (columns toy_scf) \<and>
   weights_ok toy_dina \<and> weights_ok toy_cps \<and> weights_ok toy_scf \<and>
   distinct (map rid (rows toy_dina)) \<and> 0 < length (rows toy_dina) \<and>
   (\<exists>t. transport_cell nw_plan toy_corr_cps toy_corr_scf toy_dina toy_cps (Some toy_scf) =
          Inr (map Some t) \<and> sum_list (map match_weight t) = sum_list (weights toy_dina) \<and>
        sum_list (map match_weight (filter (\<lambda>r. match_dina r = rid (rows toy_dina ! 0)) t)) =
        weights toy_dina ! 0)"
proof -
  have h: "set (source_cols toy_corr_cps) \<subseteq> set (columns toy_dina)"
    "set (target_cols toy_corr_cps) \<subseteq> set (columns toy_cps)"
    "set (source_cols toy_corr_scf) \<subseteq> set (columns toy_dina)"
    "set (target_cols toy_corr_scf) \<subseteq> set (columns toy_scf)"
    "weights_ok toy_dina" "weights_ok toy_cps" "weights_ok toy_scf"
    by (simp_all add: toy_defs)
  have d: "distinct (map rid (rows toy_dina))" "0 < length (rows toy_dina)"
    by (simp_all add: toy_defs)
  show ?thesis
    using h d solver_sound_nw_plan Chain.cell_two_stage_mass [OF solver_sound_nw_plan h]
    by blast
qed

theorem run_single_stage_mass_witness:
  "solver_sound nw_plan \<and>
   set [''married''] \<subseteq> set (columns toy_dina) \<and> set [''married''] \<subseteq> set (columns toy_cps) \<and>
   set (source_cols toy_corr_cps) \<subseteq> set (columns toy_dina) \<and>
   set (target_cols toy_corr_cps) \<subseteq> set (columns toy_cps) \<and>
   positive_weights toy_dina \<and> positive_weights toy_cps \<and>
   set (map (cell_key [''married'']) (rows toy_dina)) \<subseteq> set (map (cell_key [''married'']) (rows toy_cps)) \<and>
   rows toy_dina \<noteq> [] \<and>
   (\<exists>t. run_match nw_plan [''married''] toy_corr_cps toy_corr_scf toy_dina toy_cps (None :: nat frame option) =
          Inr (map Some t) \<and> sum_list (map match_weight t) = sum_list (weights toy_dina))"
proof -
  have h: "set [''married''] \<subseteq> set (columns toy_dina)" "set [''married''] \<subseteq> set (columns toy_cps)"
    "set (source_cols toy_corr_cps) \<subseteq> set (columns toy_dina)"
    "set (target_cols toy_corr_cps) \<subseteq> set (columns toy_cps)"
    "positive_weights toy_dina" "positive_weights toy_cps"
    "set (map (cell_key [''married'']) (rows toy_dina)) \<subseteq> set (map (cell_key [''married'']) (rows toy_cps))"
    "rows toy_dina \<noteq> []"
    by (simp_all add: toy_defs)
  show ?thesis
    using h solver_sound_nw_plan Run.run_single_stage_mass [OF solver_sound_nw_plan h, of toy_corr_scf]
    by simp
qed

theorem run_match_gap_witness:
  "set [''married''] \<subseteq> set (columns toy_dina) \<and> set [''married''] \<subseteq> set (columns toy_cps_married) \<and>
   rows toy_dina ! 0 \<in> set (rows toy_dina) \<and>
   cell_key [''married''] (rows toy_dina ! 0) \<notin> set (map (cell_key [''married'']) (rows toy_cps_married)) \<and>
   (\<exists>e. run_match nw_plan [''married''] toy_corr_cps toy_corr_scf toy_dina toy_cps_married
          (None :: nat frame option) = Inl e)"
proof -
  have h: "set [''married''] \<subseteq> set (columns toy_dina)" "set [''married''] \<subseteq> set (columns toy_cps_married)"
    "rows toy_dina ! 0 \<in> set (rows toy_dina)"
    "cell_key [''married''] (rows toy_dina ! 0) \<notin> set (map (cell_key [''married'']) (rows toy_cps_married))"
    by (simp_all add: toy_defs)
  show ?thesis
    using h Run.run_match_gap [OF h, of nw_plan toy_corr_cps toy_corr_scf "None :: nat frame option"]
    by simp
qed

theorem run_empty_dina_witness:
  "set [''married''] \<subseteq> set (columns (toy_dina\<lparr>rows := []\<rparr>)) \<and>
   set [''married''] \<subseteq> set (columns toy_cps) \<and>
   set [''married''] \<subseteq> set (columns toy_scf) \<and>
   rows (toy_dina\<lparr>rows := []\<rparr>) = [] \<and>
   run_match nw_plan [''married''] toy_corr_cps toy_corr_scf (toy_dina\<lparr>rows := []\<rparr>) toy_cps (Some toy_scf) =
     Inl ValueErrorConcat"
proof -
  have h: "set [''married''] \<subseteq> set (columns (toy_dina\<lparr>rows := []\<rparr>))"
    "set [''married''] \<subseteq> set (columns toy_cps)"
    "\<forall>F. Some toy_scf = Some F \<longrightarrow> set [''married''] \<subseteq> set (columns F)"
    "rows (toy_dina\<lparr>rows := []\<rparr>) = []"
    by (simp_all add: toy_defs)
  show ?thesis
    using h Run.run_empty_dina [OF h, of nw_plan toy_corr_cps toy_corr_scf] by (simp add: toy_defs)
qed

subsection \<open>Files of a year\<close>

theorem files_of_year_witness:
  "2019 \<le> (2020::int) \<and> scf_file 2020 = Some ''scf/scf2019.csv'' \<and>
   dina_file 2020 = ''dina/usdina2019.csv'' \<and> dina_file 2020 = dina_file 2019 \<and>
   scf_file 2020 \<noteq> None \<and> cps_file 2020 \<noteq> cps_file 2019 \<and> output_file 2020 \<noteq> output_file 2019"
proof -
  have f: "(scf_file 2020 = None \<longleftrightarrow> (2020::int) < 1989) \<and>
    (2019 \<le> (2020::int) \<longrightarrow> dina_file 2020 = dina_file 2019 \<and> scf_file 2020 = scf_file 2019) \<and>
    (dina_file 2020 = dina_file 2019 \<longleftrightarrow> min (2020::int) 2019 = min 2019 2019) \<and>
    (cps_file 2020 = cps_file 2019 \<longleftrightarrow> (2020::int) = 2019) \<and>
    (output_file 2020 = output_file 2019 \<longleftrightarrow> (2020::int) = 2019)"
    by (rule Config.files_of_year [of 2020 2020 2019])
  have s: "scf_file 2019 = Some ''scf/scf2019.csv''" "dina_file 2019 = ''dina/usdina2019.csv''"
    by code_simp+
  from f s show ?thesis by simp
qed

subsection \<open>The scraper\<close>

theorem raw_url_wayback_witness:
  "length ''20200131235959'' = 14 \<and>
   raw_url (''https://web.archive.org/web/20200131235959/https://www.forbes.com/x'') =
     ''https://web.archive.org/web/20200131235959if_/https://www.forbes.com/x''"
  using Forbes.raw_url_wayback [of "''20200131235959''" "''https://www.forbes.com/x''"]
  by (simp add: wayback_prefix_def)

lemma toy_attempts_least: "(LEAST j. 0 \<le> j \<and> toy_attempts j \<noteq> None) = 2"
  by (rule Least_equality) (auto simp: toy_attempts_def split: if_splits)

theorem retry_returns_first_witness:
  "retry toy_attempts 0 = Some 2 \<and> retry (\<lambda>_. None :: nat option) 0 = None"
proof -
  have "\<exists>k \<ge> 0. toy_attempts k \<noteq> None" by (auto simp: toy_attempts_def)
  then have "retry toy_attempts 0 = toy_attempts 2"
    using Forbes.retry_returns_first [of toy_attempts 0] toy_attempts_least by simp
  moreover have "retry (\<lambda>_. None :: nat option) 0 = None"
    using Forbes.retry_returns_first [of "\<lambda>_. None :: nat option" 0] by simp
  ultimately show ?thesis by (simp add: toy_attempts_def)
qed

lemma toy_month_ends: "month_ends (2020, 3, 5) = [(2020, 1, 31), (2020, 2, 29)]"
  by code_simp

lemma toy_fetch_least: "(LEAST k. toy_fetch d k \<noteq> None) = 2"
  by (rule Least_equality) (auto simp: toy_fetch_def split: if_splits)

theorem scrape_ok_witness:
  "scrape toy_fetch (2020, 3, 5) = Some (Inr [(1, 2020, 1), (2, 2020, 2)])"
proof -
  have h: "\<forall>d \<in> set (month_ends (2020, 3, 5)). \<exists>k. toy_fetch d k \<noteq> None"
    by (auto simp: toy_fetch_def)
  have "scrape toy_fetch (2020, 3, 5) =
    Some (Inr (concat (map (\<lambda>d. tag d (the (toy_fetch d 2))) [(2020, 1, 31), (2020, 2, 29)])))"
    using Forbes.scrape_ok [OF h] by (simp only: toy_month_ends toy_fetch_least) simp
  then show ?thesis by (simp add: toy_fetch_def tag_def)
qed

theorem scrape_hangs_witness:
  "(2020, 1, 31) \<in> set (month_ends (2020, 3, 5)) \<and> scrape dead_fetch (2020, 3, 5) = None"
  using Forbes.scrape_hangs [of "(2020, 1, 31)" "(2020, 3, 5)" dead_fetch]
  by (simp add: toy_month_ends dead_fetch_def)

theorem scrape_main_errors_witness:
  "scrape_main toy_fetch (2020, 1, 15) [''scrape.py''] = Some (Inl ValueErrorConcat) \<and>
   scrape_dates toy_fetch (month_ends (2020, 3, 5)) \<noteq> None \<and>
   scrape_main toy_fetch (2020, 3, 5) [''scrape.py''] = Some (Inl IndexErrorArgv)"
proof -
  have h: "\<forall>d \<in> set (month_ends (2020, 3, 5)). \<exists>k. toy_fetch d k \<noteq> None"
    by (auto simp: toy_fetch_def)
  show ?thesis
    using Forbes.scrape_main_errors [of "(2020, 1, 15)" toy_fetch "[''scrape.py'']"]
      Forbes.scrape_main_errors [of "(2020, 3, 5)" toy_fetch "[''scrape.py'']"] h
    by (simp add: toy_month_ends)
qed

subsection \<open>The spec's stage-1 example\<close>

lemma toy_cost: "cost_matrix toy_corr_cps toy_dina toy_cps = Inr [[0, 2], [1, 1], [2, 0]]"
  by (simp add: cost_matrix_def loc_def first_missing_def cdist_def cityblock_def toy_defs)

lemma toy_plan: "is_plan [1/4, 1/4, 1/2] [2/3, 1/3] [[1/4, 0], [1/4, 0], [1/6, 1/3]]"
  by (simp add: is_plan_def less_Suc_eq numeral_3_eq_3 numeral_2_eq_2 lessThan_Suc)

lemma toy_dual: "dual_feasible [[0, 2], [1, 1], [2, 0]] [0, 1, 2] [0, -2]"
  by (simp add: dual_feasible_def less_Suc_eq numeral_3_eq_3 numeral_2_eq_2)

lemma toy_values:
  "plan_cost [[0, 2], [1, 1], [2, 0]] [[1/4, 0], [1/4, 0], [1/6, 1/3]] = 7/12"
  "dual_value [1/4, 1/4, 1/2] [2/3, 1/3] [0, 1, 2] [0, -2] = 7/12"
  by (simp_all add: plan_cost_def dual_value_def numeral_3_eq_3 numeral_2_eq_2 lessThan_Suc)

lemma toy_normalise: "normalise (weights toy_dina) = [1/4, 1/4, 1/2]" "normalise (weights toy_cps) = [2/3, 1/3]"
  by (simp_all add: normalise_def toy_defs)

lemma length_3: "length xs = 3 \<Longrightarrow> \<exists>a b c. xs = [a, b, c]"
  by (auto simp: numeral_3_eq_3 length_Suc_conv)

lemma length_2: "length xs = 2 \<Longrightarrow> \<exists>a b. xs = [a, b]"
  by (auto simp: numeral_2_eq_2 length_Suc_conv)

text \<open>The example's transport problem has one optimal plan: any plan with these marginals
  costs \<open>7/12 + 4 P[0][1] + 2 P[1][1]\<close>.\<close>

lemma toy_optimal_unique:
  assumes "is_optimal [1/4, 1/4, 1/2] [2/3, 1/3] [[0, 2], [1, 1], [2, 0]] P"
  shows "P = [[1/4, 0], [1/4, 0], [1/6, 1/3]]"
proof -
  have plan: "is_plan [1/4, 1/4, 1/2] [2/3, 1/3] P"
    and le: "plan_cost [[0, 2], [1, 1], [2, 0]] P \<le> 7/12"
    using assms toy_plan toy_values(1) unfolding is_optimal_def by force+
  then obtain r0 r1 r2 where P: "P = [r0, r1, r2]"
    using length_3 [of P] by (auto simp: is_plan_def)
  with plan obtain p00 p01 p10 p11 p20 p21 where
    r: "r0 = [p00, p01]" "r1 = [p10, p11]" "r2 = [p20, p21]"
    using length_2 [of r0] length_2 [of r1] length_2 [of r2]
    by (auto simp: is_plan_def less_Suc_eq numeral_3_eq_3)
  let ?a = "[1/4, 1/4, 1/2] :: real list" and ?b = "[2/3, 1/3] :: real list"
  from plan have R: "\<And>i. i < length ?a \<Longrightarrow> (\<Sum>j < length ?b. P ! i ! j) = ?a ! i \<and> (\<forall>j < length ?b. 0 \<le> P ! i ! j)"
    and Cs: "\<And>j. j < length ?b \<Longrightarrow> (\<Sum>i < length ?a. P ! i ! j) = ?b ! j"
    unfolding is_plan_def by blast+
  have eqs: "p00 + p01 = 1/4" "p10 + p11 = 1/4" "p20 + p21 = 1/2"
      "p00 + p10 + p20 = 2/3" "p01 + p11 + p21 = 1/3"
    and nn: "0 \<le> p01" "0 \<le> p11"
    using R [of 0] R [of 1] R [of 2] Cs [of 0] Cs [of 1]
    by (simp_all add: P r numeral_3_eq_3 numeral_2_eq_2 lessThan_Suc All_less_Suc)
  from le have "2 * p01 + p10 + p11 + 2 * p20 \<le> 7/12"
    by (simp add: P r plan_cost_def numeral_3_eq_3 numeral_2_eq_2 lessThan_Suc)
  with eqs nn have "p01 = 0" "p11 = 0" by linarith+
  with eqs show ?thesis by (simp add: P r)
qed

text \<open>
  C21. The spec's two-dataset example run through the script's cell body (DINA records
  1, 2, 3 with weights 1, 1, 2 and \<open>v\<close> = 0, 1, 2; CPS records 1, 2 with weights 2, 1
  and \<open>v\<close> = 0, 2): for every solver that, like \<open>ot.emd\<close>, returns a minimum-cost
  plan for the marginals and the cost matrix the code builds, the cell emits exactly the
  matches (1, 1, 1), (2, 1, 1), (3, 1, 2/3), (3, 2, 4/3), whose weights add up to the
  DINA mass 4.
\<close>

theorem toy_cell_optimal_matches:
  assumes opt: "\<forall>C. cost_matrix toy_corr_cps toy_dina toy_cps = Inr C \<longrightarrow>
                  is_optimal (normalise (weights toy_dina)) (normalise (weights toy_cps)) C
                    (S (normalise (weights toy_dina)) (normalise (weights toy_cps)) C)"
  shows "transport_cell S toy_corr_cps toy_corr_scf toy_dina toy_cps (None :: nat frame option) =
           Inr (map Some [Match2 1 1 1, Match2 2 1 1, Match2 3 1 (2/3), Match2 3 2 (4/3)])"
proof -
  let ?a = "[1/4, 1/4, 1/2] :: real list" and ?b = "[2/3, 1/3] :: real list"
    and ?C = "[[0, 2], [1, 1], [2, 0]] :: real list list"
  have "S ?a ?b ?C = [[1/4, 0], [1/4, 0], [1/6, 1/3]]"
    using opt toy_cost toy_normalise by (simp add: toy_optimal_unique)
  then have "transport_step S toy_corr_cps toy_dina toy_cps = Inr ([[1/4, 0], [1/4, 0], [1/6, 1/3]], 4)"
    unfolding transport_step_def toy_cost by (simp add: column_def toy_normalise [symmetric] toy_defs)
  then show ?thesis
    by (simp add: transport_cell_def match_table_match2 matches2_def nonzero_def toy_defs)
qed

lemma toy_nw_plan: "nw_plan [1/4, 1/4, 1/2] [2/3, 1/3] [[0, 2], [1, 1], [2, 0]] = [[1/4, 0], [1/4, 0], [1/6, 1/3]]"
  by (simp add: nw_plan_def cum_def overlap_def)

theorem toy_cell_optimal_matches_witness:
  "cost_matrix toy_corr_cps toy_dina toy_cps = Inr [[0, 2], [1, 1], [2, 0]] \<and>
   is_optimal (normalise (weights toy_dina)) (normalise (weights toy_cps)) [[0, 2], [1, 1], [2, 0]]
     (nw_plan (normalise (weights toy_dina)) (normalise (weights toy_cps)) [[0, 2], [1, 1], [2, 0]]) \<and>
   transport_cell nw_plan toy_corr_cps toy_corr_scf toy_dina toy_cps (None :: nat frame option) =
     Inr (map Some [Match2 1 1 1, Match2 2 1 1, Match2 3 1 (2/3), Match2 3 2 (4/3)])"
proof -
  have o: "is_optimal [1/4, 1/4, 1/2] [2/3, 1/3] [[0, 2], [1, 1], [2, 0]] [[1/4, 0], [1/4, 0], [1/6, 1/3]]"
    by (rule optimal_by_certificate [OF toy_plan _ _ toy_dual]) (simp_all add: toy_values)
  then have h: "\<forall>C. cost_matrix toy_corr_cps toy_dina toy_cps = Inr C \<longrightarrow>
      is_optimal (normalise (weights toy_dina)) (normalise (weights toy_cps)) C
        (nw_plan (normalise (weights toy_dina)) (normalise (weights toy_cps)) C)"
    by (simp add: toy_cost toy_normalise toy_nw_plan)
  show ?thesis
    using o toy_cost toy_cell_optimal_matches [of nw_plan, OF h] by (simp add: toy_normalise toy_nw_plan)
qed

subsection \<open>Cost matrix, extractor and partition witnesses\<close>

lemma toy_dict_ok: "dict_ok toy_corr_cps"
  by (simp add: dict_ok_def toy_defs)

theorem cost_matrix_entries_witness:
  "dict_ok toy_corr_cps \<and> (\<exists>C. cost_matrix toy_corr_cps toy_dina toy_cps = Inr C)"
  using Cost.cost_matrix_entries [OF toy_dict_ok, of toy_dina toy_cps] toy_dict_ok
  by (simp add: toy_defs)

theorem cost_matrix_fail_fast_witness:
  "cost_matrix [(''v'', ''nope'')] toy_dina toy_cps = Inl (KeyErrorColumn ''nope'') \<and>
   ''nope'' \<notin> set (columns toy_cps)"
proof -
  have h: "cost_matrix [(''v'', ''nope'')] toy_dina toy_cps = Inl (KeyErrorColumn ''nope'')"
    by (simp add: cost_matrix_def loc_def first_missing_def toy_defs)
  show ?thesis using Cost.cost_matrix_fail_fast [OF h] h by (auto simp: toy_defs)
qed

theorem groupby_partition_witness:
  "groupby [''married''] toy_dina = Inr [([0], [0, 1, 2])] \<and> sorted_wrt (<) [0::nat, 1, 2]"
proof -
  have h: "groupby [''married''] toy_dina = Inr [([0], [0, 1, 2])]"
    by (simp add: groupby_def group_indices_def toy_defs)
  show ?thesis using Frame.groupby_partition [OF h] h by simp
qed

theorem run_two_stage_mass_witness:
  "positive_weights toy_scf \<and>
   set (map (cell_key [''married'']) (rows toy_dina)) \<subseteq> set (map (cell_key [''married'']) (rows toy_scf)) \<and>
   (\<exists>t. run_match nw_plan [''married''] toy_corr_cps toy_corr_scf toy_dina toy_cps (Some toy_scf) =
          Inr (map Some t) \<and> sum_list (map match_weight t) = 4)"
proof -
  have h: "set [''married''] \<subseteq> set (columns toy_dina)" "set [''married''] \<subseteq> set (columns toy_cps)"
    "set [''married''] \<subseteq> set (columns toy_scf)"
    "set (source_cols toy_corr_cps) \<subseteq> set (columns toy_dina)"
    "set (target_cols toy_corr_cps) \<subseteq> set (columns toy_cps)"
    "set (source_cols toy_corr_scf) \<subseteq> set (columns toy_dina)"
    "set (target_cols toy_corr_scf) \<subseteq> set (columns toy_scf)"
    "positive_weights toy_dina" "positive_weights toy_cps" "positive_weights toy_scf"
    "set (map (cell_key [''married'']) (rows toy_dina)) \<subseteq> set (map (cell_key [''married'']) (rows toy_cps))"
    "set (map (cell_key [''married'']) (rows toy_dina)) \<subseteq> set (map (cell_key [''married'']) (rows toy_scf))"
    "rows toy_dina \<noteq> []"
    by (simp_all add: toy_defs)
  have w: "sum_list (weights toy_dina) = 4" by (simp add: toy_defs)
  show ?thesis
    using h w Run.run_two_stage_mass [OF solver_sound_nw_plan h] by simp
qed

subsection \<open>Normalisation, stage tables and run errors\<close>


theorem cell_single_stage_entries_witness:
  "weights_ok toy_dina \<and> weights_ok toy_cps \<and>
   (\<exists>t. transport_cell nw_plan toy_corr_cps toy_corr_scf toy_dina toy_cps (None :: nat frame option) =
          Inr (map Some t))"
proof -
  have h: "set (source_cols toy_corr_cps) \<subseteq> set (columns toy_dina)"
    "set (target_cols toy_corr_cps) \<subseteq> set (columns toy_cps)"
    "weights_ok toy_dina" "weights_ok toy_cps"
    by (simp_all add: toy_defs)
  show ?thesis
    using h Chain.cell_single_stage_entries [OF solver_sound_nw_plan h, of toy_corr_scf] by auto
qed

theorem cell_single_stage_cps_marginal_witness:
  "distinct (map rid (rows toy_cps)) \<and>
   (\<exists>t. transport_cell nw_plan toy_corr_cps toy_corr_scf toy_dina toy_cps (None :: nat frame option) =
          Inr (map Some t) \<and> sum_list (map match_weight (filter (\<lambda>r. match_cps r = 1) t)) = 8/3)"
proof -
  have h: "set (source_cols toy_corr_cps) \<subseteq> set (columns toy_dina)"
    "set (target_cols toy_corr_cps) \<subseteq> set (columns toy_cps)"
    "weights_ok toy_dina" "weights_ok toy_cps" "distinct (map rid (rows toy_cps))"
    "0 < length (rows toy_cps)"
    by (simp_all add: toy_defs)
  have v: "rid (rows toy_cps ! 0) = 1" "sum_list (weights toy_dina) * weights toy_cps ! 0 / sum_list (weights toy_cps) = 8/3"
    by (simp_all add: toy_defs)
  show ?thesis
    using h v Chain.cell_single_stage_cps_marginal [OF solver_sound_nw_plan h, of toy_corr_scf] by auto
qed

theorem run_schema_fail_fast_witness:
  "\<not> set [''old''] \<subseteq> set (columns toy_dina) \<and>
   run_match nw_plan [''old''] toy_corr_cps toy_corr_scf toy_dina toy_cps (None :: nat frame option) =
     Inl (KeyErrorColumn ''old'')"
proof -
  have h: "\<not> (set [''old''] \<subseteq> set (columns toy_dina) \<and> set [''old''] \<subseteq> set (columns toy_cps) \<and>
              (\<forall>F. (None :: nat frame option) = Some F \<longrightarrow> set [''old''] \<subseteq> set (columns F)))"
    by (simp add: toy_defs)
  show ?thesis
    using Run.run_schema_fail_fast [OF h, of nw_plan toy_corr_cps toy_corr_scf] by (simp add: toy_defs)
qed

theorem run_match_scf_gap_witness:
  "cell_key [''married''] (rows toy_dina ! 0) \<notin> set (map (cell_key [''married'']) (rows toy_scf_married)) \<and>
   (\<exists>e. run_match nw_plan [''married''] toy_corr_cps toy_corr_scf toy_dina toy_cps (Some toy_scf_married) = Inl e)"
proof -
  have h: "set [''married''] \<subseteq> set (columns toy_dina)" "set [''married''] \<subseteq> set (columns toy_cps)"
    "set [''married''] \<subseteq> set (columns toy_scf_married)"
    "rows toy_dina ! 0 \<in> set (rows toy_dina)"
    "cell_key [''married''] (rows toy_dina ! 0) \<notin> set (map (cell_key [''married'']) (rows toy_scf_married))"
    by (simp_all add: toy_defs)
  show ?thesis
    using h Run.run_match_scf_gap [OF h, of nw_plan toy_corr_cps toy_corr_scf] by simp
qed

subsection \<open>Calendar and URL witnesses\<close>

lemma toy_november: "monthrange_days 2026 11 = Some 30"
  by (simp add: monthrange_days_def mdays_def)

theorem month_ends_count_witness:
  "monthrange_days 2026 11 = Some 30 \<and> length (month_ends (2026, 11, 9)) = 82"
  using Forbes.month_ends_count [OF _ toy_november, of 9] toy_november by simp

subsection \<open>Metric and two-stage witnesses\<close>

lemma toy_two_stage_hyps:
  "set (source_cols toy_corr_cps) \<subseteq> set (columns toy_dina)"
  "set (target_cols toy_corr_cps) \<subseteq> set (columns toy_cps)"
  "set (source_cols toy_corr_scf) \<subseteq> set (columns toy_dina)"
  "set (target_cols toy_corr_scf) \<subseteq> set (columns toy_scf)"
  "weights_ok toy_dina" "weights_ok toy_cps" "weights_ok toy_scf"
  by (simp_all add: toy_defs)

theorem cell_two_stage_entries_witness:
  "weights_ok toy_scf \<and>
   (\<exists>t. transport_cell nw_plan toy_corr_cps toy_corr_scf toy_dina toy_cps (Some toy_scf) = Inr (map Some t))"
  using toy_two_stage_hyps Chain.cell_two_stage_entries [OF solver_sound_nw_plan toy_two_stage_hyps] by auto

theorem cell_two_stage_scf_marginal_witness:
  "distinct (map rid (rows toy_scf)) \<and>
   (\<exists>t. transport_cell nw_plan toy_corr_cps toy_corr_scf toy_dina toy_cps (Some toy_scf) = Inr (map Some t) \<and>
        sum_list (map match_weight (filter (\<lambda>r. match_scf r = Some 2) t)) = 3)"
proof -
  have h: "distinct (map rid (rows toy_scf))" "1 < length (rows toy_scf)" by (simp_all add: toy_defs)
  have v: "rid (rows toy_scf ! 1) = 2" "sum_list (weights toy_dina) * weights toy_scf ! 1 / sum_list (weights toy_scf) = 3"
    by (simp_all add: toy_defs)
  show ?thesis
    using h v Chain.cell_two_stage_scf_marginal [OF solver_sound_nw_plan toy_two_stage_hyps h] by auto
qed

subsection \<open>Scraped dates and cell errors\<close>

theorem scrape_rows_dated_witness:
  "scrape toy_fetch_now (2020, 3, 5) = Some (Inr [(1, 2020, 1), (2, 2020, 2)]) \<and>
   (\<exists>d. monthrange_days 2020 2 = Some d \<and> (2020, 2, d) < ((2020, 3, 5) :: date))"
proof -
  have h: "scrape toy_fetch_now (2020, 3, 5) = Some (Inr [(1, 2020, 1), (2, 2020, 2)])"
    by (simp add: scrape_def toy_month_ends retry_immediate toy_fetch_now_def tag_def)
  show ?thesis using Forbes.scrape_rows_dated [OF h] h by auto
qed


subsection \<open>Refinement witness\<close>

theorem run_match_refines_witness:
  "record_mass toy_dina 3 = 2 \<and>
   (\<exists>t. run_match nw_plan [''married''] toy_corr_cps toy_corr_scf toy_dina toy_cps (Some toy_scf) =
          Inr (map Some t) \<and> table_mass t 3 = 2)"
proof -
  have h: "set [''married''] \<subseteq> set (columns toy_dina)" "set [''married''] \<subseteq> set (columns toy_cps)"
    "set (source_cols toy_corr_cps) \<subseteq> set (columns toy_dina)"
    "set (target_cols toy_corr_cps) \<subseteq> set (columns toy_cps)"
    "positive_weights toy_dina" "positive_weights toy_cps"
    "set (map (cell_key [''married'']) (rows toy_dina)) \<subseteq> set (map (cell_key [''married'']) (rows toy_cps))"
    "\<forall>F. Some toy_scf = Some F \<longrightarrow> set [''married''] \<subseteq> set (columns F) \<and>
       set (source_cols toy_corr_scf) \<subseteq> set (columns toy_dina) \<and> set (target_cols toy_corr_scf) \<subseteq> set (columns F) \<and>
       positive_weights F \<and> set (map (cell_key [''married'']) (rows toy_dina)) \<subseteq> set (map (cell_key [''married'']) (rows F))"
    "rows toy_dina \<noteq> []"
    by (simp_all add: toy_defs)
  have r: "record_mass toy_dina 3 = 2" by (simp add: record_mass_def toy_defs)
  show ?thesis using Record_Mass.run_match_refines [OF solver_sound_nw_plan h] r by auto
qed

theorem scrape_downloads_raw_witness:
  "scrape (attempt toy_near toy_urlopen toy_parse) (2020, 3, 5) =
     Some (Inr [(''https://web.archive.org/web/20200131235959if_/x'', 2020, 1),
                (''https://web.archive.org/web/20200131235959if_/x'', 2020, 2)]) \<and>
   toy_urlopen 0 (raw_url ''https://web.archive.org/web/20200131235959/x'') =
     Some ''https://web.archive.org/web/20200131235959if_/x''"
proof -
  have a: "attempt toy_near toy_urlopen toy_parse d 0 = Some [''https://web.archive.org/web/20200131235959if_/x'']" for d
    by (simp add: attempt_def toy_near_def toy_urlopen_def toy_parse_def raw_url_def)
  have r: "retry (attempt toy_near toy_urlopen toy_parse d) 0 = Some [''https://web.archive.org/web/20200131235959if_/x'']" for d
    using retry_immediate [of "attempt toy_near toy_urlopen toy_parse d", OF a] .
  have h: "scrape (attempt toy_near toy_urlopen toy_parse) (2020, 3, 5) =
     Some (Inr [(''https://web.archive.org/web/20200131235959if_/x'', 2020, 1),
                (''https://web.archive.org/web/20200131235959if_/x'', 2020, 2)])"
    by (simp add: scrape_def toy_month_ends r tag_def)
  show ?thesis using Forbes.scrape_downloads_raw [OF h] h by (simp add: toy_urlopen_def raw_url_def)
qed

subsection \<open>The script end to end\<close>

lemma toy_year_files:
  "dina_file 2000 = ''dina/usdina2000.csv''" "cps_file 2000 = ''cps/cps2000.csv''"
  "scf_file 2000 = Some ''scf/scf2000.csv''" "output_file 2000 = ''match/match-2000.csv''"
  "dina_file 1980 = ''dina/usdina1980.csv''" "dina_file 1995 = ''dina/usdina1995.csv''"
  "cps_file 1995 = ''cps/cps1995.csv''" "dina_file 1996 = ''dina/usdina1996.csv''"
  "cps_file 1996 = ''cps/cps1996.csv''" "scf_file 1996 = Some ''scf/scf1996.csv''"
  by code_simp+

lemma toy_year_args:
  "parse_int ''2000'' = Some 2000" "parse_int ''1980'' = Some 1980" "parse_int ''1995'' = Some 1995"
  "parse_int ''1996'' = Some 1996" "parse_int ''20x'' = None"
  by code_simp+

lemma toy_year_inputs: "inputs_ok toy_year_dina toy_year_cps (Some toy_year_scf)"
  by (simp add: inputs_ok_def toy_year_dina_def toy_year_cps_def toy_year_scf_def cells_def
                matching_cps_def matching_scf_def source_cols_def target_cols_def
                positive_weights_def cell_key_def)

theorem script_output_witness:
  "\<exists>t. transport_main nw_plan toy_read_csv [''transport.py'', ''2000''] =
         Inr (''match/match-2000.csv'', map Some t) \<and>
       table_mass t = record_mass toy_year_dina \<and> (\<forall>m \<in> set t. match_scf m = None \<longleftrightarrow> (2000::int) < 1989)"
proof -
  have rd: "toy_read_csv (dina_file 2000) = Inr toy_year_dina" "toy_read_csv (cps_file 2000) = Inr toy_year_cps"
    and sc: "load_scf toy_read_csv (scf_file 2000) = Inr (Some toy_year_scf)"
    by (simp_all add: toy_year_files toy_read_csv_def load_scf_def)
  have ne: "rows toy_year_dina \<noteq> []" by (simp add: toy_year_dina_def)
  show ?thesis
    using Script.script_output [OF solver_sound_nw_plan toy_year_args(1) rd sc toy_year_inputs ne,
                                of "''transport.py''"]
    by (simp add: toy_year_files)
qed

theorem script_errors_witness:
  "transport_main nw_plan toy_read_csv [''transport.py''] = Inl IndexErrorArgv \<and>
   transport_main nw_plan toy_read_csv [''transport.py'', ''20x''] = Inl (ValueErrorInt ''20x'') \<and>
   transport_main nw_plan toy_read_csv [''transport.py'', ''1980''] = Inl (FileNotFound ''dina/usdina1980.csv'') \<and>
   transport_main nw_plan toy_read_csv [''transport.py'', ''1995''] = Inl (FileNotFound ''cps/cps1995.csv'') \<and>
   transport_main nw_plan toy_read_csv [''transport.py'', ''1996''] = Inl (FileNotFound ''scf/scf1996.csv'')"
proof -
  note e = Script.script_errors [of "[''transport.py'']" nw_plan toy_read_csv]
  show ?thesis
    using e [of "''20x''" "''transport.py''" "[]"]
      e [of "''1980''" "''transport.py''" "[]" 1980 "FileNotFound ''dina/usdina1980.csv''"]
      e [of "''1995''" "''transport.py''" "[]" 1995 "FileNotFound ''cps/cps1995.csv''" toy_year_dina]
      e [of "''1996''" "''transport.py''" "[]" 1996 "FileNotFound ''scf/scf1996.csv''" toy_year_dina toy_year_cps
           "''scf/scf1996.csv''"]
    by (simp add: toy_year_args toy_year_files toy_read_csv_def)
qed

subsection \<open>Independent cells\<close>

theorem run_split_cells_witness:
  "\<exists>t. run_match nw_plan cells matching_cps matching_scf toy_year_dina toy_year_cps (Some toy_year_scf) = Inr t \<and>
       rows (restrict_cells cells (\<lambda>k. k ! 0 = 1) toy_year_dina) \<noteq> [] \<and>
       rows (restrict_cells cells (\<lambda>k. \<not> k ! 0 = 1) toy_year_dina) \<noteq> [] \<and>
       (\<exists>t1 t2. run_match nw_plan cells matching_cps matching_scf
                  (restrict_cells cells (\<lambda>k. k ! 0 = 1) toy_year_dina) toy_year_cps (Some toy_year_scf) = Inr t1 \<and>
                run_match nw_plan cells matching_cps matching_scf
                  (restrict_cells cells (\<lambda>k. \<not> k ! 0 = 1) toy_year_dina) toy_year_cps (Some toy_year_scf) = Inr t2 \<and>
                mset t = mset t1 + mset t2)"
proof -
  obtain t where run: "run_match nw_plan cells matching_cps matching_scf toy_year_dina toy_year_cps
                         (Some toy_year_scf) = Inr (map Some t)"
    using inputs_ok_run [OF solver_sound_nw_plan toy_year_inputs] by (auto simp: toy_year_dina_def)
  have ne: "rows (restrict_cells cells (\<lambda>k. k ! 0 = 1) toy_year_dina) \<noteq> []"
    "rows (restrict_cells cells (\<lambda>k. \<not> k ! 0 = 1) toy_year_dina) \<noteq> []"
    by (simp_all add: restrict_cells_def toy_year_dina_def cell_key_def cells_def)
  show ?thesis
    using run ne Cells.run_split_cells [OF run ne] by blast
qed

end
